(* ===== verification/Summit_Prelude.thy ===== *)
theory Summit_Prelude
  imports Main "HOL-Library.Word" "HOL-Library.List_Lexorder"
begin

text \<open>
  Shared ground of the development: the machine types of the Rust code, the outcome of a
  computation that may return, fail or panic, checked and saturating arithmetic, big-endian
  byte strings, and the two ordered containers of the standard library that the code keeps
  (\<open>BTreeMap\<close> and \<open>BTreeSet\<close>), as lists in key order.
\<close>

named_theorems outcome_simps \<open>equations that run a computation that may fail or panic\<close>
named_theorems container_simps \<open>facts about ordered containers\<close>

unbundle bit_operations_syntax

section \<open>Machine types\<close>

type_synonym byte = "8 word"
type_synonym bytes = "byte list"
type_synonym u16 = "16 word"
type_synonym u32 = "32 word"
type_synonym u64 = "64 word"

text \<open>A digest, an execution-layer hash or any other \<open>[u8; 32]\<close>, read as a big-endian number.\<close>

type_synonym digest = "256 word"

text \<open>\<open>usize\<close> is 64 bits wide on the platforms the code runs on.\<close>

abbreviation usize_of_len :: "'a list \<Rightarrow> u64" where
  "usize_of_len xs \<equiv> word_of_nat (length xs)"

section \<open>Outcomes\<close>

text \<open>
  \<open>Ok\<close> and \<open>Err\<close> are the two sides of a Rust \<open>Result\<close>; \<open>Panic\<close> is a thread that unwinds:
  a failed \<open>expect\<close>, an index out of range, an overflow in a build with overflow checks.
\<close>

datatype panic =
    ArithmeticOverflow
  | IndexOutOfRange
  | DivideByZero
  | EnteredUnreachable
  | BufferUnderflow
  | ExpectFailed string

datatype ('e, 'a) outcome = Ok 'a | Err 'e | Panic panic

fun and_then :: "('e, 'a) outcome \<Rightarrow> ('a \<Rightarrow> ('e, 'b) outcome) \<Rightarrow> ('e, 'b) outcome" where
  "and_then (Ok x) f = f x"
| "and_then (Err e) f = Err e"
| "and_then (Panic p) f = Panic p"

declare and_then.simps [outcome_simps]

lemma and_then_eq_Ok_iff [outcome_simps]:
  "and_then m f = Ok y \<longleftrightarrow> (\<exists>x. m = Ok x \<and> f x = Ok y)"
  by (cases m) auto

lemma and_then_assoc: "and_then (and_then m f) g = and_then m (\<lambda>x. and_then (f x) g)"
  by (cases m) auto

lemma and_then_eq_PanicE:
  assumes "and_then m f = Panic p"
  obtains "m = Panic p" | x where "m = Ok x" and "f x = Panic p"
  using assms by (cases m) auto

lemma and_then_cong [fundef_cong]:
  "m = m' \<Longrightarrow> (\<And>x. m' = Ok x \<Longrightarrow> f x = f' x) \<Longrightarrow> and_then m f = and_then m' f'"
  by (cases m') auto

text \<open>\<open>Result::map_err\<close>, \<open>Option::ok_or\<close> and \<open>expect\<close> on either.\<close>

fun map_err :: "('e \<Rightarrow> 'f) \<Rightarrow> ('e, 'a) outcome \<Rightarrow> ('f, 'a) outcome" where
  "map_err g (Ok x) = Ok x"
| "map_err g (Err e) = Err (g e)"
| "map_err g (Panic p) = Panic p"

fun ok_or :: "'e \<Rightarrow> 'a option \<Rightarrow> ('e, 'a) outcome" where
  "ok_or e None = Err e"
| "ok_or e (Some x) = Ok x"

fun expect_some :: "string \<Rightarrow> 'a option \<Rightarrow> ('e, 'a) outcome" where
  "expect_some m None = Panic (ExpectFailed m)"
| "expect_some m (Some x) = Ok x"

fun expect_ok :: "string \<Rightarrow> 'f + 'a \<Rightarrow> ('e, 'a) outcome" where
  "expect_ok m (Inl e) = Panic (ExpectFailed m)"
| "expect_ok m (Inr x) = Ok x"

lemma ok_or_eq_Ok_iff [outcome_simps]: "ok_or e x = Ok y \<longleftrightarrow> x = Some y"
  by (cases x) auto

lemma expect_some_eq_Ok_iff [outcome_simps]: "expect_some m x = Ok y \<longleftrightarrow> x = Some y"
  by (cases x) auto

lemma expect_ok_eq_Ok_iff [outcome_simps]: "expect_ok m x = Ok y \<longleftrightarrow> x = Inr y"
  by (cases x) auto

lemma map_err_eq_Ok_iff [outcome_simps]: "map_err g m = Ok y \<longleftrightarrow> m = Ok y"
  by (cases m) auto

declare ok_or.simps [outcome_simps] expect_some.simps [outcome_simps]
  expect_ok.simps [outcome_simps] map_err.simps [outcome_simps]

section \<open>Arithmetic\<close>

text \<open>
  Rust's \<open>+\<close> and \<open>-\<close> on unsigned integers panic on overflow in a debug build and wrap in a
  release build. Every definition whose code adds or subtracts takes the profile it was built with.
\<close>

datatype profile = Debug | Release

definition add_ovf :: "profile \<Rightarrow> 'w::len word \<Rightarrow> 'w word \<Rightarrow> ('e, 'w word) outcome" where
  "add_ovf pr a b =
     (if unat a + unat b < 2 ^ LENGTH('w) \<or> pr = Release then Ok (a + b)
      else Panic ArithmeticOverflow)"

definition sub_ovf :: "profile \<Rightarrow> 'w::len word \<Rightarrow> 'w word \<Rightarrow> ('e, 'w word) outcome" where
  "sub_ovf pr a b =
     (if b \<le> a \<or> pr = Release then Ok (a - b) else Panic ArithmeticOverflow)"

definition saturating_sub :: "'w::len word \<Rightarrow> 'w word \<Rightarrow> 'w word" where
  "saturating_sub a b = (if a \<le> b then 0 else a - b)"

lemma unat_plus_small:
  fixes a b :: "'w::len word"
  assumes "unat a + unat b < 2 ^ LENGTH('w)"
  shows "unat (a + b) = unat a + unat b"
  using assms by (simp add: unat_word_ariths)

lemma add_ovf_small [outcome_simps]:
  fixes a b :: "'w::len word"
  assumes "unat a + unat b < 2 ^ LENGTH('w)"
  shows "add_ovf pr a b = Ok (a + b)"
  using assms by (simp add: add_ovf_def)

lemma add_ovf_Ok: "add_ovf pr a b = Ok c \<Longrightarrow> c = a + b"
  by (auto simp: add_ovf_def split: if_splits)

lemma add_ovf_never_Err [simp]: "add_ovf pr a b \<noteq> Err e"
  by (simp add: add_ovf_def)

lemma add_ovf_Debug_Ok:
  fixes a b :: "'w::len word"
  assumes "add_ovf Debug a b = Ok c"
  shows "unat c = unat a + unat b"
  using assms by (auto simp: add_ovf_def unat_plus_small split: if_splits)

lemma unat_Suc_u64: "unat (a :: u64) < 2 ^ 64 - 1 \<Longrightarrow> unat (a + 1) = Suc (unat a)"
  by (subst unat_plus_small) (auto simp: unat_plus_small)

lemma add_ovf_Suc_u64: "unat (a :: u64) < 2 ^ 64 - 1 \<Longrightarrow> add_ovf pr a 1 = Ok (a + 1)"
  by (rule add_ovf_small) simp

lemma saturating_sub_le: "saturating_sub a b \<le> a"
  by (simp add: saturating_sub_def word_le_nat_alt unat_sub)

lemma unat_saturating_sub: "unat (saturating_sub a b) = unat a - unat b"
  by (simp add: saturating_sub_def word_le_nat_alt unat_sub)

section \<open>Big-endian bytes\<close>

fun to_be :: "nat \<Rightarrow> 'w::len word \<Rightarrow> bytes" where
  "to_be 0 w = []"
| "to_be (Suc n) w = ucast (drop_bit (8 * n) w) # to_be n w"

definition be_nat :: "bytes \<Rightarrow> nat" where
  "be_nat bs = foldl (\<lambda>acc b. acc * 256 + unat b) 0 bs"

definition of_be :: "bytes \<Rightarrow> 'w::len word" where
  "of_be bs = word_of_nat (be_nat bs)"

lemma length_to_be [simp]: "length (to_be n w) = n"
  by (induction n) auto

lemma be_nat_acc: "foldl (\<lambda>acc b. acc * 256 + unat b) a bs = a * 256 ^ length bs + be_nat bs"
proof (induction bs arbitrary: a)
  case Nil
  then show ?case by (simp add: be_nat_def)
next
  case (Cons b bs)
  have "be_nat (b # bs) = unat b * 256 ^ length bs + be_nat bs"
    using Cons.IH [of "unat b"] by (simp add: be_nat_def)
  then show ?case
    using Cons.IH [of "a * 256 + unat b"] by (simp add: algebra_simps)
qed

lemma be_nat_Nil [simp]: "be_nat [] = 0"
  by (simp add: be_nat_def)

lemma be_nat_Cons [simp]: "be_nat (b # bs) = unat b * 256 ^ length bs + be_nat bs"
  using be_nat_acc [of "unat b" bs] by (simp add: be_nat_def)

lemma be_nat_snoc: "be_nat (bs @ [b]) = be_nat bs * 256 + unat b"
  by (simp add: be_nat_def)

lemma be_nat_append: "be_nat (bs @ cs) = be_nat bs * 256 ^ length cs + be_nat cs"
  by (induction bs) (simp_all add: power_add algebra_simps)

lemma be_nat_zeros [simp]: "be_nat (replicate n 0) = 0"
  by (induction n) simp_all

lemma be_nat_less: "be_nat bs < 256 ^ length bs"
proof (induction bs)
  case (Cons b bs)
  have "unat b < 256"
    using unsigned_less [of b] by simp
  then have "unat b + 1 \<le> 256" by simp
  then have "(unat b + 1) * 256 ^ length bs \<le> 256 * 256 ^ length bs"
    by (rule mult_le_mono1)
  moreover have "be_nat (b # bs) < (unat b + 1) * 256 ^ length bs"
    using Cons.IH by simp
  ultimately have "be_nat (b # bs) < 256 * 256 ^ length bs"
    by (rule order.strict_trans2 [rotated])
  then show ?case by simp
qed simp

lemma unat_byte_of_drop:
  "unat (ucast (drop_bit (8 * n) w) :: byte) = unat (w :: 'w::len word) div 256 ^ n mod 256"
proof -
  have "unat (ucast (drop_bit (8 * n) w) :: byte) = unat (drop_bit (8 * n) w) mod 256"
    by (simp add: unsigned_ucast_eq take_bit_eq_mod)
  also have "unat (drop_bit (8 * n) w) = drop_bit (8 * n) (unat w)"
    by (rule unat_drop_bit_eq)
  also have "\<dots> = unat w div 256 ^ n"
    by (simp add: drop_bit_eq_div power_mult)
  finally show ?thesis .
qed

lemma be_nat_to_be: "be_nat (to_be n w) = unat w mod 256 ^ n"
proof (induction n)
  case (Suc n)
  have "unat w mod (256 ^ n * 256) = 256 ^ n * (unat w div 256 ^ n mod 256) + unat w mod 256 ^ n"
    by (rule mod_mult2_eq)
  with Suc show ?case
    by (simp only: to_be.simps be_nat_Cons unat_byte_of_drop length_to_be) (simp add: mult.commute)
qed simp

lemma of_be_to_be:
  fixes w :: "'w::len word"
  assumes "LENGTH('w) \<le> 8 * n"
  shows "of_be (to_be n w) = w"
proof -
  have "unat w < 2 ^ LENGTH('w)" by simp
  also have "(2::nat) ^ LENGTH('w) \<le> 2 ^ (8 * n)"
    using assms by (rule power_increasing) simp
  also have "(2::nat) ^ (8 * n) = 256 ^ n" by (simp add: power_mult)
  finally have "unat w mod 256 ^ n = unat w" by simp
  then show ?thesis by (simp add: of_be_def be_nat_to_be)
qed

lemma to_be_of_nat_be:
  assumes "8 * length bs \<le> LENGTH('w::len)"
  shows "to_be (length bs) (word_of_nat (be_nat bs) :: 'w word) = bs"
proof -
  have gen: "to_be (length cs) (w :: 'w word) = cs"
    if "unat w mod 256 ^ length cs = be_nat cs" for cs and w :: "'w word"
    using that
  proof (induction cs)
    case (Cons c cs)
    let ?n = "length cs"
    have c: "unat c < 256" using unsigned_less [of c] by simp
    have eq: "256 ^ ?n * (unat w div 256 ^ ?n mod 256) + unat w mod 256 ^ ?n
        = unat c * 256 ^ ?n + be_nat cs"
      using Cons.prems mod_mult2_eq [of "unat w" "256 ^ ?n" 256] by (simp add: mult.commute)
    have lt: "unat w mod 256 ^ ?n < 256 ^ ?n" "be_nat cs < 256 ^ ?n"
      by (simp_all add: be_nat_less)
    have hd: "unat w div 256 ^ ?n mod 256 = unat c"
      using arg_cong [OF eq, of "\<lambda>x. x div 256 ^ ?n"] lt by simp
    with eq have tl: "unat w mod 256 ^ ?n = be_nat cs" by (simp add: mult.commute)
    have "(ucast (drop_bit (8 * ?n) w) :: byte) = c"
      using hd by (simp add: word_unat_eq_iff unat_byte_of_drop)
    with Cons.IH [OF tl] show ?case by simp
  qed simp
  have "be_nat bs < 256 ^ length bs" by (rule be_nat_less)
  also have "(256::nat) ^ length bs = 2 ^ (8 * length bs)" by (simp add: power_mult)
  also have "\<dots> \<le> 2 ^ LENGTH('w)" using assms by (rule power_increasing) simp
  finally have "unat (word_of_nat (be_nat bs) :: 'w word) = be_nat bs"
    by (simp add: unat_of_nat)
  then show ?thesis by (intro gen) (simp add: be_nat_less)
qed

lemma to_be_of_be:
  assumes "length bs = n" and "8 * n \<le> LENGTH('w::len)"
  shows "to_be n (of_be bs :: 'w word) = bs"
  using to_be_of_nat_be [where 'w = 'w, of bs] assms by (simp add: of_be_def)

abbreviation u64_bytes :: "u64 \<Rightarrow> bytes" where "u64_bytes \<equiv> to_be 8"
abbreviation u32_bytes :: "u32 \<Rightarrow> bytes" where "u32_bytes \<equiv> to_be 4"
abbreviation digest_bytes :: "digest \<Rightarrow> bytes" where "digest_bytes \<equiv> to_be 32"

lemma of_be_u64 [simp]: "of_be (u64_bytes w) = w"
  by (rule of_be_to_be) simp

lemma of_be_u32 [simp]: "of_be (u32_bytes w) = w"
  by (rule of_be_to_be) simp

lemma of_be_digest [simp]: "of_be (digest_bytes w) = w"
  by (rule of_be_to_be) simp

lemma digest_bytes_inj [simp]: "digest_bytes a = digest_bytes b \<longleftrightarrow> a = b"
  by (metis of_be_digest)

lemma u64_bytes_inj [simp]: "u64_bytes a = u64_bytes b \<longleftrightarrow> a = b"
  by (metis of_be_u64)

lemma be_nat_u64 [simp]: "be_nat (u64_bytes w) = unat w"
proof -
  have "unat w < 256 ^ 8" using unsigned_less [of w] by simp
  then show ?thesis by (simp only: be_nat_to_be mod_less)
qed

lemma be_nat_digest [simp]: "be_nat (digest_bytes d) = unat d"
proof -
  have "unat d < 256 ^ 32" using unsigned_less [of d] by simp
  then show ?thesis by (simp only: be_nat_to_be mod_less)
qed

section \<open>Ordered containers\<close>

text \<open>
  \<open>BTreeSet<u64>\<close> as a strictly increasing list, \<open>BTreeMap<u64, Vec<_>>\<close> as an association list
  with strictly increasing keys: both are iterated in this order by the code.
\<close>

definition strict_keys :: "('k::linorder \<times> 'v) list \<Rightarrow> bool" where
  "strict_keys m \<longleftrightarrow> sorted (map fst m) \<and> distinct (map fst m)"

fun entry_push :: "'k::linorder \<Rightarrow> 'v \<Rightarrow> ('k \<times> 'v list) list \<Rightarrow> ('k \<times> 'v list) list" where
  "entry_push k v [] = [(k, [v])]"
| "entry_push k v ((k', vs) # m) =
     (if k < k' then (k, [v]) # (k', vs) # m
      else if k = k' then (k', vs @ [v]) # m
      else (k', vs) # entry_push k v m)"

text \<open>\<open>split_off\<close> keeps the entries below the key and returns those at or above it.\<close>

definition split_off :: "'k::linorder \<Rightarrow> ('k \<times> 'v) list \<Rightarrow> ('k \<times> 'v) list \<times> ('k \<times> 'v) list" where
  "split_off k m = (filter (\<lambda>e. fst e < k) m, filter (\<lambda>e. k \<le> fst e) m)"

definition set_add :: "'k::linorder \<Rightarrow> 'k list \<Rightarrow> 'k list" where
  "set_add x xs = insort_insert x xs"

lemma strict_keys_Nil [container_simps, simp]: "strict_keys []"
  by (simp add: strict_keys_def)

lemma strict_keys_Cons [container_simps]:
  "strict_keys ((k, v) # m) \<longleftrightarrow> (\<forall>k' \<in> fst ` set m. k < k') \<and> strict_keys m"
  by (force simp: strict_keys_def order.strict_iff_order)

lemma fst_set_entry_push [container_simps]:
  "fst ` set (entry_push k v m) = insert k (fst ` set m)"
  by (induction k v m rule: entry_push.induct) auto

lemma strict_keys_entry_push: "strict_keys m \<Longrightarrow> strict_keys (entry_push k v m)"
  by (induction k v m rule: entry_push.induct)
     (auto simp: strict_keys_Cons fst_set_entry_push)

lemma strict_keys_filter: "strict_keys m \<Longrightarrow> strict_keys (filter P m)"
  by (simp add: strict_keys_def sorted_filter distinct_map_filter)

lemma set_add_set [container_simps, simp]: "set (set_add x xs) = insert x (set xs)"
  by (auto simp: set_add_def insort_insert_key_def set_insort_key)

lemma set_add_sorted: "sorted xs \<Longrightarrow> sorted (set_add x xs)"
  by (simp add: set_add_def sorted_insort_insert)

lemma set_add_distinct: "distinct xs \<Longrightarrow> distinct (set_add x xs)"
  by (simp add: set_add_def distinct_insort_insert)

text \<open>\<open>Vec::swap_remove\<close>: the last element takes the removed one's place.\<close>

text \<open>Indexing a vector.\<close>

definition nth_checked :: "'a list \<Rightarrow> nat \<Rightarrow> ('e, 'a) outcome" where
  "nth_checked xs i = (if i < length xs then Ok (xs ! i) else Panic IndexOutOfRange)"

lemma nth_checked_Ok [outcome_simps]: "nth_checked xs i = Ok x \<longleftrightarrow> i < length xs \<and> x = xs ! i"
  by (auto simp: nth_checked_def)

definition swap_remove :: "'a list \<Rightarrow> nat \<Rightarrow> ('e, 'a list) outcome" where
  "swap_remove xs i =
     (if i < length xs then Ok (butlast (xs[i := last xs])) else Panic IndexOutOfRange)"

text \<open>The half-open range of machine integers a \<open>for\<close> loop runs over.\<close>

definition u64_range :: "u64 \<Rightarrow> u64 \<Rightarrow> u64 list" where
  "u64_range a b = map word_of_nat [unat a ..< unat b]"

lemma set_u64_range: "set (u64_range a b) = {i. a \<le> i \<and> i < b}"
proof (intro equalityI subsetI)
  fix x
  assume "x \<in> set (u64_range a b)"
  then obtain n where n: "x = word_of_nat n" "unat a \<le> n" "n < unat b"
    by (auto simp: u64_range_def)
  moreover have "unat b < 2 ^ 64"
    using unsigned_less [of b] by simp
  ultimately show "x \<in> {i. a \<le> i \<and> i < b}"
    by (simp add: word_le_nat_alt word_less_nat_alt unat_of_nat)
next
  fix x
  assume "x \<in> {i. a \<le> i \<and> i < b}"
  then have "x = word_of_nat (unat x)" "unat x \<in> set [unat a ..< unat b]"
    by (auto simp: word_le_nat_alt word_less_nat_alt)
  then show "x \<in> set (u64_range a b)"
    unfolding u64_range_def by (metis image_eqI list.set_map)
qed

lemma length_u64_range [simp]: "length (u64_range a b) = unat b - unat a"
  by (simp add: u64_range_def)

subsection \<open>Decimal numbers\<close>

text \<open>\<open>Display\<close> of an unsigned number.\<close>

fun decimal :: "nat \<Rightarrow> string" where
  "decimal n = (if n < 10 then [char_of (48 + n)] else decimal (n div 10) @ [char_of (48 + n mod 10)])"

declare decimal.simps [simp del]

lemma decimal_small: "n < 10 \<Longrightarrow> decimal n = [char_of (48 + n)]"
  by (simp add: decimal.simps)

lemma decimal_large: "\<not> n < 10 \<Longrightarrow> decimal n = decimal (n div 10) @ [char_of (48 + n mod 10)]"
  by (subst decimal.simps) simp

lemma decimal_not_Nil [simp]: "decimal n \<noteq> []"
  by (cases "n < 10") (simp_all add: decimal_small decimal_large)

definition undecimal :: "string \<Rightarrow> nat" where
  "undecimal s = foldl (\<lambda>n c. n * 10 + (of_char c - 48)) 0 s"

lemma undecimal_decimal: "undecimal (decimal n) = n"
proof (induction n rule: decimal.induct)
  case (1 n)
  have digit: "(of_char (char_of (48 + d) :: char) :: nat) - 48 = d" if "d < 10" for d :: nat
    using that by (simp add: of_char_of)
  show ?case
  proof (cases "n < 10")
    case True
    then show ?thesis by (subst decimal.simps) (simp add: undecimal_def digit)
  next
    case False
    have "undecimal (decimal n) = undecimal (decimal (n div 10)) * 10 + n mod 10"
      using False by (subst decimal.simps) (simp add: undecimal_def digit)
    with 1 False show ?thesis by simp
  qed
qed

lemma decimal_inj [simp]: "decimal m = decimal n \<longleftrightarrow> m = n"
  by (metis undecimal_decimal)

lemma decimal_digits: "c \<in> set (decimal n) \<Longrightarrow> \<exists>d < 10. c = char_of (48 + d :: nat)"
proof (induction n rule: decimal.induct)
  case (1 n)
  show ?case
  proof (cases "n < 10")
    case True
    with 1(2) show ?thesis by (auto simp: decimal_small)
  next
    case False
    with 1(2) consider "c \<in> set (decimal (n div 10))" | "c = char_of (48 + n mod 10)"
      by (auto simp: decimal_large simp del: of_char_of)
    then show ?thesis
      using 1(1) [OF False] by cases (blast, metis mod_less_divisor zero_less_numeral)
  qed
qed

text \<open>No separator of a path or of a name occurs in a number.\<close>

lemma decimal_plain:
  "CHR ''/'' \<notin> set (decimal n)" "CHR ''.'' \<notin> set (decimal n)" "CHR ''-'' \<notin> set (decimal n)"
proof -
  have "of_char c \<ge> (48 :: nat)" if "c \<in> set (decimal n)" for c
    using decimal_digits [OF that] by auto
  from this [of "CHR ''/''"] this [of "CHR ''.''"] this [of "CHR ''-''"]
  show "CHR ''/'' \<notin> set (decimal n)" "CHR ''.'' \<notin> set (decimal n)" "CHR ''-'' \<notin> set (decimal n)" by auto
qed

end
