(* ===== verification/Wire_Codec.thy ===== *)
theory Wire_Codec
  imports Summit_Prelude
begin

text \<open>
  The contract of the \<open>commonware_codec\<close> traits \<open>Write\<close>, \<open>Read\<close> and \<open>EncodeSize\<close> that the wire
  types of the program implement, as a locale, and the byte-buffer functions of the \<open>bytes\<close> crate
  and of the codec library that the implementations call, as parameters with their documented laws.
\<close>

section \<open>Buffers\<close>

text \<open>
  \<open>Error\<close> of \<open>commonware_codec\<close>, as far as the program constructs or meets it.
\<close>

datatype codec_error = EndOfBuffer | InvalidData string string

type_synonym 'a reader = "bytes \<Rightarrow> (codec_error, 'a \<times> bytes) outcome"

text \<open>
  A reader takes the unread bytes and returns the value with the bytes that remain. The buffer
  functions are third-party code: \<open>Buf::get_u32\<close>, \<open>Buf::copy_to_bytes\<close> and the codec library's
  \<open>Read\<close> of a byte array.
\<close>

record buf_api =
  get_u32 :: "u32 reader"
  copy_to_bytes :: "nat \<Rightarrow> bytes reader"
  read_array :: "nat \<Rightarrow> bytes reader"

text \<open>
  Their documentation: the \<open>Buf\<close> functions panic when fewer bytes remain than are asked for,
  the codec library's array read returns the \<open>EndOfBuffer\<close> error instead.
\<close>

definition buf_laws :: "buf_api \<Rightarrow> bool" where
  "buf_laws B \<longleftrightarrow>
     (\<forall>bs. get_u32 B bs =
        (if 4 \<le> length bs then Ok (of_be (take 4 bs), drop 4 bs) else Panic BufferUnderflow)) \<and>
     (\<forall>n bs. copy_to_bytes B n bs =
        (if n \<le> length bs then Ok (take n bs, drop n bs) else Panic BufferUnderflow)) \<and>
     (\<forall>n bs. read_array B n bs =
        (if n \<le> length bs then Ok (take n bs, drop n bs) else Err EndOfBuffer))"

definition slice_buf :: buf_api where
  "slice_buf =
     \<lparr>get_u32 = (\<lambda>bs. if 4 \<le> length bs then Ok (of_be (take 4 bs), drop 4 bs)
                       else Panic BufferUnderflow),
      copy_to_bytes = (\<lambda>n bs. if n \<le> length bs then Ok (take n bs, drop n bs)
                              else Panic BufferUnderflow),
      read_array = (\<lambda>n bs. if n \<le> length bs then Ok (take n bs, drop n bs)
                           else Err EndOfBuffer)\<rparr>"

lemma slice_buf_laws [simp]: "buf_laws slice_buf"
  by (simp add: buf_laws_def slice_buf_def)

lemma buf_laws_get_u32:
  "buf_laws B \<Longrightarrow> get_u32 B bs =
     (if 4 \<le> length bs then Ok (of_be (take 4 bs), drop 4 bs) else Panic BufferUnderflow)"
  by (simp add: buf_laws_def)

lemma buf_laws_copy:
  "buf_laws B \<Longrightarrow> copy_to_bytes B n bs =
     (if n \<le> length bs then Ok (take n bs, drop n bs) else Panic BufferUnderflow)"
  by (simp add: buf_laws_def)

lemma buf_laws_array:
  "buf_laws B \<Longrightarrow> read_array B n bs =
     (if n \<le> length bs then Ok (take n bs, drop n bs) else Err EndOfBuffer)"
  by (simp add: buf_laws_def)

lemmas buf_simps = buf_laws_get_u32 buf_laws_copy buf_laws_array

section \<open>The codec contract\<close>

text \<open>
  Values that are \<open>valid\<close> are written to bytes that the reader gives back, leaving the bytes that
  follow untouched. What follows from it: the encoding is injective and prefix-free, so fields may
  be written one after the other without a separator, and nothing shorter than an encoding decodes
  to the same value.
\<close>

locale wire_codec =
  fixes valid :: "'a \<Rightarrow> bool"
    and wr :: "'a \<Rightarrow> bytes"
    and rd :: "'a reader"
  assumes rd_wr: "valid x \<Longrightarrow> rd (wr x @ rest) = Ok (x, rest)"
begin

lemma rd_wr_exact: "valid x \<Longrightarrow> rd (wr x) = Ok (x, [])"
  using rd_wr [of x "[]"] by simp

lemma wr_prefix_free:
  assumes "valid x" "valid y" "wr x @ r = wr y @ s"
  shows "x = y \<and> r = s"
proof -
  have "Ok (x, r) = rd (wr x @ r)" by (rule rd_wr [OF assms(1), symmetric])
  also have "\<dots> = rd (wr y @ s)" by (simp only: assms(3))
  also have "\<dots> = Ok (y, s)" by (rule rd_wr [OF assms(2)])
  finally show ?thesis by simp
qed

lemma wr_inj: "valid x \<Longrightarrow> valid y \<Longrightarrow> wr x = wr y \<Longrightarrow> x = y"
  using wr_prefix_free [of x y "[]" "[]"] by simp

text \<open>A sequence of values written back to back is read back by as many reads.\<close>

primrec rd_many :: "nat \<Rightarrow> 'a list reader" where
  "rd_many 0 bs = Ok ([], bs)"
| "rd_many (Suc n) bs =
     and_then (rd bs) (\<lambda>(x, r). and_then (rd_many n r) (\<lambda>(xs, r'). Ok (x # xs, r')))"

lemma rd_many_concat:
  "\<forall>x \<in> set xs. valid x \<Longrightarrow> rd_many (length xs) (concat (map wr xs) @ rest) = Ok (xs, rest)"
  by (induction xs) (simp_all add: rd_wr)

end

text \<open>A codec that also announces its size (\<open>EncodeSize\<close>), which the encoder allocates.\<close>

locale sized_codec = wire_codec +
  fixes enc_size :: "'a \<Rightarrow> nat"
  assumes size_exact: "valid x \<Longrightarrow> enc_size x = length (wr x)"
begin

lemma size_many:
  "\<forall>x \<in> set xs. valid x \<Longrightarrow> sum_list (map enc_size xs) = length (concat (map wr xs))"
  by (induction xs) (simp_all add: size_exact)

lemma equal_size_append_eq:
  assumes "valid x" "valid y" "wr x @ r = wr y @ s"
  shows "enc_size x = enc_size y"
  using wr_prefix_free [OF assms] by simp

end

end
