(* ===== verification/Multi_Index.thy ===== *)
theory Multi_Index
  imports Wire_Codec
begin

text \<open>
  \<open>syncer/src/key.rs\<close>: the key by which a block is asked for over the network. A key is 33 bytes:
  a kind (0 notarized, 1 finalized, 2 digest) followed by a big-endian view or height padded with
  zeros, or by a digest. The theory models construction, interpretation, the codec, the derived
  order and the \<open>Debug\<close>/\<open>Display\<close> text.
\<close>

section \<open>Keys\<close>

definition INDEX_SIZE :: nat where
  "INDEX_SIZE = 1 + 32"

datatype index_value = Notarized u64 | Finalized u64 | Digest digest

datatype multi_index = MultiIndex (index_bytes: bytes)

text \<open>\<open>bytes[i..i + src.len()].copy_from_slice(src)\<close>.\<close>

definition copy_from_slice :: "nat \<Rightarrow> bytes \<Rightarrow> bytes \<Rightarrow> bytes" where
  "copy_from_slice i src dst = take i dst @ src @ drop (i + length src) dst"

fun multi_index_new :: "index_value \<Rightarrow> multi_index" where
  "multi_index_new (Notarized v) =
     MultiIndex (copy_from_slice 1 (u64_bytes v) ((replicate INDEX_SIZE 0)[0 := 0]))"
| "multi_index_new (Finalized v) =
     MultiIndex (copy_from_slice 1 (u64_bytes v) ((replicate INDEX_SIZE 0)[0 := 1]))"
| "multi_index_new (Digest d) =
     MultiIndex (copy_from_slice 1 (digest_bytes d) ((replicate INDEX_SIZE 0)[0 := 2]))"

fun to_value :: "multi_index \<Rightarrow> ('e, index_value) outcome" where
  "to_value (MultiIndex bs) =
     (if bs ! 0 = 0 then Ok (Notarized (of_be (take 8 (drop 1 bs))))
      else if bs ! 0 = 1 then Ok (Finalized (of_be (take 8 (drop 1 bs))))
      else if bs ! 0 = 2 then Ok (Digest (of_be (drop 1 bs)))
      else Panic EnteredUnreachable)"

text \<open>The array type fixes the length; the unused tail of a key made by \<open>new\<close> is zero.\<close>

definition wf_index :: "multi_index \<Rightarrow> bool" where
  "wf_index k \<longleftrightarrow> length (index_bytes k) = INDEX_SIZE"

definition canonical :: "multi_index \<Rightarrow> bool" where
  "canonical k \<longleftrightarrow> (\<exists>v. k = multi_index_new v)"

fun index_write :: "multi_index \<Rightarrow> bytes" where
  "index_write (MultiIndex bs) = bs"

definition index_read :: "buf_api \<Rightarrow> multi_index reader" where
  "index_read B bs = and_then (read_array B INDEX_SIZE bs) (\<lambda>(b, rest). Ok (MultiIndex b, rest))"

definition index_encode_size :: "multi_index \<Rightarrow> nat" where
  "index_encode_size k = INDEX_SIZE"

lemma copy_from_slice_1: "copy_from_slice 1 src (x # xs) = x # src @ drop (length src) xs"
  by (simp add: copy_from_slice_def)

lemma zero_index: "replicate INDEX_SIZE (0 :: byte) = 0 # replicate 32 0"
  by (simp add: INDEX_SIZE_def flip: replicate_Suc)

lemma new_bytes:
  "index_bytes (multi_index_new (Notarized v)) = 0 # u64_bytes v @ replicate 24 0"
  "index_bytes (multi_index_new (Finalized v)) = 1 # u64_bytes v @ replicate 24 0"
  "index_bytes (multi_index_new (Digest d)) = 2 # digest_bytes d"
  by (simp_all only: multi_index_new.simps zero_index list_update_code(2) copy_from_slice_1
        multi_index.sel length_to_be drop_replicate) simp_all

lemma new_eq_MultiIndex: "multi_index_new v = MultiIndex (index_bytes (multi_index_new v))"
  by (cases v) simp_all

lemma wf_index_new [simp]: "wf_index (multi_index_new v)"
  by (cases v) (simp_all only: wf_index_def new_bytes, simp_all add: INDEX_SIZE_def)

lemma to_value_of_new: "to_value (multi_index_new v) = Ok v"
proof -
  have "to_value (MultiIndex (index_bytes (multi_index_new v))) = Ok v"
    by (cases v) (simp_all only: new_bytes, simp_all)
  then show ?thesis by (simp only: new_eq_MultiIndex [symmetric])
qed

text \<open>
  \<open>MultiIndex::to_value\<close> inverts \<open>MultiIndex::new\<close>: every view, height and digest comes back
  from its key, and interpreting a key made by the node itself never panics.
\<close>

lemma to_value_new: "to_value (multi_index_new v) = Ok v"
  by (rule to_value_of_new)

lemma byte_kind_cases: "b = 0 \<or> b = 1 \<or> b = 2 \<or> 2 < b" for b :: byte
  by (simp add: word_unat_eq_iff word_less_nat_alt) arith

lemma to_value_kind:
  "to_value k = Panic p \<longleftrightarrow> p = EnteredUnreachable \<and> 2 < index_bytes k ! 0"
  "(\<exists>v. to_value k = Ok v) \<longleftrightarrow> index_bytes k ! 0 \<le> 2"
  using byte_kind_cases [of "index_bytes k ! 0"] by (cases k; auto)+

section \<open>The codec\<close>

lemma index_write_bytes: "index_write k = index_bytes k"
  by (cases k) simp

lemma index_read_eq:
  assumes "buf_laws B"
  shows "index_read B bs =
     (if INDEX_SIZE \<le> length bs then Ok (MultiIndex (take INDEX_SIZE bs), drop INDEX_SIZE bs)
      else Err EndOfBuffer)"
  using assms by (simp add: index_read_def buf_simps)

interpretation key_codec: sized_codec
  "\<lambda>k. buf_laws B \<and> wf_index k" index_write "index_read B" index_encode_size for B
proof unfold_locales
  fix k rest
  assume "buf_laws B \<and> wf_index k"
  then show "index_read B (index_write k @ rest) = Ok (k, rest)"
    by (cases k) (simp add: index_read_eq wf_index_def)
next
  fix k
  assume "buf_laws B \<and> wf_index k"
  then show "index_encode_size k = length (index_write k)"
    by (simp add: index_encode_size_def index_write_bytes wf_index_def)
qed

text \<open>
  A key read from the network: any 33 bytes are accepted by the codec, and the key so obtained
  can be interpreted exactly when its kind byte is at most 2; for every other kind byte
  \<open>to_value\<close> runs into \<open>unreachable!\<close>.
\<close>

lemma read_key_interpretable:
  assumes "buf_laws B" and "INDEX_SIZE \<le> length bs"
  shows "\<exists>k. index_read B bs = Ok (k, drop INDEX_SIZE bs) \<and> wf_index k \<and>
             ((\<exists>v. to_value k = Ok v) \<longleftrightarrow> bs ! 0 \<le> 2) \<and>
             (to_value k = Panic EnteredUnreachable \<longleftrightarrow> 2 < bs ! 0)"
proof (intro exI conjI)
  let ?k = "MultiIndex (take INDEX_SIZE bs)"
  have hd: "index_bytes ?k ! 0 = bs ! 0"
    by (simp add: INDEX_SIZE_def)
  show "index_read B bs = Ok (?k, drop INDEX_SIZE bs)"
    using assms by (simp add: index_read_eq)
  show "wf_index ?k" using assms(2) by (simp add: wf_index_def)
  show "(\<exists>v. to_value ?k = Ok v) \<longleftrightarrow> bs ! 0 \<le> 2"
    using to_value_kind(2) [of ?k] by (simp only: hd)
  show "to_value ?k = Panic EnteredUnreachable \<longleftrightarrow> 2 < bs ! 0"
    using to_value_kind(1) [of ?k EnteredUnreachable] by (simp only: hd simp_thms)
qed

section \<open>Aliases\<close>

text \<open>The canonical key of a key's value keeps the eight value bytes and zeroes the padding.\<close>

lemma canonical_iff:
  assumes "wf_index k"
  shows "canonical k \<longleftrightarrow> (\<exists>v. to_value k = (Ok v :: (unit, index_value) outcome) \<and> multi_index_new v = k)"
  by (metis canonical_def to_value_of_new)

lemma wf_index_split:
  assumes "wf_index k"
  shows "index_bytes k = index_bytes k ! 0 # take 8 (drop 1 (index_bytes k)) @ drop 9 (index_bytes k)"
    and "length (take 8 (drop 1 (index_bytes k))) = 8"
    and "length (drop 9 (index_bytes k)) = 24"
    and "length (drop 1 (index_bytes k)) = 32"
proof -
  let ?bs = "index_bytes k"
  have len: "length ?bs = 33" using assms by (simp add: wf_index_def INDEX_SIZE_def)
  then obtain b cs where bs: "?bs = b # cs" by (cases ?bs) auto
  have "drop 9 ?bs = drop 8 cs" by (simp add: bs)
  then show "?bs = ?bs ! 0 # take 8 (drop 1 ?bs) @ drop 9 ?bs" by (simp add: bs)
  from len show "length (take 8 (drop 1 ?bs)) = 8" "length (drop 9 ?bs) = 24"
    "length (drop 1 ?bs) = 32" by simp_all
qed


text \<open>
  Which keys are made by \<open>new\<close>: rebuilding a key from its value gives the same key exactly
  when it is a digest key or its 24 padding bytes are zero. A peer can therefore send two
  different keys for the same view or height.
\<close>

lemma new_to_value:
  assumes "wf_index k" and "to_value k = (Ok v :: (unit, index_value) outcome)"
  shows "multi_index_new v = k \<longleftrightarrow>
           index_bytes k ! 0 = 2 \<or> drop 9 (index_bytes k) = replicate 24 0"
proof -
  let ?bs = "index_bytes k"
  note split = wf_index_split [OF assms(1)]
  have k: "k = MultiIndex ?bs" by simp
  have new: "multi_index_new v = k \<longleftrightarrow> index_bytes (multi_index_new v) = ?bs"
    by (metis multi_index.exhaust_sel)
  have u64: "u64_bytes (of_be (take 8 (drop 1 ?bs))) = take 8 (drop 1 ?bs)"
    by (rule to_be_of_be [OF split(2)]) simp
  have dig: "digest_bytes (of_be (drop 1 ?bs)) = drop 1 ?bs"
    by (rule to_be_of_be [OF split(4)]) simp
  have "?bs \<noteq> []" using split(4) by auto
  then have tl: "?bs = ?bs ! 0 # drop 1 ?bs" by (cases ?bs) simp_all
  have num: "multi_index_new v = k \<longleftrightarrow> drop 9 ?bs = replicate 24 0"
    if "index_bytes (multi_index_new v) = ?bs ! 0 # take 8 (drop 1 ?bs) @ replicate 24 0"
  proof -
    have "multi_index_new v = k \<longleftrightarrow>
      ?bs ! 0 # take 8 (drop 1 ?bs) @ replicate 24 0 = ?bs ! 0 # take 8 (drop 1 ?bs) @ drop 9 ?bs"
      by (simp only: new that split(1) [symmetric])
    then show ?thesis by (simp only: list.inject same_append_eq simp_thms eq_commute)
  qed
  from byte_kind_cases [of "?bs ! 0"] assms(2) k consider
      (n) "?bs ! 0 = 0" "v = Notarized (of_be (take 8 (drop 1 ?bs)))"
    | (f) "?bs ! 0 = 1" "v = Finalized (of_be (take 8 (drop 1 ?bs)))"
    | (d) "?bs ! 0 = 2" "v = Digest (of_be (drop 1 ?bs))"
    by (cases k) (auto split: if_splits)
  then show ?thesis
  proof cases
    case n
    then show ?thesis using num by (simp only: new_bytes u64) simp
  next
    case f
    then show ?thesis using num by (simp only: new_bytes u64) simp
  next
    case d
    have "index_bytes (multi_index_new v) = ?bs"
      using d tl by (simp only: new_bytes dig)
    with new d(1) show ?thesis by simp
  qed
qed

section \<open>The derived order\<close>

text \<open>
  \<open>MultiIndex\<close> derives \<open>Ord\<close>, which on a byte array is the lexicographic order; the instance below
  is that order, so that sorted containers of keys can use the library.
\<close>

instantiation multi_index :: linorder
begin

definition less_eq_multi_index :: "multi_index \<Rightarrow> multi_index \<Rightarrow> bool" where
  "k \<le> k' \<longleftrightarrow> index_bytes k \<le> index_bytes k'"

definition less_multi_index :: "multi_index \<Rightarrow> multi_index \<Rightarrow> bool" where
  "k < k' \<longleftrightarrow> index_bytes k < index_bytes k'"

instance
  by standard (auto simp: less_eq_multi_index_def less_multi_index_def multi_index.expand)

end

lemma list_less_be_nat:
  assumes "length bs = length cs"
  shows "bs < cs \<longleftrightarrow> be_nat bs < be_nat cs"
  using assms
proof (induction bs cs rule: list_induct2)
  case (Cons b bs c cs)
  let ?N = "256 ^ length cs :: nat"
  have lt: "be_nat bs < ?N" "be_nat cs < ?N"
    using be_nat_less [of bs] be_nat_less [of cs] Cons.hyps by simp_all
  have step: "m * ?N + x < n * ?N + y" if "m < n" "x < ?N" for m n x y :: nat
  proof -
    have "m * ?N + x < (m + 1) * ?N" using that by simp
    also have "\<dots> \<le> n * ?N" using that by (intro mult_le_mono1) simp
    finally show ?thesis by simp
  qed
  consider "unat b < unat c" | "b = c" | "unat c < unat b"
    by (metis nat_neq_iff word_unat_eq_iff)
  then show ?case
    using Cons lt by cases (auto simp: word_less_nat_alt dest: step [of _ _ "be_nat bs" "be_nat cs"]
      step [of _ _ "be_nat cs" "be_nat bs"])
qed simp

text \<open>The kind first, then the view, height or digest as a number.\<close>

fun index_rank :: "index_value \<Rightarrow> nat \<times> nat" where
  "index_rank (Notarized v) = (0, unat v)"
| "index_rank (Finalized v) = (1, unat v)"
| "index_rank (Digest d) = (2, unat d)"


text \<open>
  The order of the keys the node makes is the order of what they ask for: notarized views
  before finalized heights before digests, each kind in numerical order.
\<close>

lemma new_less_iff_rank_less:
  "multi_index_new v < multi_index_new w \<longleftrightarrow>
     fst (index_rank v) < fst (index_rank w) \<or>
     fst (index_rank v) = fst (index_rank w) \<and> snd (index_rank v) < snd (index_rank w)"
proof -
  have pad: "(u64_bytes a @ replicate 24 0 < u64_bytes b @ replicate 24 0) \<longleftrightarrow> unat a < unat b"
    for a b :: u64
    by (simp add: list_less_be_nat be_nat_append)
  have dig: "digest_bytes a < digest_bytes b \<longleftrightarrow> unat a < unat b" for a b :: digest
    by (simp add: list_less_be_nat)
  show ?thesis
    unfolding less_multi_index_def
    by (cases v; cases w; simp only: new_bytes Cons_less_Cons pad dig index_rank.simps; simp)
qed

section \<open>Text\<close>

text \<open>
  \<open>Debug\<close>, which \<open>Display\<close> repeats: the kind and the number, or the digest as the digest type
  prints itself (a parameter). Only used in logs.
\<close>

fun index_fmt :: "(digest \<Rightarrow> string) \<Rightarrow> multi_index \<Rightarrow> ('e, string) outcome" where
  "index_fmt show_digest (MultiIndex bs) =
     (if bs ! 0 = 0 then Ok (''notarized('' @ decimal (unat (of_be (take 8 (drop 1 bs)) :: u64)) @ '')'')
      else if bs ! 0 = 1 then Ok (''finalized('' @ decimal (unat (of_be (take 8 (drop 1 bs)) :: u64)) @ '')'')
      else if bs ! 0 = 2 then Ok (''digest('' @ show_digest (of_be (drop 1 bs)) @ '')'')
      else Panic EnteredUnreachable)"

lemma index_fmt_new:
  "index_fmt sd (multi_index_new (Notarized v)) = Ok (''notarized('' @ decimal (unat v) @ '')'')"
  "index_fmt sd (multi_index_new (Finalized v)) = Ok (''finalized('' @ decimal (unat v) @ '')'')"
  "index_fmt sd (multi_index_new (Digest d)) = Ok (''digest('' @ sd d @ '')'')"
proof -
  have fmt: "index_fmt sd (multi_index_new v) = index_fmt sd (MultiIndex (index_bytes (multi_index_new v)))"
    for v by (simp only: new_eq_MultiIndex [symmetric])
  show "index_fmt sd (multi_index_new (Notarized v)) = Ok (''notarized('' @ decimal (unat v) @ '')'')"
    "index_fmt sd (multi_index_new (Finalized v)) = Ok (''finalized('' @ decimal (unat v) @ '')'')"
    "index_fmt sd (multi_index_new (Digest d)) = Ok (''digest('' @ sd d @ '')'')"
    by (simp_all only: fmt new_bytes) simp_all
qed

lemma index_fmt_inj:
  assumes "inj show_digest"
    and "index_fmt show_digest (multi_index_new v) = index_fmt show_digest (multi_index_new w)"
  shows "v = w"
  using assms by (cases v; cases w; simp only: index_fmt_new; simp add: inj_eq)

section \<open>Properties\<close>

text \<open>
  C34. The keys a node makes: every view, height and digest comes back from its key, also after the key
  has travelled in front of other bytes, and the order of the keys is the order of what they ask for:
  notarized views before finalized heights before digests, each kind in numerical order.
\<close>

theorem made_keys_roundtrip:
  assumes "buf_laws B"
  shows "index_read B (index_write (multi_index_new v) @ rest) = Ok (multi_index_new v, rest) \<and>
         to_value (multi_index_new v) = (Ok v :: ('e, index_value) outcome) \<and>
         (multi_index_new v < multi_index_new w \<longleftrightarrow>
            fst (index_rank v) < fst (index_rank w) \<or>
            fst (index_rank v) = fst (index_rank w) \<and> snd (index_rank v) < snd (index_rank w))"
  using key_codec.rd_wr [of B "multi_index_new v" rest] assms wf_index_new
  by (simp only: to_value_of_new new_less_iff_rank_less simp_thms)

theorem made_keys_roundtrip_witness:
  "index_read slice_buf (index_write (multi_index_new (Notarized 7)) @ [1])
     = Ok (multi_index_new (Notarized 7), [1]) \<and>
   multi_index_new (Notarized 7) < multi_index_new (Finalized 3)"
  using made_keys_roundtrip [OF slice_buf_laws, of "Notarized 7" "[1]" "Finalized 3", where 'e = unit] by simp

text \<open>
  C35. The keys a node reads: whatever is accepted is a key of 33 bytes that were at the front of the
  input; it can be interpreted exactly when its kind byte is at most 2, \<open>to_value\<close> running into
  \<open>unreachable!\<close> otherwise; and it is a key that some node makes exactly when, in addition, its 24
  padding bytes are zero or it names a digest.
\<close>

theorem read_keys_well_formed:
  assumes "buf_laws B" and "index_read B bs = Ok (k, rest)"
  shows "wf_index k \<and> bs = index_write k @ rest \<and>
         ((\<exists>v. to_value k = (Ok v :: (unit, index_value) outcome)) \<longleftrightarrow> bs ! 0 \<le> 2) \<and>
         (to_value k = (Panic EnteredUnreachable :: (unit, index_value) outcome) \<longleftrightarrow> 2 < bs ! 0) \<and>
         ((\<exists>v. k = multi_index_new v) \<longleftrightarrow>
            bs ! 0 = 2 \<or> bs ! 0 \<le> 2 \<and> take 24 (drop 9 bs) = replicate 24 0)"
proof -
  have len: "INDEX_SIZE \<le> length bs" and k: "k = MultiIndex (take INDEX_SIZE bs)" "rest = drop INDEX_SIZE bs"
    using assms by (simp_all add: index_read_eq split: if_splits)
  have hd: "index_bytes k ! 0 = bs ! 0" by (simp add: k INDEX_SIZE_def)
  have pad: "drop 9 (index_bytes k) = take 24 (drop 9 bs)" by (simp add: k INDEX_SIZE_def drop_take)
  have wf: "wf_index k" using len by (simp add: k wf_index_def)
  have int: "(\<exists>v. to_value k = (Ok v :: (unit, index_value) outcome)) \<longleftrightarrow> bs ! 0 \<le> 2"
    by (simp only: to_value_kind(2) hd)
  have made: "(\<exists>v. k = multi_index_new v) \<longleftrightarrow> bs ! 0 = 2 \<or> bs ! 0 \<le> 2 \<and> take 24 (drop 9 bs) = replicate 24 0"
  proof
    assume "\<exists>v. k = multi_index_new v"
    then obtain v where v: "multi_index_new v = k" by blast
    then have ok: "to_value k = (Ok v :: (unit, index_value) outcome)" using to_value_of_new by metis
    then show "bs ! 0 = 2 \<or> bs ! 0 \<le> 2 \<and> take 24 (drop 9 bs) = replicate 24 0"
      using new_to_value [OF wf ok] v int unfolding hd pad by blast
  next
    assume "bs ! 0 = 2 \<or> bs ! 0 \<le> 2 \<and> take 24 (drop 9 bs) = replicate 24 0"
    moreover from this obtain v where ok: "to_value k = (Ok v :: (unit, index_value) outcome)"
      using int by auto
    ultimately show "\<exists>v. k = multi_index_new v"
      using new_to_value [OF wf ok] unfolding hd pad by metis
  qed
  have "bs = index_write k @ rest" by (simp add: k index_write_bytes)
  moreover have "to_value k = (Panic EnteredUnreachable :: (unit, index_value) outcome) \<longleftrightarrow> 2 < bs ! 0"
    by (simp only: to_value_kind(1) hd simp_thms)
  ultimately show ?thesis using wf int made by blast
qed

theorem read_keys_well_formed_witness:
  "\<exists>k. index_read slice_buf (replicate 40 0) = Ok (k, replicate 7 0) \<and> (\<exists>v. k = multi_index_new v)"
proof -
  have "index_read slice_buf (replicate 40 0) = Ok (MultiIndex (replicate 33 0), replicate 7 0)"
    using slice_buf_laws by (simp add: index_read_eq INDEX_SIZE_def)
  with read_keys_well_formed [OF slice_buf_laws this] show ?thesis by simp
qed

text \<open>From here on a key is known by its value: its bytes are not unfolded.\<close>

declare multi_index_new.simps [simp del]

end
