(* ===== verification/Block_Types.thy ===== *)
theory Block_Types
  imports Wire_Codec
begin

text \<open>
  \<open>types/src/block.rs\<close>: the consensus block, its digest, its SSZ encoding and its wire codec, and
  the two pairs a node stores and sends, a block with its notarization or finalization. SSZ, SHA-256
  and the certificate codec are third-party code: parameters, in the record \<open>block_api\<close>.
\<close>

section \<open>Data\<close>

text \<open>
  Of the execution payload (\<open>ExecutionPayloadV3\<close>, third-party) the program reads the block hash,
  the parent hash and the transactions; the remaining fields are carried along unread.
\<close>

record execution_payload =
  pl_block_hash :: digest
  pl_parent_hash :: digest
  pl_transactions :: "bytes list"
  pl_rest :: bytes

record block =
  b_parent :: digest
  b_height :: u64
  b_timestamp :: u64
  b_payload :: execution_payload
  b_requests :: "bytes list"
  b_value :: "256 word"
  b_digest :: digest

text \<open>
  A notarization or finalization (third-party): the program reads the proposal's view and payload;
  the parent view and the two signatures are carried along.
\<close>

record cert =
  c_view :: u64
  c_payload :: digest
  c_parent_view :: u64
  c_signatures :: "1536 word"

type_synonym notarization = cert
type_synonym finalization = cert

record notarized =
  n_proof :: notarization
  n_block :: block

record finalized =
  f_proof :: finalization
  f_block :: block

section \<open>Third-party functions\<close>

text \<open>\<open>ssz::Encode\<close> and \<open>ssz::Decode\<close> of one type.\<close>

record 'a ssz_item =
  is_fixed :: bool
  fixed_len :: nat
  as_ssz :: "'a \<Rightarrow> bytes"
  ssz_len :: "'a \<Rightarrow> nat"
  from_ssz :: "bytes \<Rightarrow> 'a option"

text \<open>
  \<open>container_encode n items\<close> is \<open>SszEncoder::container\<close> with \<open>n\<close> bytes for the fixed part, an
  \<open>append\<close> per item and \<open>finalize\<close>; \<open>container_decode types bytes\<close> is \<open>SszDecoderBuilder\<close> with a
  \<open>register_type\<close> per type and \<open>build\<close>, giving the slice of every item.
\<close>

record block_api =
  buf :: buf_api
  sha256 :: "bytes \<Rightarrow> digest"
  ssz_b32 :: "digest ssz_item"
  ssz_u64 :: "u64 ssz_item"
  ssz_payload :: "execution_payload ssz_item"
  ssz_requests :: "bytes list ssz_item"
  ssz_u256 :: "(256 word) ssz_item"
  container_encode :: "nat \<Rightarrow> (bool \<times> bytes) list \<Rightarrow> bytes"
  container_decode :: "(bool \<times> nat) list \<Rightarrow> bytes \<Rightarrow> bytes list option"
  default_payload :: execution_payload
  cert_write :: "cert \<Rightarrow> bytes"
  cert_read :: "cert reader"
  cert_size :: "cert \<Rightarrow> nat"

definition BYTES_PER_LENGTH_OFFSET :: nat where
  "BYTES_PER_LENGTH_OFFSET = 4"

definition DIGEST_SIZE :: nat where
  "DIGEST_SIZE = 32"

section \<open>Block\<close>

definition eth_block_hash :: "block \<Rightarrow> digest" where
  "eth_block_hash b = (if b_height b = 0 then b_digest b else pl_block_hash (b_payload b))"

definition eth_parent_hash :: "block \<Rightarrow> digest" where
  "eth_parent_hash b = pl_parent_hash (b_payload b)"

text \<open>The bytes fed to the hasher, in the order of the \<open>update\<close> calls.\<close>

definition digest_preimage ::
  "block_api \<Rightarrow> digest \<Rightarrow> u64 \<Rightarrow> u64 \<Rightarrow> execution_payload \<Rightarrow> bytes list \<Rightarrow> 256 word \<Rightarrow> bytes" where
  "digest_preimage A pa h t pl rq v =
     digest_bytes pa @ u64_bytes h @ u64_bytes t @ as_ssz (ssz_payload A) pl @
     as_ssz (ssz_requests A) rq @ as_ssz (ssz_u256 A) v"

definition compute_digest ::
  "block_api \<Rightarrow> digest \<Rightarrow> u64 \<Rightarrow> u64 \<Rightarrow> execution_payload \<Rightarrow> bytes list \<Rightarrow> 256 word \<Rightarrow> block" where
  "compute_digest A pa h t pl rq v =
     \<lparr>b_parent = pa, b_height = h, b_timestamp = t, b_payload = pl, b_requests = rq, b_value = v,
      b_digest = sha256 A (digest_preimage A pa h t pl rq v)\<rparr>"

definition genesis :: "block_api \<Rightarrow> digest \<Rightarrow> block" where
  "genesis A genesis_hash =
     \<lparr>b_parent = genesis_hash, b_height = 0, b_timestamp = 0, b_payload = default_payload A,
      b_requests = [], b_value = 0, b_digest = genesis_hash\<rparr>"

definition block_view :: "block \<Rightarrow> u64" where
  "block_view b = b_height b"

definition block_commitment :: "block \<Rightarrow> digest" where
  "block_commitment b = b_digest b"

section \<open>SSZ\<close>

definition ssz_field :: "'a ssz_item \<Rightarrow> 'a \<Rightarrow> bool \<times> bytes" where
  "ssz_field it x = (is_fixed it, as_ssz it x)"

definition ssz_type :: "'a ssz_item \<Rightarrow> bool \<times> nat" where
  "ssz_type it = (is_fixed it, fixed_len it)"

definition block_ssz_offset :: "block_api \<Rightarrow> nat" where
  "block_ssz_offset A =
     fixed_len (ssz_b32 A) + fixed_len (ssz_u64 A) * 2 + fixed_len (ssz_payload A)
     + fixed_len (ssz_requests A) + fixed_len (ssz_u256 A)"

definition block_as_ssz :: "block_api \<Rightarrow> block \<Rightarrow> bytes" where
  "block_as_ssz A b =
     container_encode A (block_ssz_offset A)
       [ssz_field (ssz_b32 A) (b_parent b), ssz_field (ssz_u64 A) (b_height b),
        ssz_field (ssz_u64 A) (b_timestamp b), ssz_field (ssz_payload A) (b_payload b),
        ssz_field (ssz_requests A) (b_requests b), ssz_field (ssz_u256 A) (b_value b)]"

definition ssz_bytes_len :: "block_api \<Rightarrow> block \<Rightarrow> nat" where
  "ssz_bytes_len A b =
     DIGEST_SIZE + ssz_len (ssz_u64 A) (b_height b) + ssz_len (ssz_u64 A) (b_timestamp b)
     + ssz_len (ssz_payload A) (b_payload b) + ssz_len (ssz_requests A) (b_requests b)
     + BYTES_PER_LENGTH_OFFSET + ssz_len (ssz_u256 A) (b_value b)"

text \<open>\<open>None\<close> is any \<open>ssz::DecodeError\<close>: the caller does not tell them apart.\<close>

definition block_from_ssz :: "block_api \<Rightarrow> bytes \<Rightarrow> block option" where
  "block_from_ssz A bs =
     (case container_decode A
        [ssz_type (ssz_b32 A), ssz_type (ssz_u64 A), ssz_type (ssz_u64 A),
         ssz_type (ssz_payload A), ssz_type (ssz_requests A), ssz_type (ssz_u256 A)] bs of
        Some [s1, s2, s3, s4, s5, s6] \<Rightarrow>
          Option.bind (from_ssz (ssz_b32 A) s1) (\<lambda>pa.
          Option.bind (from_ssz (ssz_u64 A) s2) (\<lambda>h.
          Option.bind (from_ssz (ssz_u64 A) s3) (\<lambda>t.
          Option.bind (from_ssz (ssz_payload A) s4) (\<lambda>pl.
          Option.bind (from_ssz (ssz_requests A) s5) (\<lambda>rq.
          Option.bind (from_ssz (ssz_u256 A) s6) (\<lambda>v.
            Some (compute_digest A pa h t pl rq v)))))))
      | _ \<Rightarrow> None)"

section \<open>Wire codec\<close>

definition block_encode_size :: "block_api \<Rightarrow> block \<Rightarrow> nat" where
  "block_encode_size A b = ssz_bytes_len A b + BYTES_PER_LENGTH_OFFSET * 2"

definition block_write :: "block_api \<Rightarrow> block \<Rightarrow> bytes" where
  "block_write A b =
     (let ssz = block_as_ssz A b in u32_bytes (word_of_nat (length ssz)) @ ssz)"

definition block_read :: "block_api \<Rightarrow> block reader" where
  "block_read A bs =
     and_then (get_u32 (buf A) bs) (\<lambda>(len, r).
     and_then (copy_to_bytes (buf A) (unat len) r) (\<lambda>(chunk, r').
     map_err (\<lambda>_. InvalidData ''Block'' ''Unable to decode bytes for block'')
       (and_then (ok_or () (block_from_ssz A chunk)) (\<lambda>b. Ok (b, r')))))"

definition notarized_write :: "block_api \<Rightarrow> notarized \<Rightarrow> bytes" where
  "notarized_write A n = cert_write A (n_proof n) @ block_write A (n_block n)"

definition notarized_read :: "block_api \<Rightarrow> notarized reader" where
  "notarized_read A bs =
     and_then (cert_read A bs) (\<lambda>(proof, r).
     and_then (block_read A r) (\<lambda>(block, r').
       if c_payload proof \<noteq> b_digest block
       then Err (InvalidData ''types::Notarized'' ''Proof payload does not match block digest'')
       else Ok (\<lparr>n_proof = proof, n_block = block\<rparr>, r')))"

definition notarized_encode_size :: "block_api \<Rightarrow> notarized \<Rightarrow> nat" where
  "notarized_encode_size A n = cert_size A (n_proof n) + block_encode_size A (n_block n)"

definition finalized_write :: "block_api \<Rightarrow> finalized \<Rightarrow> bytes" where
  "finalized_write A f = cert_write A (f_proof f) @ block_write A (f_block f)"

definition finalized_read :: "block_api \<Rightarrow> finalized reader" where
  "finalized_read A bs =
     and_then (cert_read A bs) (\<lambda>(proof, r).
     and_then (block_read A r) (\<lambda>(block, r').
       if c_payload proof \<noteq> b_digest block
       then Err (InvalidData ''types::Finalized'' ''Proof payload does not match block digest'')
       else Ok (\<lparr>f_proof = proof, f_block = block\<rparr>, r')))"

definition finalized_encode_size :: "block_api \<Rightarrow> finalized \<Rightarrow> nat" where
  "finalized_encode_size A f = cert_size A (f_proof f) + block_encode_size A (f_block f)"

section \<open>Documented behaviour of the third-party functions\<close>

text \<open>
  An SSZ type: values of fewer than \<open>2\<^sup>3\<^sup>2\<close> bytes (the reach of a 4-byte offset) decode to
  themselves, a fixed type has its announced length, a variable one takes an offset in the fixed
  part of its container.
\<close>

definition item_laws :: "'a ssz_item \<Rightarrow> bool" where
  "item_laws it \<longleftrightarrow>
     (\<forall>x. length (as_ssz it x) < 2 ^ 32 \<longrightarrow> from_ssz it (as_ssz it x) = Some x) \<and>
     (\<forall>x. ssz_len it x = length (as_ssz it x)) \<and>
     (if is_fixed it then \<forall>x. length (as_ssz it x) = fixed_len it
      else fixed_len it = BYTES_PER_LENGTH_OFFSET)"

text \<open>
  A container: every item contributes its fixed length (its bytes or an offset), a variable item
  its bytes after the fixed part, and a decoder with the same types in the same order gives the
  items back, if the fixed part was announced correctly and all fits under \<open>2\<^sup>3\<^sup>2\<close> bytes.
\<close>

definition part_len :: "bool \<times> bytes \<Rightarrow> nat" where
  "part_len p = (if fst p then length (snd p) else BYTES_PER_LENGTH_OFFSET + length (snd p))"

definition matches :: "bool \<times> bytes \<Rightarrow> bool \<times> nat \<Rightarrow> bool" where
  "matches p t \<longleftrightarrow> fst p = fst t \<and>
     (if fst t then length (snd p) = snd t else snd t = BYTES_PER_LENGTH_OFFSET)"

definition container_laws ::
  "(nat \<Rightarrow> (bool \<times> bytes) list \<Rightarrow> bytes) \<Rightarrow> ((bool \<times> nat) list \<Rightarrow> bytes \<Rightarrow> bytes list option) \<Rightarrow> bool"
  where
  "container_laws ce cd \<longleftrightarrow>
     (\<forall>ps ts. list_all2 matches ps ts \<longrightarrow> sum_list (map part_len ps) < 2 ^ 32 \<longrightarrow>
        length (ce (sum_list (map snd ts)) ps) = sum_list (map part_len ps) \<and>
        cd ts (ce (sum_list (map snd ts)) ps) = Some (map snd ps))"

definition block_laws :: "block_api \<Rightarrow> bool" where
  "block_laws A \<longleftrightarrow>
     buf_laws (buf A) \<and>
     item_laws (ssz_b32 A) \<and> is_fixed (ssz_b32 A) \<and> fixed_len (ssz_b32 A) = 32 \<and>
     item_laws (ssz_u64 A) \<and> is_fixed (ssz_u64 A) \<and> fixed_len (ssz_u64 A) = 8 \<and>
     item_laws (ssz_payload A) \<and> \<not> is_fixed (ssz_payload A) \<and>
     item_laws (ssz_requests A) \<and> \<not> is_fixed (ssz_requests A) \<and>
     item_laws (ssz_u256 A) \<and> is_fixed (ssz_u256 A) \<and> fixed_len (ssz_u256 A) = 32 \<and>
     container_laws (container_encode A) (container_decode A)"

definition cert_laws :: "block_api \<Rightarrow> bool" where
  "cert_laws A \<longleftrightarrow> sized_codec (\<lambda>_. True) (cert_write A) (cert_read A) (cert_size A)"

end
