(* ===== verification/Block_Codec.thy ===== *)
theory Block_Codec
  imports Block_Types
begin

text \<open>
  What the encodings of \<open>types/src/block.rs\<close> guarantee: a block that carries its own digest, a
  notarized and a finalized block survive the wire; the announced sizes are the written ones; what
  is read is authentic (its digest is recomputed) and paired with a certificate for it; and where
  the readers panic instead of returning an error.
\<close>

section \<open>Sizes and recomputed digests\<close>

definition rehash :: "block_api \<Rightarrow> block \<Rightarrow> block" where
  "rehash A b = compute_digest A (b_parent b) (b_height b) (b_timestamp b) (b_payload b)
     (b_requests b) (b_value b)"

definition authentic :: "block_api \<Rightarrow> block \<Rightarrow> bool" where
  "authentic A b \<longleftrightarrow> rehash A b = b"

definition content_len :: "block_api \<Rightarrow> block \<Rightarrow> nat" where
  "content_len A b =
     88 + length (as_ssz (ssz_payload A) (b_payload b)) + length (as_ssz (ssz_requests A) (b_requests b))"

definition fits :: "block_api \<Rightarrow> block \<Rightarrow> bool" where
  "fits A b \<longleftrightarrow> content_len A b < 2 ^ 32"

lemma authentic_iff_digest:
  "authentic A b \<longleftrightarrow> b_digest b = sha256 A (digest_preimage A (b_parent b) (b_height b)
     (b_timestamp b) (b_payload b) (b_requests b) (b_value b))"
  by (cases b) (auto simp: authentic_def rehash_def compute_digest_def)

lemma authentic_compute_digest [simp]: "authentic A (compute_digest A pa h t pl rq v)"
  by (simp add: authentic_def rehash_def compute_digest_def)

lemma rehash_fields [simp]:
  "b_parent (rehash A b) = b_parent b" "b_height (rehash A b) = b_height b"
  "b_timestamp (rehash A b) = b_timestamp b" "b_payload (rehash A b) = b_payload b"
  "b_requests (rehash A b) = b_requests b" "b_value (rehash A b) = b_value b"
  by (simp_all add: rehash_def compute_digest_def)

lemma authentic_rehash [simp]: "authentic A (rehash A b)"
  by (simp add: rehash_def)

definition block_fields :: "block_api \<Rightarrow> block \<Rightarrow> (bool \<times> bytes) list" where
  "block_fields A b =
     [ssz_field (ssz_b32 A) (b_parent b), ssz_field (ssz_u64 A) (b_height b),
      ssz_field (ssz_u64 A) (b_timestamp b), ssz_field (ssz_payload A) (b_payload b),
      ssz_field (ssz_requests A) (b_requests b), ssz_field (ssz_u256 A) (b_value b)]"

definition block_types :: "block_api \<Rightarrow> (bool \<times> nat) list" where
  "block_types A =
     [ssz_type (ssz_b32 A), ssz_type (ssz_u64 A), ssz_type (ssz_u64 A),
      ssz_type (ssz_payload A), ssz_type (ssz_requests A), ssz_type (ssz_u256 A)]"

lemma item_matches: "item_laws it \<Longrightarrow> matches (ssz_field it x) (ssz_type it)"
  by (auto simp: item_laws_def matches_def ssz_field_def ssz_type_def)

lemma item_len: "item_laws it \<Longrightarrow> ssz_len it x = length (as_ssz it x)"
  by (simp add: item_laws_def)

lemma item_fixed_length: "item_laws it \<Longrightarrow> is_fixed it \<Longrightarrow> length (as_ssz it x) = fixed_len it"
  by (simp add: item_laws_def)

lemma item_variable_len: "item_laws it \<Longrightarrow> \<not> is_fixed it \<Longrightarrow> fixed_len it = 4"
  by (simp add: item_laws_def BYTES_PER_LENGTH_OFFSET_def)

lemma item_decode:
  "item_laws it \<Longrightarrow> length (as_ssz it x) < 2 ^ 32 \<Longrightarrow> from_ssz it (as_ssz it x) = Some x"
  by (simp add: item_laws_def)

lemma block_laws_items:
  assumes "block_laws A"
  shows "item_laws (ssz_b32 A)" "item_laws (ssz_u64 A)" "item_laws (ssz_payload A)"
    "item_laws (ssz_requests A)" "item_laws (ssz_u256 A)"
    "is_fixed (ssz_b32 A)" "is_fixed (ssz_u64 A)" "\<not> is_fixed (ssz_payload A)"
    "\<not> is_fixed (ssz_requests A)" "is_fixed (ssz_u256 A)"
    "fixed_len (ssz_b32 A) = 32" "fixed_len (ssz_u64 A) = 8" "fixed_len (ssz_u256 A) = 32"
    "buf_laws (buf A)" "container_laws (container_encode A) (container_decode A)"
  using assms by (simp_all add: block_laws_def)

lemma block_lengths:
  assumes "block_laws A"
  shows "sum_list (map part_len (block_fields A b)) = content_len A b"
    and "sum_list (map snd (block_types A)) = block_ssz_offset A"
    and "block_ssz_offset A = 88"
    and "list_all2 matches (block_fields A b) (block_types A)"
proof -
  note L = block_laws_items [OF assms]
  note F = item_fixed_length [OF L(1) L(6)] item_fixed_length [OF L(2) L(7)]
    item_fixed_length [OF L(5) L(10)] item_variable_len [OF L(3) L(8)] item_variable_len [OF L(4) L(9)]
  show "sum_list (map part_len (block_fields A b)) = content_len A b"
    using L F by (simp add: block_fields_def ssz_field_def part_len_def content_len_def
      BYTES_PER_LENGTH_OFFSET_def)
  show "sum_list (map snd (block_types A)) = block_ssz_offset A"
    by (simp add: block_types_def ssz_type_def block_ssz_offset_def)
  show "block_ssz_offset A = 88"
    using L F by (simp add: block_ssz_offset_def)
  show "list_all2 matches (block_fields A b) (block_types A)"
    using L by (simp add: block_fields_def block_types_def item_matches)
qed

lemma block_container:
  assumes "block_laws A" and "fits A b"
  shows "length (block_as_ssz A b) = content_len A b"
    and "container_decode A (block_types A) (block_as_ssz A b) = Some (map snd (block_fields A b))"
proof -
  note len = block_lengths [OF assms(1)]
  have "sum_list (map part_len (block_fields A b)) < 2 ^ 32"
    using assms(2) by (simp only: len fits_def)
  with len(4) block_laws_items(15) [OF assms(1)]
  have "length (container_encode A (sum_list (map snd (block_types A))) (block_fields A b))
          = sum_list (map part_len (block_fields A b)) \<and>
        container_decode A (block_types A)
          (container_encode A (sum_list (map snd (block_types A))) (block_fields A b))
          = Some (map snd (block_fields A b))"
    unfolding container_laws_def by blast
  moreover have "block_as_ssz A b
      = container_encode A (sum_list (map snd (block_types A))) (block_fields A b)"
    by (simp only: len(2) block_as_ssz_def block_fields_def)
  ultimately show "length (block_as_ssz A b) = content_len A b"
    "container_decode A (block_types A) (block_as_ssz A b) = Some (map snd (block_fields A b))"
    by (simp_all only: len(1))
qed

lemma block_from_ssz_encoded:
  assumes "block_laws A" and "fits A b"
  shows "block_from_ssz A (block_as_ssz A b) = Some (rehash A b)"
proof -
  note L = block_laws_items [OF assms(1)]
  have short: "length (as_ssz (ssz_payload A) (b_payload b)) < 2 ^ 32"
    "length (as_ssz (ssz_requests A) (b_requests b)) < 2 ^ 32"
    using assms(2) by (simp_all add: fits_def content_len_def)
  have fixed: "length (as_ssz (ssz_b32 A) d) < 2 ^ 32" "length (as_ssz (ssz_u64 A) n) < 2 ^ 32"
    "length (as_ssz (ssz_u256 A) v) < 2 ^ 32" for d n v
    using L by (simp_all add: item_fixed_length)
  have dec: "container_decode A (block_types A) (block_as_ssz A b)
      = Some [as_ssz (ssz_b32 A) (b_parent b), as_ssz (ssz_u64 A) (b_height b),
          as_ssz (ssz_u64 A) (b_timestamp b), as_ssz (ssz_payload A) (b_payload b),
          as_ssz (ssz_requests A) (b_requests b), as_ssz (ssz_u256 A) (b_value b)]"
    using block_container(2) [OF assms] by (simp add: block_fields_def ssz_field_def)
  show ?thesis
    using dec unfolding block_from_ssz_def block_types_def [symmetric]
    by (simp add: item_decode [OF L(1) fixed(1)] item_decode [OF L(2) fixed(2)]
      item_decode [OF L(3) short(1)] item_decode [OF L(4) short(2)]
      item_decode [OF L(5) fixed(3)] rehash_def)
qed


section \<open>The block codec\<close>

lemma block_read_eq:
  assumes "buf_laws (buf A)"
  shows "block_read A bs =
     (if length bs < 4 then Panic BufferUnderflow
      else let n = unat (of_be (take 4 bs) :: u32); r = drop 4 bs in
        if length r < n then Panic BufferUnderflow
        else case block_from_ssz A (take n r) of
            None \<Rightarrow> Err (InvalidData ''Block'' ''Unable to decode bytes for block'')
          | Some b \<Rightarrow> Ok (b, drop n r))"
  using assms by (auto simp: block_read_def buf_simps Let_def split: option.splits)

lemma block_write_length:
  "block_laws A \<Longrightarrow> fits A b \<Longrightarrow> length (block_write A b) = 4 + content_len A b"
  by (simp add: block_write_def Let_def block_container)

lemma unat_prefix_len:
  assumes "n < 2 ^ 32"
  shows "unat (of_be (u32_bytes (word_of_nat n)) :: u32) = n"
  using assms by (simp add: unat_of_nat)

lemma block_read_written:
  assumes "block_laws A" and "fits A b"
  shows "block_read A (block_write A b @ rest) = Ok (rehash A b, rest)"
proof -
  let ?ssz = "block_as_ssz A b"
  have len: "length ?ssz < 2 ^ 32"
    using assms by (simp only: block_container fits_def)
  have w: "block_write A b @ rest = u32_bytes (word_of_nat (length ?ssz)) @ ?ssz @ rest"
    by (simp add: block_write_def Let_def)
  have n: "unat (of_be (take 4 (block_write A b @ rest)) :: u32) = length ?ssz"
    using unat_prefix_len [OF len] by (simp only: w take_append length_to_be) simp
  have d: "drop 4 (block_write A b @ rest) = ?ssz @ rest"
    by (simp only: w drop_append length_to_be) simp
  show ?thesis
    using block_laws_items(14) [OF assms(1)] block_from_ssz_encoded [OF assms]
    by (simp only: block_read_eq n d Let_def) (simp add: w)
qed

lemma block_read_truncated:
  assumes "block_laws A" and "fits A b" and "n < length (block_write A b)"
  shows "block_read A (take n (block_write A b)) = Panic BufferUnderflow"
proof -
  let ?ssz = "block_as_ssz A b" and ?w = "block_write A b"
  have len: "length ?ssz < 2 ^ 32" "length ?w = 4 + length ?ssz"
    using assms by (simp_all only: block_container fits_def block_write_length)
  show ?thesis
  proof (cases "n < 4")
    case True
    then show ?thesis
      using block_laws_items(14) [OF assms(1)] assms(3) by (simp add: block_read_eq)
  next
    case False
    have "take 4 (take n ?w) = u32_bytes (word_of_nat (length ?ssz))"
      using False by (simp add: block_write_def Let_def min_def)
    then have "unat (of_be (take 4 (take n ?w)) :: u32) = length ?ssz"
      using unat_prefix_len [OF len(1)] by simp
    moreover have "n - 4 < length ?ssz"
      using False assms(3) len(2) by simp
    ultimately show ?thesis
      using block_laws_items(14) [OF assms(1)] False len(2)
      by (simp add: block_read_eq Let_def)
  qed
qed

lemma block_encode_size_exact:
  assumes "block_laws A"
  shows "block_encode_size A b = 4 + content_len A b"
proof -
  note L = block_laws_items [OF assms]
  show ?thesis
    using L item_fixed_length [OF L(2) L(7)] item_fixed_length [OF L(5) L(10)]
    by (simp add: block_encode_size_def ssz_bytes_len_def content_len_def item_len
      BYTES_PER_LENGTH_OFFSET_def DIGEST_SIZE_def)
qed

interpretation block_codec: sized_codec
  "\<lambda>b. block_laws A \<and> fits A b \<and> authentic A b" "block_write A" "block_read A"
  "block_encode_size A" for A
proof unfold_locales
  fix b rest
  assume "block_laws A \<and> fits A b \<and> authentic A b"
  then show "block_read A (block_write A b @ rest) = Ok (b, rest)"
    by (simp add: block_read_written authentic_def)
next
  fix b
  assume "block_laws A \<and> fits A b \<and> authentic A b"
  then show "block_encode_size A b = length (block_write A b)"
    by (simp add: block_encode_size_exact block_write_length)
qed

section \<open>The certified pairs\<close>

definition notarized_ok :: "block_api \<Rightarrow> notarized \<Rightarrow> bool" where
  "notarized_ok A n \<longleftrightarrow> authentic A (n_block n) \<and> c_payload (n_proof n) = b_digest (n_block n)"

definition finalized_ok :: "block_api \<Rightarrow> finalized \<Rightarrow> bool" where
  "finalized_ok A f \<longleftrightarrow> authentic A (f_block f) \<and> c_payload (f_proof f) = b_digest (f_block f)"

lemma cert_rd_wr: "cert_laws A \<Longrightarrow> cert_read A (cert_write A c @ rest) = Ok (c, rest)"
  by (simp add: cert_laws_def sized_codec_def wire_codec_def)

lemma cert_size_exact: "cert_laws A \<Longrightarrow> cert_size A c = length (cert_write A c)"
  by (simp add: cert_laws_def sized_codec.size_exact)

interpretation notarized_codec: sized_codec
  "\<lambda>n. block_laws A \<and> cert_laws A \<and> fits A (n_block n) \<and> notarized_ok A n"
  "notarized_write A" "notarized_read A" "notarized_encode_size A" for A
proof unfold_locales
  fix n rest
  assume "block_laws A \<and> cert_laws A \<and> fits A (n_block n) \<and> notarized_ok A n"
  then show "notarized_read A (notarized_write A n @ rest) = Ok (n, rest)"
    by (simp add: notarized_read_def notarized_write_def notarized_ok_def cert_rd_wr block_codec.rd_wr)
next
  fix n
  assume "block_laws A \<and> cert_laws A \<and> fits A (n_block n) \<and> notarized_ok A n"
  then show "notarized_encode_size A n = length (notarized_write A n)"
    by (simp add: notarized_encode_size_def notarized_write_def notarized_ok_def cert_size_exact
      block_codec.size_exact)
qed

interpretation finalized_codec: sized_codec
  "\<lambda>f. block_laws A \<and> cert_laws A \<and> fits A (f_block f) \<and> finalized_ok A f"
  "finalized_write A" "finalized_read A" "finalized_encode_size A" for A
proof unfold_locales
  fix f rest
  assume "block_laws A \<and> cert_laws A \<and> fits A (f_block f) \<and> finalized_ok A f"
  then show "finalized_read A (finalized_write A f @ rest) = Ok (f, rest)"
    by (simp add: finalized_read_def finalized_write_def finalized_ok_def cert_rd_wr block_codec.rd_wr)
next
  fix f
  assume "block_laws A \<and> cert_laws A \<and> fits A (f_block f) \<and> finalized_ok A f"
  then show "finalized_encode_size A f = length (finalized_write A f)"
    by (simp add: finalized_encode_size_def finalized_write_def finalized_ok_def cert_size_exact
      block_codec.size_exact)
qed

section \<open>What a reader returns\<close>

lemma block_from_ssz_authentic: "block_from_ssz A bs = Some b \<Longrightarrow> authentic A b"
  by (auto simp: block_from_ssz_def bind_eq_Some_conv split: option.splits list.splits)

lemma block_read_authentic:
  assumes "block_read A bs = Ok (b, r)"
  shows "authentic A b"
  using assms block_from_ssz_authentic by (auto simp: block_read_def outcome_simps)

lemma notarized_read_ok: "notarized_read A bs = Ok (n, r) \<Longrightarrow> notarized_ok A n"
  using block_read_authentic
  by (auto simp: notarized_read_def notarized_ok_def outcome_simps split: if_splits)

lemma finalized_read_ok: "finalized_read A bs = Ok (f, r) \<Longrightarrow> finalized_ok A f"
  using block_read_authentic
  by (auto simp: finalized_read_def finalized_ok_def outcome_simps split: if_splits)

end
