(* ===== verification/Inline_Api.thy ===== *)
theory Inline_Api
  imports Block_Codec
begin

text \<open>
  A concrete \<open>block_api\<close> that satisfies the documented laws of the third-party encoders: containers
  keep a 4-byte length before each variable item, byte strings are length-prefixed, certificates
  have a fixed layout. It is not a model of the libraries; it shows that the hypotheses of the codec
  theorems can hold together, and their witnesses are evaluated on it.
\<close>

definition be_item :: "nat \<Rightarrow> 'w::len word ssz_item" where
  "be_item n = \<lparr>is_fixed = True, fixed_len = n, as_ssz = to_be n, ssz_len = (\<lambda>_. n),
     from_ssz = (\<lambda>bs. if length bs = n then Some (of_be bs) else None)\<rparr>"

lemma be_item_laws: "LENGTH('w::len) \<le> 8 * n \<Longrightarrow> item_laws (be_item n :: 'w word ssz_item)"
  by (simp add: item_laws_def be_item_def of_be_to_be)

section \<open>Length-prefixed strings\<close>

definition prefixed :: "bytes \<Rightarrow> bytes" where
  "prefixed bs = u32_bytes (word_of_nat (length bs)) @ bs"

definition unprefix :: "bytes \<Rightarrow> (bytes \<times> bytes) option" where
  "unprefix bs =
     (let n = unat (of_be (take 4 bs) :: u32) in
      if 4 \<le> length bs \<and> n \<le> length (drop 4 bs) then Some (take n (drop 4 bs), drop n (drop 4 bs))
      else None)"

lemma length_prefixed [simp]: "length (prefixed bs) = 4 + length bs"
  by (simp add: prefixed_def)

lemma unprefix_prefixed: "length bs < 2 ^ 32 \<Longrightarrow> unprefix (prefixed bs @ rest) = Some (bs, rest)"
  by (simp add: unprefix_def prefixed_def unat_of_nat)

lemma unprefix_shorter: "unprefix bs = Some (x, r) \<Longrightarrow> length r < length bs"
  by (auto simp: unprefix_def Let_def split: if_splits)

function unprefix_all :: "bytes \<Rightarrow> bytes list option" where
  "unprefix_all bs =
     (if bs = [] then Some []
      else case unprefix bs of None \<Rightarrow> None
           | Some (x, r) \<Rightarrow> map_option (Cons x) (unprefix_all r))"
  by pat_completeness auto
termination
  by (relation "measure length") (auto dest: unprefix_shorter)

declare unprefix_all.simps [simp del]

lemma unprefix_all_concat:
  "length (concat (map prefixed xs)) < 2 ^ 32 \<Longrightarrow> unprefix_all (concat (map prefixed xs)) = Some xs"
proof (induction xs)
  case Nil
  then show ?case by (simp add: unprefix_all.simps)
next
  case (Cons x xs)
  have "unprefix (prefixed x @ concat (map prefixed xs)) = Some (x, concat (map prefixed xs))"
    using Cons.prems by (intro unprefix_prefixed) simp
  moreover have "prefixed x @ concat (map prefixed xs) \<noteq> []"
    by (metis Nil_is_append_conv length_prefixed list.size(3) zero_neq_numeral add_is_0)
  ultimately show ?case
    using Cons by (subst unprefix_all.simps) simp
qed

definition requests_item :: "bytes list ssz_item" where
  "requests_item = \<lparr>is_fixed = False, fixed_len = 4, as_ssz = (\<lambda>xs. concat (map prefixed xs)),
     ssz_len = (\<lambda>xs. length (concat (map prefixed xs))), from_ssz = unprefix_all\<rparr>"

lemma requests_item_laws: "item_laws requests_item"
  by (simp add: item_laws_def requests_item_def BYTES_PER_LENGTH_OFFSET_def unprefix_all_concat
    del: length_concat)

section \<open>Payload\<close>

definition payload_bytes :: "execution_payload \<Rightarrow> bytes" where
  "payload_bytes p = digest_bytes (pl_block_hash p) @ digest_bytes (pl_parent_hash p) @
     prefixed (concat (map prefixed (pl_transactions p))) @ pl_rest p"

definition payload_of_bytes :: "bytes \<Rightarrow> execution_payload option" where
  "payload_of_bytes bs =
     (if length bs < 64 then None
      else Option.bind (unprefix (drop 64 bs)) (\<lambda>(txs, r).
           Option.bind (unprefix_all txs) (\<lambda>ts.
             Some \<lparr>pl_block_hash = of_be (take 32 bs), pl_parent_hash = of_be (take 32 (drop 32 bs)),
                   pl_transactions = ts, pl_rest = r\<rparr>)))"

definition payload_item :: "execution_payload ssz_item" where
  "payload_item = \<lparr>is_fixed = False, fixed_len = 4, as_ssz = payload_bytes,
     ssz_len = (\<lambda>p. length (payload_bytes p)), from_ssz = payload_of_bytes\<rparr>"

lemma payload_item_laws: "item_laws payload_item"
proof -
  have "payload_of_bytes (payload_bytes p) = Some p" if "length (payload_bytes p) < 2 ^ 32" for p
  proof -
    let ?txs = "concat (map prefixed (pl_transactions p))"
    have short: "length ?txs < 2 ^ 32"
      using that by (simp add: payload_bytes_def del: length_concat)
    have d: "drop 64 (payload_bytes p) = prefixed ?txs @ pl_rest p"
      by (simp add: payload_bytes_def)
    have len: "\<not> length (payload_bytes p) < 64"
      by (simp add: payload_bytes_def)
    have h: "take 32 (payload_bytes p) = digest_bytes (pl_block_hash p)"
      "take 32 (drop 32 (payload_bytes p)) = digest_bytes (pl_parent_hash p)"
      by (simp_all add: payload_bytes_def)
    show ?thesis
      unfolding payload_of_bytes_def d h
      using len unprefix_prefixed [OF short] unprefix_all_concat [OF short] by simp
  qed
  then show ?thesis
    by (simp add: item_laws_def payload_item_def BYTES_PER_LENGTH_OFFSET_def)
qed

section \<open>Containers\<close>

definition inline_encode :: "nat \<Rightarrow> (bool \<times> bytes) list \<Rightarrow> bytes" where
  "inline_encode n ps = concat (map (\<lambda>(f, bs). if f then bs else prefixed bs) ps)"

fun inline_decode :: "(bool \<times> nat) list \<Rightarrow> bytes \<Rightarrow> bytes list option" where
  "inline_decode [] bs = (if bs = [] then Some [] else None)"
| "inline_decode ((f, n) # ts) bs =
     (if f then (if n \<le> length bs then map_option (Cons (take n bs)) (inline_decode ts (drop n bs))
                 else None)
      else case unprefix bs of None \<Rightarrow> None
           | Some (x, r) \<Rightarrow> map_option (Cons x) (inline_decode ts r))"

lemma inline_encode_Cons [simp]:
  "inline_encode n ((f, bs) # ps) = (if f then bs else prefixed bs) @ inline_encode n ps"
  by (simp add: inline_encode_def)

lemma inline_roundtrip:
  assumes "list_all2 matches ps ts" and "sum_list (map part_len ps) < 2 ^ 32"
  shows "length (inline_encode n ps) = sum_list (map part_len ps) \<and>
         inline_decode ts (inline_encode n ps) = Some (map snd ps)"
  using assms
proof (induction ps ts rule: list_all2_induct)
  case Nil
  then show ?case by (simp add: inline_encode_def)
next
  case (Cons p ps t ts)
  obtain f bs where p: "p = (f, bs)" by (cases p)
  obtain g k where t: "t = (g, k)" by (cases t)
  have small: "length bs < 2 ^ 32" "sum_list (map part_len ps) < 2 ^ 32"
  proof -
    have "length bs \<le> part_len p" by (simp add: p part_len_def)
    then show "length bs < 2 ^ 32" "sum_list (map part_len ps) < 2 ^ 32"
      using Cons.prems by simp_all
  qed
  from Cons.hyps(1) have m: "f = g" "g \<Longrightarrow> length bs = k" by (auto simp: p t matches_def)
  show ?case
    using Cons.IH [OF small(2)] m unprefix_prefixed [OF small(1)]
    by (cases g) (simp_all add: p t part_len_def BYTES_PER_LENGTH_OFFSET_def)
qed

lemma inline_container_laws: "container_laws inline_encode inline_decode"
  unfolding container_laws_def using inline_roundtrip by blast

section \<open>Certificates\<close>

definition cert_bytes :: "cert \<Rightarrow> bytes" where
  "cert_bytes c = u64_bytes (c_view c) @ digest_bytes (c_payload c) @
     u64_bytes (c_parent_view c) @ to_be 192 (c_signatures c)"

definition cert_of_bytes :: "cert reader" where
  "cert_of_bytes bs =
     (if length bs < 240 then Err EndOfBuffer
      else Ok (\<lparr>c_view = of_be (take 8 bs), c_payload = of_be (take 32 (drop 8 bs)),
                c_parent_view = of_be (take 8 (drop 40 bs)),
                c_signatures = of_be (take 192 (drop 48 bs))\<rparr>, drop 240 bs))"

lemma cert_bytes_codec: "sized_codec (\<lambda>_ :: cert. True) cert_bytes cert_of_bytes (\<lambda>_. 240)"
proof unfold_locales
  fix c :: cert and rest
  have sig: "of_be (to_be 192 (c_signatures c)) = c_signatures c"
    by (rule of_be_to_be) simp
  show "cert_of_bytes (cert_bytes c @ rest) = Ok (c, rest)"
    by (simp add: cert_of_bytes_def cert_bytes_def sig)
qed (simp add: cert_bytes_def)

section \<open>The instance\<close>

definition empty_payload :: execution_payload where
  "empty_payload = \<lparr>pl_block_hash = 0, pl_parent_hash = 0, pl_transactions = [], pl_rest = []\<rparr>"

definition inline_api :: block_api where
  "inline_api =
     \<lparr>buf = slice_buf, sha256 = (\<lambda>bs. of_be (take 48 bs)), ssz_b32 = be_item 32, ssz_u64 = be_item 8,
      ssz_payload = payload_item, ssz_requests = requests_item, ssz_u256 = be_item 32,
      container_encode = inline_encode, container_decode = inline_decode,
      default_payload = empty_payload,
      cert_write = cert_bytes, cert_read = cert_of_bytes, cert_size = (\<lambda>_. 240)\<rparr>"

lemma inline_api_laws [simp]: "block_laws inline_api"
  by (simp add: block_laws_def inline_api_def be_item_laws payload_item_laws requests_item_laws
    inline_container_laws)
     (simp add: be_item_def payload_item_def requests_item_def)

lemma inline_cert_laws [simp]: "cert_laws inline_api"
  by (simp add: cert_laws_def inline_api_def cert_bytes_codec)

definition sample_payload :: execution_payload where
  "sample_payload = \<lparr>pl_block_hash = 11, pl_parent_hash = 7, pl_transactions = [[1, 2], [3]],
     pl_rest = [9]\<rparr>"

definition sample_block :: block where
  "sample_block = compute_digest inline_api 7 1 100 sample_payload [[5]] 0"

definition sample_cert :: cert where
  "sample_cert = \<lparr>c_view = 3, c_payload = b_digest sample_block, c_parent_view = 2, c_signatures = 0\<rparr>"

lemma sample_fits [simp]: "fits inline_api sample_block"
  by (simp add: fits_def content_len_def sample_block_def compute_digest_def inline_api_def
    payload_item_def requests_item_def payload_bytes_def sample_payload_def)

lemma sample_authentic [simp]: "authentic inline_api sample_block"
  by (simp add: sample_block_def)

text \<open>The stand-in for the hash ends in the block's timestamp, which tells sample blocks apart.\<close>

lemma digest_timestamp:
  "ucast (b_digest (compute_digest inline_api pa h t pl rq v)) = t"
proof -
  let ?xs = "digest_bytes pa @ u64_bytes h"
  have t: "be_nat (u64_bytes t) = unat t"
    by (rule be_nat_u64)
  have "take 48 (digest_preimage inline_api pa h t pl rq v) = ?xs @ u64_bytes t"
    by (simp add: digest_preimage_def)
  then have "b_digest (compute_digest inline_api pa h t pl rq v) = word_of_nat (be_nat (?xs @ u64_bytes t))"
    by (simp add: compute_digest_def inline_api_def digest_preimage_def of_be_def)
  also have "be_nat (?xs @ u64_bytes t) = be_nat ?xs * 2 ^ 64 + unat t"
    by (simp only: be_nat_append length_to_be t) simp
  finally have "unat (b_digest (compute_digest inline_api pa h t pl rq v)) mod 2 ^ 64
      = (be_nat ?xs * 2 ^ 64 + unat t) mod 2 ^ 64"
    by (simp only: unat_of_nat) (simp add: mod_mod_cancel)
  moreover have "unat t < 2 ^ 64" using unsigned_less [of t] by simp
  ultimately have "unat (b_digest (compute_digest inline_api pa h t pl rq v)) mod 2 ^ 64 = unat t"
    by (simp only: mod_mult_self3 mod_less)
  then show ?thesis
    by (simp add: word_unat_eq_iff unsigned_ucast_eq take_bit_eq_mod)
qed

end
