(* ===== verification/Block_Properties.thy ===== *)
theory Block_Properties
  imports Inline_Api
begin

text \<open>
  The properties of the block encodings, each with a witness on the concrete interface
  of \<open>Inline_Api\<close>.
\<close>

lemma sample_height [simp]: "b_height sample_block = 1"
  by (simp add: sample_block_def compute_digest_def)

text \<open>
  C32. A block that carries its own digest and whose encoding stays under \<open>2\<^sup>3\<^sup>2\<close> bytes is read back
  unchanged from what \<open>Write\<close> produced, whatever bytes follow, and \<open>encode_size\<close> announces exactly
  the bytes written.
\<close>

theorem block_wire_roundtrip:
  assumes "block_laws A" and "fits A b" and "authentic A b"
  shows "block_read A (block_write A b @ rest) = Ok (b, rest) \<and>
         block_encode_size A b = length (block_write A b)"
  using assms block_codec.rd_wr [of A b rest] block_codec.size_exact [of A b] by simp

theorem block_wire_roundtrip_witness:
  "block_read inline_api (block_write inline_api sample_block @ [1, 2]) = Ok (sample_block, [1, 2])"
  using block_wire_roundtrip [OF inline_api_laws sample_fits sample_authentic, of "[1, 2]"] by simp

text \<open>
  C33. The pairs a node persists and serves, a block with its notarization or finalization, are read
  back unchanged when the certificate names the block's digest.
\<close>

theorem certified_wire_roundtrip:
  assumes "block_laws A" and "cert_laws A" and "fits A b" and "authentic A b"
    and "c_payload c = b_digest b"
  shows "notarized_read A (notarized_write A \<lparr>n_proof = c, n_block = b\<rparr> @ rest)
           = Ok (\<lparr>n_proof = c, n_block = b\<rparr>, rest) \<and>
         finalized_read A (finalized_write A \<lparr>f_proof = c, f_block = b\<rparr> @ rest)
           = Ok (\<lparr>f_proof = c, f_block = b\<rparr>, rest)"
  using assms notarized_codec.rd_wr [of A "\<lparr>n_proof = c, n_block = b\<rparr>" rest]
    finalized_codec.rd_wr [of A "\<lparr>f_proof = c, f_block = b\<rparr>" rest]
  by (simp add: notarized_ok_def finalized_ok_def)

theorem certified_wire_roundtrip_witness:
  "notarized_read inline_api
     (notarized_write inline_api \<lparr>n_proof = sample_cert, n_block = sample_block\<rparr> @ [])
   = Ok (\<lparr>n_proof = sample_cert, n_block = sample_block\<rparr>, [])"
proof -
  have "c_payload sample_cert = b_digest sample_block" by (simp add: sample_cert_def)
  from certified_wire_roundtrip
    [OF inline_api_laws inline_cert_laws sample_fits sample_authentic this, of "[]"]
  show ?thesis by blast
qed

text \<open>
  Whatever bytes a peer sends, a block that is read carries the digest of its own contents, and
  a notarized or finalized block that is read carries a certificate for that digest: a peer cannot
  make a node accept contents under another block's digest.
\<close>

lemma read_is_authentic:
  "(block_read A bs = Ok (b, r) \<longrightarrow> authentic A b) \<and>
   (notarized_read A bs = Ok (n, r) \<longrightarrow> notarized_ok A n) \<and>
   (finalized_read A bs = Ok (f, r) \<longrightarrow> finalized_ok A f)"
  using block_read_authentic notarized_read_ok finalized_read_ok by blast

text \<open>
  A block encoding cut short anywhere makes \<open>Block::read_cfg\<close> panic, where the \<open>Read\<close> contract
  has an error for it: the buffer functions it calls panic on too few bytes.
\<close>

lemma content_len_pos: "4 \<le> content_len A b"
  by (simp add: content_len_def)

lemma truncated_block_panics:
  assumes "block_laws A" and "fits A b" and "n < length (block_write A b)"
  shows "block_read A (take n (block_write A b)) = Panic BufferUnderflow"
  by (rule block_read_truncated [OF assms])

text \<open>
  \<open>ssz_bytes_len\<close> counts one of the two offsets of the fixed part, so it is four bytes short of
  the SSZ encoding; the four bytes that \<open>encode_size\<close> adds too many make up for it.
\<close>

lemma ssz_bytes_len_short:
  assumes "block_laws A" and "fits A b"
  shows "length (block_as_ssz A b) = ssz_bytes_len A b + BYTES_PER_LENGTH_OFFSET"
  using block_encode_size_exact [OF assms(1), of b] block_container(1) [OF assms]
  by (simp add: block_encode_size_def BYTES_PER_LENGTH_OFFSET_def)

text \<open>
  The genesis block does not survive the wire: its digest is the execution layer's genesis hash,
  and reading recomputes the digest from the contents, so what comes back differs in the digest
  unless the genesis hash happens to be that hash.
\<close>

lemma genesis_wire:
  assumes "block_laws A" and "fits A (genesis A g)"
  shows "\<exists>b. block_read A (block_write A (genesis A g) @ rest) = Ok (b, rest) \<and>
             b_digest b = sha256 A (digest_preimage A g 0 0 (default_payload A) [] 0) \<and>
             (b = genesis A g \<longleftrightarrow> b_digest b = g)"
proof (intro exI conjI)
  let ?b = "rehash A (genesis A g)"
  show "block_read A (block_write A (genesis A g) @ rest) = Ok (?b, rest)"
    by (rule block_read_written [OF assms])
  show "b_digest ?b = sha256 A (digest_preimage A g 0 0 (default_payload A) [] 0)"
    by (simp add: rehash_def compute_digest_def genesis_def)
  show "?b = genesis A g \<longleftrightarrow> b_digest ?b = g"
    by (auto simp: rehash_def compute_digest_def genesis_def)
qed

section \<open>What the digest commits to\<close>

abbreviation block_preimage :: "block_api \<Rightarrow> block \<Rightarrow> bytes" where
  "block_preimage A b \<equiv> digest_preimage A (b_parent b) (b_height b) (b_timestamp b) (b_payload b)
     (b_requests b) (b_value b)"

lemma as_ssz_inj:
  assumes "item_laws it" and "length (as_ssz it x) < 2 ^ 32" and "as_ssz it x = as_ssz it y"
  shows "x = y"
  using item_decode [OF assms(1,2)] item_decode [OF assms(1), of y] assms(2,3) by simp

lemma preimage_eq_iff:
  assumes "block_laws A"
  shows "block_preimage A b = block_preimage A b' \<longleftrightarrow>
     b_parent b = b_parent b' \<and> b_height b = b_height b' \<and> b_timestamp b = b_timestamp b' \<and>
     as_ssz (ssz_payload A) (b_payload b) @ as_ssz (ssz_requests A) (b_requests b)
       = as_ssz (ssz_payload A) (b_payload b') @ as_ssz (ssz_requests A) (b_requests b') \<and>
     b_value b = b_value b'"
proof -
  note L = block_laws_items [OF assms]
  have len: "length (as_ssz (ssz_u256 A) v) = 32" for v
    using L by (simp add: item_fixed_length)
  have inj: "as_ssz (ssz_u256 A) v = as_ssz (ssz_u256 A) w \<longleftrightarrow> v = w" for v w
    using as_ssz_inj [OF L(5), of v w] len by auto
  have tail: "P @ R @ as_ssz (ssz_u256 A) v = P' @ R' @ as_ssz (ssz_u256 A) w
      \<longleftrightarrow> P @ R = P' @ R' \<and> v = w" for P R P' R' v w
  proof -
    have "(P @ R) @ as_ssz (ssz_u256 A) v = (P' @ R') @ as_ssz (ssz_u256 A) w
        \<longleftrightarrow> P @ R = P' @ R' \<and> as_ssz (ssz_u256 A) v = as_ssz (ssz_u256 A) w"
      by (rule append_eq_append_conv) (simp add: len)
    then show ?thesis by (simp only: append_assoc inj)
  qed
  show ?thesis
    by (simp add: digest_preimage_def append_eq_append_conv tail)
qed

text \<open>
  C39. Up to collisions of the hash function, two blocks have the same digest exactly when they agree
  in parent, height, timestamp and value and in the concatenation of the payload's and the
  requests' encodings: the boundary between the two is not part of what is hashed.
\<close>

theorem digest_commitment:
  assumes "block_laws A" and "authentic A b" and "authentic A b'"
    and no_collision: "sha256 A (block_preimage A b) = sha256 A (block_preimage A b') \<Longrightarrow>
      block_preimage A b = block_preimage A b'"
  shows "b_digest b = b_digest b' \<longleftrightarrow>
     b_parent b = b_parent b' \<and> b_height b = b_height b' \<and> b_timestamp b = b_timestamp b' \<and>
     as_ssz (ssz_payload A) (b_payload b) @ as_ssz (ssz_requests A) (b_requests b)
       = as_ssz (ssz_payload A) (b_payload b') @ as_ssz (ssz_requests A) (b_requests b') \<and>
     b_value b = b_value b'"
proof -
  have "b_digest b = b_digest b' \<longleftrightarrow> block_preimage A b = block_preimage A b'"
    using assms(2,3) no_collision by (auto simp: authentic_iff_digest)
  then show ?thesis by (simp only: preimage_eq_iff [OF assms(1)])
qed

text \<open>
  On the concrete interface: the bytes of a request can move into the payload without changing the
  digest.
\<close>

definition twin_a :: block where
  "twin_a = compute_digest inline_api 7 1 100 (sample_payload\<lparr>pl_rest := []\<rparr>) [[5]] 0"

definition twin_b :: block where
  "twin_b = compute_digest inline_api 7 1 100 (sample_payload\<lparr>pl_rest := prefixed [5]\<rparr>) [] 0"

theorem digest_commitment_witness:
  "authentic inline_api twin_a \<and> authentic inline_api twin_b \<and> twin_a \<noteq> twin_b \<and>
   b_digest twin_a = b_digest twin_b"
proof -
  have f: "b_parent twin_a = b_parent twin_b" "b_height twin_a = b_height twin_b"
    "b_timestamp twin_a = b_timestamp twin_b" "b_value twin_a = b_value twin_b"
    by (simp_all add: twin_a_def twin_b_def compute_digest_def)
  have cat: "as_ssz (ssz_payload inline_api) (b_payload twin_a)
        @ as_ssz (ssz_requests inline_api) (b_requests twin_a)
      = as_ssz (ssz_payload inline_api) (b_payload twin_b)
        @ as_ssz (ssz_requests inline_api) (b_requests twin_b)"
    by (simp add: twin_a_def twin_b_def compute_digest_def inline_api_def payload_item_def
      requests_item_def payload_bytes_def sample_payload_def)
  have auth: "authentic inline_api twin_a" "authentic inline_api twin_b"
    by (simp_all add: twin_a_def twin_b_def)
  have pre: "block_preimage inline_api twin_a = block_preimage inline_api twin_b"
    by (intro preimage_eq_iff [OF inline_api_laws, THEN iffD2] conjI f cat)
  have "b_digest twin_a = b_digest twin_b"
    by (intro digest_commitment [OF inline_api_laws auth pre, THEN iffD2] conjI f cat)
  moreover have "twin_a \<noteq> twin_b"
    by (simp add: twin_a_def twin_b_def compute_digest_def)
  ultimately show ?thesis using auth by simp
qed

end
