(* ===== verification/Committee.thy ===== *)
theory Committee
  imports Summit_Prelude
begin

text \<open>
  The committee of validators: the contract that consensus relies on when it asks a supervisor for
  the participants, for the index of one of them and for a leader, and the first of its two
  providers, the fixed committee of \<open>application/src/supervisor.rs\<close>. The second provider, the
  registry of \<open>syncer/src/registry.rs\<close>, is in \<open>Validator_Registry\<close>.
\<close>

section \<open>The contract\<close>

locale committee =
  fixes good :: "'s \<Rightarrow> bool"
    and members :: "'s \<Rightarrow> 'k list"
    and index_of :: "'s \<Rightarrow> 'k \<Rightarrow> u32 option"
  assumes members_distinct: "good s \<Longrightarrow> distinct (members s)"
    and members_short: "good s \<Longrightarrow> length (members s) < 2 ^ 32"
    and index_iff: "good s \<Longrightarrow>
      index_of s k = Some i \<longleftrightarrow> unat i < length (members s) \<and> members s ! unat i = k"
begin

lemma index_None_iff:
  assumes "good s"
  shows "index_of s k = None \<longleftrightarrow> k \<notin> set (members s)"
proof
  assume none: "index_of s k = None"
  show "k \<notin> set (members s)"
  proof
    assume "k \<in> set (members s)"
    then obtain n where n: "n < length (members s)" "members s ! n = k"
      by (auto simp: in_set_conv_nth)
    then have "unat (word_of_nat n :: u32) = n"
      using members_short [OF assms] by (simp add: unat_of_nat)
    with n have "index_of s k = Some (word_of_nat n)"
      by (simp add: index_iff [OF assms])
    with none show False by simp
  qed
next
  assume "k \<notin> set (members s)"
  then show "index_of s k = None"
    using index_iff [OF assms] by (metis nth_mem option.exhaust)
qed

lemma index_inj:
  assumes "good s" "index_of s k = Some i" "index_of s k' = Some i"
  shows "k = k'"
  using assms by (simp add: index_iff)

lemma every_index_used:
  assumes "good s" "n < length (members s)"
  shows "\<exists>k. index_of s k = Some (word_of_nat n)"
  using assms members_short [OF assms(1)] by (auto simp: index_iff unat_of_nat)

end

text \<open>A committee that also picks a leader from a seed.\<close>

locale electing_committee = committee +
  fixes elect :: "'s \<Rightarrow> bytes \<Rightarrow> ('e, 'k option) outcome"
  assumes elect_member: "good s \<Longrightarrow> members s \<noteq> [] \<Longrightarrow>
      \<exists>k \<in> set (members s). elect s seed = Ok (Some k)"
begin

lemma leader_has_index:
  assumes "good s" "members s \<noteq> []"
  shows "\<exists>k i. elect s seed = Ok (Some k) \<and> index_of s k = Some i"
  using elect_member [OF assms, of seed] index_None_iff [OF assms(1)] by (metis option.exhaust)

end

section \<open>Third-party functions\<close>

text \<open>
  The threshold polynomial (\<open>poly::public\<close>, \<open>evaluate_all\<close>) and \<open>commonware_utils::modulo\<close>, which
  reads bytes as a big-endian number and reduces it; it panics (here \<open>None\<close>) on modulus zero.
\<close>

record ('po, 'i) poly_api =
  poly_public :: "'po \<Rightarrow> 'i"
  evaluate_all :: "'po \<Rightarrow> u32 \<Rightarrow> 'i list"

type_synonym modulo_fn = "bytes \<Rightarrow> u64 \<Rightarrow> u64 option"

definition modulo_laws :: "modulo_fn \<Rightarrow> bool" where
  "modulo_laws md \<longleftrightarrow>
     (\<forall>bs. md bs 0 = None) \<and> (\<forall>bs n. n \<noteq> 0 \<longrightarrow> (\<exists>r. md bs n = Some r \<and> r < n))"

definition be_modulo :: modulo_fn where
  "be_modulo bs n = (if n = 0 then None else Some (word_of_nat (be_nat bs mod unat n)))"

lemma be_modulo_laws [simp]: "modulo_laws be_modulo"
proof -
  have "(word_of_nat (be_nat bs mod unat n) :: u64) < n" if "n \<noteq> 0" for bs n
  proof -
    have "0 < unat n" using that by (simp add: unat_gt_0)
    then have lt: "be_nat bs mod unat n < unat n" by simp
    moreover have "unat n < 2 ^ 64" using unsigned_less [of n] by simp
    ultimately have "be_nat bs mod unat n < 2 ^ 64" by simp
    with lt show ?thesis by (simp add: word_less_nat_alt unat_of_nat)
  qed
  then show ?thesis by (auto simp: modulo_laws_def be_modulo_def)
qed

definition modulo_index :: "modulo_fn \<Rightarrow> bytes \<Rightarrow> u64 \<Rightarrow> ('e, u64) outcome" where
  "modulo_index md seed n = (case md seed n of None \<Rightarrow> Panic DivideByZero | Some r \<Rightarrow> Ok r)"

text \<open>Indexing a vector.\<close>

definition at_index :: "'a list \<Rightarrow> u64 \<Rightarrow> ('e, 'a) outcome" where
  "at_index xs i = (if unat i < length xs then Ok (xs ! unat i) else Panic IndexOutOfRange)"

section \<open>From a list of keys to indices\<close>

text \<open>
  Both providers fill a hash map while enumerating the keys; a key that occurs twice keeps the
  later index, and the index is cast to 32 bits.
\<close>

definition index_map :: "'k list \<Rightarrow> 'k \<rightharpoonup> u32" where
  "index_map ks = fold (\<lambda>(i, k) m. m(k \<mapsto> word_of_nat i)) (enumerate 0 ks) Map.empty"

lemma index_map_snoc: "index_map (ks @ [k]) = (index_map ks)(k \<mapsto> word_of_nat (length ks))"
  by (simp add: index_map_def enumerate_append_eq)

lemma dom_index_map: "dom (index_map ks) = set ks"
proof (induction ks rule: rev_induct)
  case (snoc k ks)
  have "dom (index_map (ks @ [k])) = insert k (dom (index_map ks))"
    unfolding index_map_snoc by (subst dom_fun_upd) simp
  with snoc show ?case by simp
qed (simp add: index_map_def)

definition indexes :: "'k list \<Rightarrow> ('k \<rightharpoonup> u32) \<Rightarrow> bool" where
  "indexes ks m \<longleftrightarrow> distinct ks \<and> length ks < 2 ^ 32 \<and>
     (\<forall>k i. m k = Some i \<longleftrightarrow> unat i < length ks \<and> ks ! unat i = k)"

lemma indexesD:
  assumes "indexes ks m"
  shows "distinct ks" "length ks < 2 ^ 32" "m k = Some i \<longleftrightarrow> unat i < length ks \<and> ks ! unat i = k"
  using assms by (auto simp: indexes_def)

lemma u32_of_nat: "n < 2 ^ 32 \<Longrightarrow> unat (word_of_nat n :: u32) = n"
  by (simp add: unat_of_nat)

lemma indexes_dom:
  assumes "indexes ks m"
  shows "dom m = set ks"
proof (intro equalityI subsetI)
  fix k assume "k \<in> dom m"
  then show "k \<in> set ks" using indexesD [OF assms] by (auto simp: in_set_conv_nth)
next
  fix k assume "k \<in> set ks"
  then obtain n where n: "n < length ks" "ks ! n = k" by (auto simp: in_set_conv_nth)
  then have "m k = Some (word_of_nat n)"
    using indexesD [OF assms] u32_of_nat [of n] by simp
  then show "k \<in> dom m" by auto
qed

lemma indexes_append:
  assumes "indexes ks m" and "k \<notin> set ks" and "length ks + 1 < 2 ^ 32"
  shows "indexes (ks @ [k]) (m(k \<mapsto> word_of_nat (length ks)))"
proof -
  have len: "unat (word_of_nat (length ks) :: u32) = length ks"
    using assms(3) by (simp add: unat_of_nat)
  have "(m(k \<mapsto> word_of_nat (length ks))) x = Some i \<longleftrightarrow>
      unat i < length (ks @ [k]) \<and> (ks @ [k]) ! unat i = x" for x i
  proof (cases "x = k")
    case True
    have "unat i < length ks \<Longrightarrow> ks ! unat i \<noteq> k" using assms(2) by auto
    then show ?thesis using True len by (auto simp: nth_append word_unat_eq_iff less_Suc_eq)
  next
    case False
    then show ?thesis using indexesD(3) [OF assms(1)] by (auto simp: nth_append less_Suc_eq)
  qed
  then show ?thesis
    using indexesD [OF assms(1)] assms(2,3) by (simp add: indexes_def)
qed

lemma indexes_Nil: "indexes [] Map.empty"
  by (simp add: indexes_def)

lemma indexes_index_map: "distinct ks \<Longrightarrow> length ks < 2 ^ 32 \<Longrightarrow> indexes ks (index_map ks)"
proof (induction ks rule: rev_induct)
  case Nil
  then show ?case by (simp add: index_map_def indexes_Nil)
next
  case (snoc k ks)
  then have "indexes ks (index_map ks)" "k \<notin> set ks" "length ks + 1 < 2 ^ 32" by simp_all
  then show ?case unfolding index_map_snoc by (rule indexes_append)
qed

section \<open>The fixed committee\<close>

record ('k, 'i, 'sh) supervisor =
  sv_identity :: 'i
  sv_polynomial :: "'i list"
  sv_participants :: "'k list"
  sv_participants_map :: "'k \<rightharpoonup> u32"
  sv_share :: 'sh

definition supervisor_new ::
  "('po, 'i) poly_api \<Rightarrow> 'k list \<Rightarrow> 'po \<Rightarrow> 'sh \<Rightarrow> ('k, 'i, 'sh) supervisor" where
  "supervisor_new P ks poly share =
     \<lparr>sv_identity = poly_public P poly,
      sv_polynomial = evaluate_all P poly (word_of_nat (length ks)),
      sv_participants = ks,
      sv_participants_map = index_map ks,
      sv_share = share\<rparr>"

definition supervisor_plain_leader :: "('k, 'i, 'sh) supervisor \<Rightarrow> u64 \<Rightarrow> ('e, 'k option) outcome" where
  "supervisor_plain_leader s view = Panic (ExpectFailed ''not implemented: only defined in supertrait'')"

definition supervisor_participants :: "('k, 'i, 'sh) supervisor \<Rightarrow> u64 \<Rightarrow> 'k list option" where
  "supervisor_participants s view = Some (sv_participants s)"

definition supervisor_is_participant :: "('k, 'i, 'sh) supervisor \<Rightarrow> u64 \<Rightarrow> 'k \<Rightarrow> u32 option" where
  "supervisor_is_participant s view k = sv_participants_map s k"

definition supervisor_leader ::
  "modulo_fn \<Rightarrow> ('k, 'i, 'sh) supervisor \<Rightarrow> u64 \<Rightarrow> bytes \<Rightarrow> ('e, 'k option) outcome" where
  "supervisor_leader md s view seed =
     and_then (modulo_index md seed (usize_of_len (sv_participants s))) (\<lambda>i.
     and_then (at_index (sv_participants s) i) (\<lambda>k. Ok (Some k)))"

text \<open>The remaining accessors return fields.\<close>

definition supervisor_identity :: "('k, 'i, 'sh) supervisor \<Rightarrow> 'i" where
  "supervisor_identity s = sv_identity s"

definition supervisor_polynomial :: "('k, 'i, 'sh) supervisor \<Rightarrow> u64 \<Rightarrow> 'i list option" where
  "supervisor_polynomial s view = Some (sv_polynomial s)"

definition supervisor_share :: "('k, 'i, 'sh) supervisor \<Rightarrow> u64 \<Rightarrow> 'sh option" where
  "supervisor_share s view = Some (sv_share s)"

definition supervisor_good :: "('k, 'i, 'sh) supervisor \<Rightarrow> bool" where
  "supervisor_good s \<longleftrightarrow> indexes (sv_participants s) (sv_participants_map s)"

lemma supervisor_new_good:
  "distinct ks \<Longrightarrow> length ks < 2 ^ 32 \<Longrightarrow> supervisor_good (supervisor_new P ks poly share)"
  by (simp add: supervisor_good_def supervisor_new_def indexes_index_map)

lemma leader_index_in_range:
  assumes "modulo_laws md" and "xs \<noteq> []" and "length xs < 2 ^ 64"
  shows "\<exists>i. md seed (usize_of_len xs) = Some i \<and> unat i < length xs"
proof -
  have len: "unat (usize_of_len xs) = length xs"
    using assms(3) by (simp add: unat_of_nat)
  then have "usize_of_len xs \<noteq> 0"
    using assms(2) by (metis length_0_conv unsigned_0)
  then obtain i where "md seed (usize_of_len xs) = Some i" "i < usize_of_len xs"
    using assms(1) unfolding modulo_laws_def by blast
  with len show ?thesis by (metis word_less_nat_alt)
qed

interpretation fixed_committee: electing_committee
  "\<lambda>s. supervisor_good s \<and> modulo_laws md" sv_participants "\<lambda>s. supervisor_is_participant s view"
  "\<lambda>s. supervisor_leader md s view" for md view
proof unfold_locales
  fix s :: "('k, 'i, 'sh) supervisor" and seed
  assume good: "supervisor_good s \<and> modulo_laws md" and ne: "sv_participants s \<noteq> []"
  then have "length (sv_participants s) < 2 ^ 64"
    by (auto simp: supervisor_good_def indexes_def)
  with good ne leader_index_in_range obtain i where
    "md seed (usize_of_len (sv_participants s)) = Some i" "unat i < length (sv_participants s)"
    by blast
  then show "\<exists>k \<in> set (sv_participants s). supervisor_leader md s view seed = Ok (Some k)"
    by (auto simp: supervisor_leader_def modulo_index_def at_index_def)
qed (simp_all add: supervisor_good_def supervisor_is_participant_def indexes_def)

end
