(* ===== verification/Validator_Registry.thy ===== *)
theory Validator_Registry
  imports Committee
begin

text \<open>
  \<open>syncer/src/registry.rs\<close>: the registry of validator sets, one per view number, each derived from
  the latest by adding or removing one key. Its \<open>peers\<close> and \<open>participants\<close> hand out references
  into the stored sets; the comments there justify the \<open>unsafe\<close> by an append-only discipline, which
  is proved here as an invariant of the registry.
\<close>

section \<open>State\<close>

record 'k participants =
  p_list :: "'k list"
  p_map :: "'k \<rightharpoonup> u32"

record ('k, 'i, 'sh) registry =
  r_views :: "u64 \<rightharpoonup> 'k participants"
  r_latest_view :: u64
  r_identity :: 'i
  r_polynomial :: "'i list"
  r_share :: 'sh

datatype 'k registry_error = KeyAlreadyExists 'k | KeyDoesNotExist 'k

definition no_participants :: "'k participants" where
  "no_participants = \<lparr>p_list = [], p_map = Map.empty\<rparr>"

section \<open>Operations\<close>

definition registry_new ::
  "('po, 'i) poly_api \<Rightarrow> 'k list \<Rightarrow> 'po \<Rightarrow> 'sh \<Rightarrow> ('k, 'i, 'sh) registry" where
  "registry_new P ks poly share =
     \<lparr>r_views = [1 \<mapsto> \<lparr>p_list = ks, p_map = index_map ks\<rparr>],
      r_latest_view = 1,
      r_identity = poly_public P poly,
      r_polynomial = evaluate_all P poly (word_of_nat (length ks)),
      r_share = share\<rparr>"

text \<open>The set both updates start from: a clone of the latest one, or the default.\<close>

definition current_set :: "('k, 'i, 'sh) registry \<Rightarrow> 'k participants" where
  "current_set r = (case r_views r (r_latest_view r) of None \<Rightarrow> no_participants | Some p \<Rightarrow> p)"

text \<open>Both updates end by storing the set under the next view number.\<close>

definition store_next ::
  "profile \<Rightarrow> 'k participants \<Rightarrow> ('k, 'i, 'sh) registry
    \<Rightarrow> ('k registry_error, ('k, 'i, 'sh) registry) outcome" where
  "store_next pr p r =
     and_then (add_ovf pr (r_latest_view r) 1) (\<lambda>next.
       Ok (r\<lparr>r_latest_view := next, r_views := (r_views r)(next \<mapsto> p)\<rparr>))"

definition add_participant ::
  "profile \<Rightarrow> 'k \<Rightarrow> ('k, 'i, 'sh) registry \<Rightarrow> ('k registry_error, ('k, 'i, 'sh) registry) outcome" where
  "add_participant pr k r =
     (let p = current_set r in
      if p_map p k \<noteq> None then Err (KeyAlreadyExists k)
      else let ks = p_list p @ [k] in
        and_then (sub_ovf pr (word_of_nat (length ks)) 1) (\<lambda>i.
          store_next pr \<lparr>p_list = ks, p_map = (p_map p)(k \<mapsto> i)\<rparr> r))"

definition remove_participant ::
  "profile \<Rightarrow> 'k \<Rightarrow> ('k, 'i, 'sh) registry \<Rightarrow> ('k registry_error, ('k, 'i, 'sh) registry) outcome" where
  "remove_participant pr k r =
     (let p = current_set r in
      case p_map p k of
        None \<Rightarrow> Err (KeyDoesNotExist k)
      | Some i \<Rightarrow>
          and_then (swap_remove (p_list p) (unat i)) (\<lambda>ks.
            let m = (p_map p)(k := None);
                m' = (if unat i < length ks then m(ks ! unat i \<mapsto> i) else m)
            in store_next pr \<lparr>p_list = ks, p_map = m'\<rparr> r))"

definition registry_peers :: "('k, 'i, 'sh) registry \<Rightarrow> 'k list" where
  "registry_peers r = (case r_views r (r_latest_view r) of Some p \<Rightarrow> p_list p | None \<Rightarrow> [])"

definition registry_peer_set_id :: "('k, 'i, 'sh) registry \<Rightarrow> u64" where
  "registry_peer_set_id r = r_latest_view r"

text \<open>\<open>Supervisor::leader\<close> by view number, modulo the size of the latest set.\<close>

definition registry_plain_leader :: "('k, 'i, 'sh) registry \<Rightarrow> u64 \<Rightarrow> 'k option" where
  "registry_plain_leader r index =
     (case r_views r (r_latest_view r) of
        None \<Rightarrow> None
      | Some p \<Rightarrow>
          if p_list p = [] then None
          else Some (p_list p ! unat (index mod usize_of_len (p_list p))))"

definition registry_participants :: "('k, 'i, 'sh) registry \<Rightarrow> u64 \<Rightarrow> 'k list option" where
  "registry_participants r index = map_option p_list (r_views r (r_latest_view r))"

definition registry_is_participant :: "('k, 'i, 'sh) registry \<Rightarrow> u64 \<Rightarrow> 'k \<Rightarrow> u32 option" where
  "registry_is_participant r index k =
     (case r_views r (r_latest_view r) of None \<Rightarrow> None | Some p \<Rightarrow> p_map p k)"

definition registry_leader ::
  "modulo_fn \<Rightarrow> ('k, 'i, 'sh) registry \<Rightarrow> u64 \<Rightarrow> bytes \<Rightarrow> ('e, 'k option) outcome" where
  "registry_leader md r index seed =
     (case r_views r (r_latest_view r) of
        None \<Rightarrow> Ok None
      | Some p \<Rightarrow>
          if p_list p = [] then Ok None
          else and_then (modulo_index md seed (usize_of_len (p_list p))) (\<lambda>i.
               and_then (at_index (p_list p) i) (\<lambda>k. Ok (Some k))))"

definition registry_identity :: "('k, 'i, 'sh) registry \<Rightarrow> 'i" where
  "registry_identity r = r_identity r"

definition registry_polynomial :: "('k, 'i, 'sh) registry \<Rightarrow> u64 \<Rightarrow> 'i list option" where
  "registry_polynomial r index = Some (r_polynomial r)"

definition registry_share :: "('k, 'i, 'sh) registry \<Rightarrow> u64 \<Rightarrow> 'sh option" where
  "registry_share r index = Some (r_share r)"

section \<open>The invariant\<close>

text \<open>
  The views in use are 1 up to the latest, and every stored set indexes its keys correctly.
\<close>

definition registry_inv :: "('k, 'i, 'sh) registry \<Rightarrow> bool" where
  "registry_inv r \<longleftrightarrow> 1 \<le> r_latest_view r \<and>
     dom (r_views r) = {v. 1 \<le> v \<and> v \<le> r_latest_view r} \<and>
     (\<forall>p \<in> ran (r_views r). indexes (p_list p) (p_map p))"

lemma registry_inv_new:
  "distinct ks \<Longrightarrow> length ks < 2 ^ 32 \<Longrightarrow> registry_inv (registry_new P ks poly share)"
  by (auto simp: registry_inv_def registry_new_def indexes_index_map)

lemma registry_inv_current:
  assumes "registry_inv r"
  shows "r_views r (r_latest_view r) = Some (current_set r)"
    and "indexes (p_list (current_set r)) (p_map (current_set r))"
proof -
  have "r_latest_view r \<in> dom (r_views r)"
    using assms by (simp add: registry_inv_def)
  then obtain p where p: "r_views r (r_latest_view r) = Some p" by auto
  then show "r_views r (r_latest_view r) = Some (current_set r)"
    by (simp add: current_set_def)
  with assms show "indexes (p_list (current_set r)) (p_map (current_set r))"
    by (auto simp: registry_inv_def ran_def)
qed

lemma registry_peers_current: "registry_inv r \<Longrightarrow> registry_peers r = p_list (current_set r)"
  by (simp add: registry_peers_def registry_inv_current)

lemma next_view_fresh:
  assumes "registry_inv r" and "unat (r_latest_view r) < 2 ^ 64 - 1"
  shows "r_latest_view r + 1 \<notin> dom (r_views r)"
    and "unat (r_latest_view r + 1) = Suc (unat (r_latest_view r))"
    and "add_ovf pr (r_latest_view r) 1 = Ok (r_latest_view r + 1)"
proof -
  show u: "unat (r_latest_view r + 1) = Suc (unat (r_latest_view r))"
    using assms(2) by (rule unat_Suc_u64)
  then show "r_latest_view r + 1 \<notin> dom (r_views r)"
    using assms(1) by (auto simp: registry_inv_def word_le_nat_alt)
  show "add_ovf pr (r_latest_view r) 1 = Ok (r_latest_view r + 1)"
    using assms(2) by (intro add_ovf_small) simp
qed

lemma registry_inv_store:
  assumes "registry_inv r" and "unat (r_latest_view r) < 2 ^ 64 - 1"
    and "indexes (p_list p) (p_map p)"
  shows "registry_inv (r\<lparr>r_latest_view := r_latest_view r + 1,
           r_views := (r_views r)(r_latest_view r + 1 \<mapsto> p)\<rparr>)"
proof -
  note fresh = next_view_fresh [OF assms(1,2)]
  have "v \<le> r_latest_view r + 1 \<longleftrightarrow> v = r_latest_view r + 1 \<or> v \<le> r_latest_view r" for v
    using fresh(2) by (auto simp: word_le_nat_alt word_unat_eq_iff)
  moreover have "1 \<le> r_latest_view r + 1"
    using fresh(2) by (simp add: word_le_nat_alt)
  moreover have "ran ((r_views r)(r_latest_view r + 1 \<mapsto> p)) = insert p (ran (r_views r))"
    using fresh(1) by (intro ran_map_upd) auto
  ultimately show ?thesis
    using assms(1,3) by (auto simp: registry_inv_def)
qed

section \<open>The updates on sets\<close>

text \<open>\<open>swap_remove\<close> on the keys, mirrored on the index map.\<close>

lemma swap_remove_props:
  assumes "distinct xs" and "i < length xs"
  defines "ys \<equiv> butlast (xs[i := last xs])"
  shows "length ys = length xs - 1" and "distinct ys" and "set ys = set xs - {xs ! i}"
    and "\<And>j. j < length ys \<Longrightarrow> ys ! j = (if j = i then last xs else xs ! j)"
proof -
  obtain zs z where xs: "xs = zs @ [z]" using assms(2) by (cases xs rule: rev_cases) auto
  have ys: "ys = (if i = length zs then zs else zs[i := z])"
    using assms(2) by (auto simp: ys_def xs list_update_append butlast_append)
  have dz: "distinct zs" "z \<notin> set zs" using assms(1) xs by auto
  show "length ys = length xs - 1" by (simp add: ys xs)
  show "distinct ys" using dz by (auto simp: ys intro: distinct_list_update)
  show "ys ! j = (if j = i then last xs else xs ! j)" if "j < length ys" for j
    using that assms(2) by (auto simp: ys xs nth_append nth_list_update split: if_splits)
  show "set ys = set xs - {xs ! i}"
  proof (cases "i = length zs")
    case True
    then show ?thesis using dz by (auto simp: ys xs)
  next
    case False
    then have "i < length zs" using assms(2) xs by simp
    then show ?thesis using False dz by (simp add: ys xs nth_append set_update_distinct) auto
  qed
qed

lemma indexes_remove:
  assumes ix: "indexes ks m" and i: "m k = Some i"
  defines "ys \<equiv> butlast (ks[unat i := last ks])"
  defines "m1 \<equiv> m(k := None)"
  shows "indexes ys (if unat i < length ys then m1(ys ! unat i \<mapsto> i) else m1)"
proof -
  have lt: "unat i < length ks" and k: "ks ! unat i = k"
    using indexesD(3) [OF ix] i by auto
  have ne: "ks \<noteq> []" using lt by auto
  note sr = swap_remove_props [OF indexesD(1) [OF ix] lt, folded ys_def]
  have last: "last ks = ks ! (length ks - 1)" using ne by (rule last_conv_nth)
  have eqs: "ks ! a = ks ! b \<longleftrightarrow> a = b" if "a < length ks" "b < length ks" for a b
    using that indexesD(1) [OF ix] by (simp add: nth_eq_iff_index_eq)
  have "(if unat i < length ys then m1(ys ! unat i \<mapsto> i) else m1) x = Some j \<longleftrightarrow>
      unat j < length ys \<and> ys ! unat j = x" for x j
  proof (cases "unat i < length ys")
    case True
    then have li: "length ks - 1 \<noteq> unat i" "length ks - 1 < length ks" using sr(1) by auto
    have yi: "ys ! unat i = last ks" using True sr(4) by simp
    have "last ks \<noteq> k" using li lt eqs k last by metis
    then show ?thesis
      using True yi sr(1) sr(4) [of "unat j"] indexesD(3) [OF ix, of x j] lt k last li(2)
        eqs [of "unat j" "unat i"] eqs [of "unat j" "length ks - 1"]
      by (auto simp: m1_def word_unat_eq_iff less_diff_conv split: if_splits)
  next
    case False
    then have "unat i = length ks - 1" using sr(1) lt by simp
    then show ?thesis
      using False sr(1) sr(4) [of "unat j"] indexesD(3) [OF ix, of x j] k
        eqs [of "unat j" "unat i"] lt
      by (auto simp: m1_def split: if_splits)
  qed
  then show ?thesis
    using sr(1,2) indexesD(2) [OF ix] by (simp add: indexes_def)
qed


section \<open>The updates on registries\<close>

definition extends_by :: "('k, 'i, 'sh) registry \<Rightarrow> ('k, 'i, 'sh) registry \<Rightarrow> 'k participants \<Rightarrow> bool" where
  "extends_by r r' p \<longleftrightarrow>
     r' = r\<lparr>r_latest_view := r_latest_view r + 1, r_views := (r_views r)(r_latest_view r + 1 \<mapsto> p)\<rparr>"

lemma store_next_small:
  assumes "registry_inv r" and "unat (r_latest_view r) < 2 ^ 64 - 1"
    and "indexes (p_list p) (p_map p)"
  shows "\<exists>r'. store_next pr p r = Ok r' \<and> extends_by r r' p \<and> registry_inv r'"
  using registry_inv_store [OF assms]
  by (simp add: store_next_def extends_by_def next_view_fresh(3) [OF assms(1,2)])

lemma extends_by_views:
  assumes "extends_by r r' p" and "registry_inv r" and "unat (r_latest_view r) < 2 ^ 64 - 1"
  shows "r_latest_view r' = r_latest_view r + 1"
    and "r_views r \<subseteq>\<^sub>m r_views r'"
    and "registry_peers r' = p_list p"
  using assms next_view_fresh(1) [OF assms(2,3)]
  by (auto simp: extends_by_def registry_peers_def map_le_def)

lemma current_map_dom:
  "registry_inv r \<Longrightarrow> p_map (current_set r) k = None \<longleftrightarrow> k \<notin> set (registry_peers r)"
  using indexes_dom [OF registry_inv_current(2)] by (auto simp: registry_peers_current)

lemma add_participant_small:
  assumes inv: "registry_inv r" and room: "unat (r_latest_view r) < 2 ^ 64 - 1"
    and new: "k \<notin> set (registry_peers r)" and short: "length (registry_peers r) + 1 < 2 ^ 32"
  shows "\<exists>r' p. add_participant pr k r = Ok r' \<and> extends_by r r' p \<and> registry_inv r' \<and>
           p_list p = registry_peers r @ [k]"
proof -
  let ?p = "current_set r"
  have peers: "registry_peers r = p_list ?p" using inv by (rule registry_peers_current)
  have len: "unat (word_of_nat (Suc (length (p_list ?p))) :: u32) = Suc (length (p_list ?p))"
    using short peers by (intro u32_of_nat) simp
  have sub: "sub_ovf pr (word_of_nat (length (p_list ?p @ [k]))) 1
      = (Ok (word_of_nat (length (p_list ?p))) :: ('k registry_error, u32) outcome)"
    using len by (simp add: sub_ovf_def word_le_nat_alt)
  have ix: "indexes (p_list ?p @ [k]) ((p_map ?p)(k \<mapsto> word_of_nat (length (p_list ?p))))"
    using new short peers by (intro indexes_append registry_inv_current(2) inv) simp_all
  from store_next_small [OF inv room, of
      "\<lparr>p_list = p_list ?p @ [k], p_map = (p_map ?p)(k \<mapsto> word_of_nat (length (p_list ?p)))\<rparr>" pr] ix
  obtain r' where "store_next pr \<lparr>p_list = p_list ?p @ [k],
      p_map = (p_map ?p)(k \<mapsto> word_of_nat (length (p_list ?p)))\<rparr> r = Ok r'"
    "extends_by r r' \<lparr>p_list = p_list ?p @ [k],
      p_map = (p_map ?p)(k \<mapsto> word_of_nat (length (p_list ?p)))\<rparr>" "registry_inv r'"
    by auto
  then show ?thesis
    using new inv unfolding add_participant_def Let_def sub
    by (auto simp: current_map_dom peers)
qed

lemma remove_participant_small:
  assumes inv: "registry_inv r" and room: "unat (r_latest_view r) < 2 ^ 64 - 1"
    and mem: "k \<in> set (registry_peers r)"
  shows "\<exists>r' p. remove_participant pr k r = Ok r' \<and> extends_by r r' p \<and> registry_inv r' \<and>
           length (p_list p) = length (registry_peers r) - 1 \<and>
           set (p_list p) = set (registry_peers r) - {k}"
proof -
  let ?p = "current_set r"
  have peers: "registry_peers r = p_list ?p" using inv by (rule registry_peers_current)
  note ix = registry_inv_current(2) [OF inv]
  from mem inv obtain i where i: "p_map ?p k = Some i"
    using current_map_dom by (metis not_None_eq)
  then have lt: "unat i < length (p_list ?p)" and k: "p_list ?p ! unat i = k"
    using indexesD(3) [OF ix] by auto
  let ?ys = "butlast ((p_list ?p)[unat i := last (p_list ?p)])"
  let ?m = "(p_map ?p)(k := None)"
  let ?q = "\<lparr>p_list = ?ys, p_map = (if unat i < length ?ys then ?m(?ys ! unat i \<mapsto> i) else ?m)\<rparr>"
  have "indexes (p_list ?q) (p_map ?q)"
    using indexes_remove [OF ix i] by simp
  from store_next_small [OF inv room this, of pr] obtain r' where
    r': "store_next pr ?q r = Ok r'" "extends_by r r' ?q" "registry_inv r'" by blast
  have "remove_participant pr k r = Ok r'"
    using r'(1) i lt by (simp add: remove_participant_def Let_def swap_remove_def)
  with r' swap_remove_props [OF indexesD(1) [OF ix] lt] show ?thesis
    by (intro exI [of _ r'] exI [of _ ?q]) (simp add: peers k)
qed

text \<open>Everything a supervisor reads of the registry.\<close>

interpretation registry_committee: electing_committee
  "\<lambda>r. registry_inv r \<and> modulo_laws md" registry_peers "\<lambda>r. registry_is_participant r view"
  "\<lambda>r. registry_leader md r view" for md view
proof unfold_locales
  fix r :: "('k, 'i, 'sh) registry"
  assume good: "registry_inv r \<and> modulo_laws md"
  then have ix: "indexes (registry_peers r) (p_map (current_set r))"
    by (simp add: registry_peers_current registry_inv_current)
  show "distinct (registry_peers r)" "length (registry_peers r) < 2 ^ 32"
    using indexesD [OF ix] by simp_all
  show "registry_is_participant r view k = Some i \<longleftrightarrow>
      unat i < length (registry_peers r) \<and> registry_peers r ! unat i = k" for k i
    using indexesD(3) [OF ix] good
    by (simp add: registry_is_participant_def registry_inv_current)
next
  fix r :: "('k, 'i, 'sh) registry" and seed
  assume good: "registry_inv r \<and> modulo_laws md" and ne: "registry_peers r \<noteq> []"
  let ?xs = "registry_peers r"
  have cur: "r_views r (r_latest_view r) = Some (current_set r)" "?xs = p_list (current_set r)"
    using good by (simp_all add: registry_inv_current registry_peers_current)
  have "length ?xs < 2 ^ 64"
    using good cur(2) indexesD(2) [OF registry_inv_current(2)] by fastforce
  with good ne leader_index_in_range obtain i where
    "md seed (usize_of_len ?xs) = Some i" "unat i < length ?xs" by blast
  then show "\<exists>k \<in> set ?xs. registry_leader md r view seed = Ok (Some k)"
    using cur ne by (auto simp: registry_leader_def modulo_index_def at_index_def)
qed

section \<open>Histories\<close>

datatype 'k registry_op = AddKey 'k | RemoveKey 'k

text \<open>
  A sequence of updates as a caller makes them: a refused update leaves the registry as it was (the
  code returns before it writes).
\<close>

fun registry_apply ::
  "profile \<Rightarrow> 'k registry_op \<Rightarrow> ('k, 'i, 'sh) registry
    \<Rightarrow> ('k registry_error, ('k, 'i, 'sh) registry) outcome" where
  "registry_apply pr (AddKey k) r = add_participant pr k r"
| "registry_apply pr (RemoveKey k) r = remove_participant pr k r"

fun registry_run ::
  "profile \<Rightarrow> 'k registry_op list \<Rightarrow> ('k, 'i, 'sh) registry
    \<Rightarrow> ('k registry_error, ('k, 'i, 'sh) registry) outcome" where
  "registry_run pr [] r = Ok r"
| "registry_run pr (op # ops) r =
     (case registry_apply pr op r of
        Ok r' \<Rightarrow> registry_run pr ops r'
      | Err e \<Rightarrow> registry_run pr ops r
      | Panic p \<Rightarrow> Panic p)"

lemma add_participant_refused:
  "registry_inv r \<Longrightarrow> k \<in> set (registry_peers r) \<Longrightarrow> add_participant pr k r = Err (KeyAlreadyExists k)"
  by (simp add: add_participant_def Let_def current_map_dom)

lemma remove_participant_refused:
  "registry_inv r \<Longrightarrow> k \<notin> set (registry_peers r) \<Longrightarrow>
    remove_participant pr k r = Err (KeyDoesNotExist k)"
  using current_map_dom [of r k] by (simp add: remove_participant_def Let_def)

lemma registry_apply_cases:
  assumes "registry_inv r" and "unat (r_latest_view r) < 2 ^ 64 - 1"
    and "length (registry_peers r) + 1 < 2 ^ 32"
  shows "(\<exists>e. registry_apply pr op r = Err e) \<or>
    (\<exists>r' p. registry_apply pr op r = Ok r' \<and> extends_by r r' p \<and> registry_inv r' \<and>
        length (p_list p) \<le> length (registry_peers r) + 1)"
proof (cases op)
  case (AddKey k)
  then show ?thesis
    using add_participant_refused [OF assms(1), of k pr] add_participant_small [OF assms(1,2) _ assms(3), of k pr]
    by (cases "k \<in> set (registry_peers r)") fastforce+
next
  case (RemoveKey k)
  then show ?thesis
    using remove_participant_refused [OF assms(1), of k pr] remove_participant_small [OF assms(1,2), of k pr]
    by (cases "k \<in> set (registry_peers r)") fastforce+
qed

lemma registry_run_append_only:
  assumes "registry_inv r" and "unat (r_latest_view r) + length ops < 2 ^ 64"
    and "length (registry_peers r) + length ops < 2 ^ 32"
  shows "\<exists>r'. registry_run pr ops r = Ok r' \<and> registry_inv r' \<and> r_views r \<subseteq>\<^sub>m r_views r'"
  using assms
proof (induction ops arbitrary: r)
  case (Cons op ops)
  have pre: "unat (r_latest_view r) < 2 ^ 64 - 1" "length (registry_peers r) + 1 < 2 ^ 32"
    using Cons.prems by simp_all
  from registry_apply_cases [OF Cons.prems(1) pre, of pr op] show ?case
  proof (elim disjE exE conjE)
    fix e assume "registry_apply pr op r = Err e"
    then show ?thesis using Cons.IH [OF Cons.prems(1)] Cons.prems by simp
  next
    fix r1 p
    assume r1: "registry_apply pr op r = Ok r1" "extends_by r r1 p" "registry_inv r1"
      "length (p_list p) \<le> length (registry_peers r) + 1"
    note ext = extends_by_views [OF r1(2) Cons.prems(1) pre(1)]
    have "unat (r_latest_view r1) + length ops < 2 ^ 64"
      using Cons.prems(2) ext(1) next_view_fresh(2) [OF Cons.prems(1) pre(1)] by simp
    moreover have "length (registry_peers r1) + length ops < 2 ^ 32"
      using Cons.prems(3) ext(3) r1(4) by simp
    ultimately obtain r' where "registry_run pr ops r1 = Ok r'" "registry_inv r'"
      "r_views r1 \<subseteq>\<^sub>m r_views r'"
      using Cons.IH [OF r1(3)] by blast
    then show ?thesis using r1(1) ext(2) map_le_trans by auto
  qed
qed (simp add: map_le_def)

end
