(* ===== verification/Committee_Properties.thy ===== *)
theory Committee_Properties
  imports Validator_Registry
begin

text \<open>
  The properties of the two committees, with witnesses on small concrete ones (keys are numbers,
  the threshold polynomial is trivial).
\<close>

definition unit_poly :: "(unit, nat) poly_api" where
  "unit_poly = \<lparr>poly_public = (\<lambda>_. 0), evaluate_all = (\<lambda>_ n. replicate (unat n) 0)\<rparr>"

definition sample_registry :: "(nat, nat, unit) registry" where
  "sample_registry = registry_new unit_poly [10, 20, 30] () ()"

lemma sample_registry_inv [simp]: "registry_inv sample_registry"
  by (simp add: sample_registry_def registry_inv_new)

lemma sample_registry_fields [simp]:
  "r_latest_view sample_registry = 1" "registry_peers sample_registry = [10, 20, 30]"
  by (simp_all add: sample_registry_def registry_new_def registry_peers_def)

section \<open>Updates\<close>

text \<open>
  C28. The registry's views are append-only: however many keys are added and removed, the run never
  panics, every view once stored keeps its set unchanged, and the invariant (views 1 to the latest
  in use, every stored set indexed correctly) holds after it. The references that \<open>peers\<close> and
  \<open>participants\<close> hand out therefore never refer to a replaced set. The bounds are those of the
  view counter and of the 32-bit indices.
\<close>

theorem registry_append_only:
  assumes "registry_inv r" and "unat (r_latest_view r) + length ops < 2 ^ 64"
    and "length (registry_peers r) + length ops < 2 ^ 32"
  shows "\<exists>r'. registry_run pr ops r = Ok r' \<and> registry_inv r' \<and>
           (\<forall>v p. r_views r v = Some p \<longrightarrow> r_views r' v = Some p)"
  using registry_run_append_only [OF assms, of pr]
  by (auto simp: map_le_def) (metis domI)

theorem registry_append_only_witness:
  "\<exists>r'. registry_run Debug [AddKey 40, RemoveKey 10, AddKey 40] sample_registry = Ok r' \<and>
        map_option p_list (r_views r' 1) = Some [10, 20, 30]"
proof -
  have "r_views sample_registry 1 = Some \<lparr>p_list = [10, 20, 30], p_map = index_map [10, 20, 30]\<rparr>"
    by (simp add: sample_registry_def registry_new_def)
  with registry_append_only [of sample_registry "[AddKey 40, RemoveKey 10, AddKey 40]" Debug]
  show ?thesis by fastforce
qed

text \<open>
  C29. \<open>add_participant\<close>: a key of the latest set is refused and nothing changes; any other key is
  appended, gets the next index, and the new set becomes the latest view.
\<close>

theorem add_participant_spec:
  assumes "registry_inv r" and "unat (r_latest_view r) < 2 ^ 64 - 1"
    and "length (registry_peers r) + 1 < 2 ^ 32"
  shows "if k \<in> set (registry_peers r) then add_participant pr k r = Err (KeyAlreadyExists k)
         else \<exists>r'. add_participant pr k r = Ok r' \<and> registry_inv r' \<and>
                registry_peers r' = registry_peers r @ [k] \<and>
                registry_is_participant r' v k = Some (word_of_nat (length (registry_peers r))) \<and>
                registry_peer_set_id r' = registry_peer_set_id r + 1"
proof (cases "k \<in> set (registry_peers r)")
  case True
  then show ?thesis using add_participant_refused [OF assms(1)] by simp
next
  case False
  from add_participant_small [OF assms(1,2) False assms(3), of pr] obtain r' p where
    r': "add_participant pr k r = Ok r'" "extends_by r r' p" "registry_inv r'"
    "p_list p = registry_peers r @ [k]" by blast
  note ext = extends_by_views [OF r'(2) assms(1,2)]
  have "registry_is_participant r' v k = Some (word_of_nat (length (registry_peers r)))"
    using registry_committee.index_iff [of r' be_modulo v k "word_of_nat (length (registry_peers r))"]
      r'(3,4) ext(3) u32_of_nat [of "length (registry_peers r)"] assms(3)
    by simp
  then show ?thesis
    using False r' ext by (simp add: registry_peer_set_id_def)
qed

theorem add_participant_spec_witness:
  "add_participant Debug 20 sample_registry = Err (KeyAlreadyExists 20) \<and>
   (\<exists>r'. add_participant Debug 40 sample_registry = Ok r' \<and> registry_peers r' = [10, 20, 30, 40])"
  using add_participant_spec [of sample_registry 20 Debug 0]
    add_participant_spec [of sample_registry 40 Debug 0] by auto

text \<open>
  C30. \<open>remove_participant\<close>: a key outside the latest set is refused; a member is removed, the others
  stay, and every remaining key is again found at exactly the index where it stands although one of
  them was moved by \<open>swap_remove\<close>.
\<close>

theorem remove_participant_spec:
  assumes "registry_inv r" and "unat (r_latest_view r) < 2 ^ 64 - 1"
  shows "if k \<notin> set (registry_peers r) then remove_participant pr k r = Err (KeyDoesNotExist k)
         else \<exists>r'. remove_participant pr k r = Ok r' \<and> registry_inv r' \<and>
                set (registry_peers r') = set (registry_peers r) - {k} \<and>
                length (registry_peers r') = length (registry_peers r) - 1 \<and>
                (\<forall>x i. registry_is_participant r' v x = Some i \<longleftrightarrow>
                   unat i < length (registry_peers r') \<and> registry_peers r' ! unat i = x)"
proof (cases "k \<in> set (registry_peers r)")
  case False
  then show ?thesis using remove_participant_refused [OF assms(1)] by simp
next
  case True
  from remove_participant_small [OF assms True, of pr] obtain r' p where
    r': "remove_participant pr k r = Ok r'" "extends_by r r' p" "registry_inv r'"
    "length (p_list p) = length (registry_peers r) - 1"
    "set (p_list p) = set (registry_peers r) - {k}" by blast
  have "\<forall>x i. registry_is_participant r' v x = Some i \<longleftrightarrow>
      unat i < length (registry_peers r') \<and> registry_peers r' ! unat i = x"
    using registry_committee.index_iff [of r' be_modulo v] r'(3) by simp
  with True r' extends_by_views(3) [OF r'(2) assms] show ?thesis by simp
qed

theorem remove_participant_spec_witness:
  "remove_participant Debug 40 sample_registry = Err (KeyDoesNotExist 40) \<and>
   (\<exists>r'. remove_participant Debug 10 sample_registry = Ok r' \<and> set (registry_peers r') = {20, 30})"
  using remove_participant_spec [of sample_registry 40 Debug 0]
    remove_participant_spec [of sample_registry 10 Debug 0] by auto

section \<open>Leaders\<close>

text \<open>
  C31. The threshold leader: both committees, when not empty, elect one of their members for every
  seed, and that member has an index; an empty registry elects nobody, an empty fixed committee
  panics on the modulus.
\<close>

theorem leaders_are_members:
  assumes "modulo_laws md"
  shows "(registry_inv r \<longrightarrow>
           (if registry_peers r = [] then registry_leader md r v seed = Ok None
            else \<exists>k i. registry_leader md r v seed = Ok (Some k) \<and>
                   registry_is_participant r v k = Some i)) \<and>
         (supervisor_good s \<longrightarrow>
           (if sv_participants s = [] then supervisor_leader md s v seed = Panic DivideByZero
            else \<exists>k i. supervisor_leader md s v seed = Ok (Some k) \<and>
                   supervisor_is_participant s v k = Some i))"
proof (intro conjI impI)
  assume inv: "registry_inv r"
  show "if registry_peers r = [] then registry_leader md r v seed = Ok None
        else \<exists>k i. registry_leader md r v seed = Ok (Some k) \<and> registry_is_participant r v k = Some i"
    using assms inv registry_inv_current(1) [OF inv] registry_committee.leader_has_index [of r md]
    by (auto simp: registry_leader_def registry_peers_def)
next
  assume "supervisor_good s"
  then show "if sv_participants s = [] then supervisor_leader md s v seed = Panic DivideByZero
      else \<exists>k i. supervisor_leader md s v seed = Ok (Some k) \<and> supervisor_is_participant s v k = Some i"
    using assms fixed_committee.leader_has_index [of s md]
    by (auto simp: supervisor_leader_def modulo_index_def modulo_laws_def)
qed

theorem leaders_are_members_witness:
  "(\<exists>k. registry_leader be_modulo sample_registry 5 [1, 2] = Ok (Some k)) \<and>
   supervisor_leader be_modulo (supervisor_new unit_poly ([] :: nat list) () ()) 5 [1]
     = Panic DivideByZero"
  using leaders_are_members [OF be_modulo_laws, of sample_registry 5 "[1, 2]"
      "supervisor_new unit_poly ([] :: nat list) () ()"]
    leaders_are_members [OF be_modulo_laws, of sample_registry 5 "[1]"
      "supervisor_new unit_poly ([] :: nat list) () ()"]
    supervisor_new_good [of "[] :: nat list" unit_poly "()" "()"]
  by (auto simp: supervisor_new_def)

text \<open>
  The view-indexed leader of the registry rotates through the latest set: among any \<open>n\<close>
  consecutive views every one of the \<open>n\<close> members leads.
\<close>

lemma plain_leader_nth:
  assumes "registry_inv r" and "registry_peers r \<noteq> []"
  shows "registry_plain_leader r v
    = Some (registry_peers r ! (unat v mod length (registry_peers r)))"
proof -
  let ?xs = "registry_peers r"
  have "length ?xs < 2 ^ 32"
    using registry_committee.members_short [of r be_modulo] assms(1) by simp
  then have "unat (usize_of_len ?xs) = length ?xs"
    by (simp add: unat_of_nat)
  then show ?thesis
    using assms registry_inv_current(1) [OF assms(1)]
    by (simp add: registry_plain_leader_def registry_peers_current unat_mod_distrib)
qed

lemma mod_window:
  fixes a i n :: nat
  assumes "i < n"
  shows "\<exists>j < n. (a + j) mod n = i"
proof -
  let ?j = "(i + n - a mod n) mod n"
  have "a mod n < n" using assms by simp
  then have "a mod n + (i + n - a mod n) = i + n" by (intro le_add_diff_inverse) simp
  then have "(a mod n + (i + n - a mod n)) mod n = i" using assms by simp
  then have "(a + ?j) mod n = i" by (metis mod_add_eq mod_mod_trivial)
  then show ?thesis using assms by (metis mod_less_divisor gr_implies_not0 not_gr_zero)
qed

lemma plain_leader_rotates:
  assumes "registry_inv r" and "k \<in> set (registry_peers r)"
    and "unat v + length (registry_peers r) \<le> 2 ^ 64"
  shows "\<exists>j < length (registry_peers r).
           registry_plain_leader r (v + word_of_nat j) = Some k"
proof -
  let ?n = "length (registry_peers r)"
  from assms(2) obtain i where i: "i < ?n" "registry_peers r ! i = k"
    by (auto simp: in_set_conv_nth)
  then obtain j where j: "j < ?n" "(unat v + j) mod ?n = i"
    using mod_window by blast
  have "unat (v + word_of_nat j) = unat v + j"
    using j(1) assms(3) by (simp add: unat_word_ariths unat_of_nat)
  moreover have "registry_peers r \<noteq> []" using assms(2) by auto
  ultimately have "registry_plain_leader r (v + word_of_nat j) = Some k"
    using plain_leader_nth [OF assms(1)] j(2) i(2) by simp
  with j(1) show ?thesis by blast
qed

section \<open>What construction does not check\<close>

text \<open>
  Nothing rejects a key that is listed twice: the second occurrence takes the index over, so the
  index of the first is nobody's although the key still stands there, and the committee is smaller
  than the list from which shares and quorum are computed.
\<close>

lemma index_map_Some:
  "index_map ks k = Some w \<Longrightarrow> \<exists>n < length ks. ks ! n = k \<and> w = word_of_nat n"
proof (induction ks rule: rev_induct)
  case (snoc x xs)
  show ?case
  proof (cases "k = x")
    case True
    then show ?thesis
      using snoc.prems unfolding index_map_snoc by (intro exI [of _ "length xs"]) simp
  next
    case False
    with snoc obtain n where "n < length xs" "xs ! n = k" "w = word_of_nat n"
      unfolding index_map_snoc by auto
    then show ?thesis by (intro exI [of _ n]) (simp add: nth_append)
  qed
qed (simp add: index_map_def)

lemma index_map_last:
  assumes "i < j" and "j < length ks" and "length ks < 2 ^ 32" and "ks ! i = ks ! j"
  shows "\<exists>n. index_map ks (ks ! i) = Some (word_of_nat n) \<and> i < n \<and> n < length ks"
  using assms
proof (induction ks rule: rev_induct)
  case (snoc k ks)
  show ?case
  proof (cases "(ks @ [k]) ! i = k")
    case True
    then show ?thesis
      using snoc.prems unfolding index_map_snoc by (intro exI [of _ "length ks"]) simp
  next
    case False
    then have "j < length ks"
      using snoc.prems by (auto simp: nth_append less_Suc_eq)
    with snoc.IH snoc.prems obtain n where
      "index_map ks (ks ! i) = Some (word_of_nat n)" "i < n" "n < length ks"
      by (auto simp: nth_append)
    then show ?thesis
      using False snoc.prems unfolding index_map_snoc
      by (intro exI [of _ n]) (auto simp: nth_append)
  qed
qed simp

lemma duplicate_key_loses_index:
  assumes "i < j" and "j < length ks" and "length ks < 2 ^ 32" and "ks ! i = ks ! j"
  shows "registry_peers (registry_new P ks poly share) ! i = ks ! i \<and>
         (\<forall>k. registry_is_participant (registry_new P ks poly share) v k \<noteq> Some (word_of_nat i))"
proof (intro conjI allI notI)
  show "registry_peers (registry_new P ks poly share) ! i = ks ! i"
    by (simp add: registry_peers_def registry_new_def)
next
  fix k
  assume "registry_is_participant (registry_new P ks poly share) v k = Some (word_of_nat i)"
  then have k: "index_map ks k = Some (word_of_nat i)"
    by (simp add: registry_is_participant_def registry_new_def)
  from index_map_Some [OF k] obtain n where n: "n < length ks" "ks ! n = k" "(word_of_nat i :: u32) = word_of_nat n"
    by blast
  have "i < 2 ^ 32" "n < 2 ^ 32"
    using n(1) assms by linarith+
  from u32_of_nat [OF this(1)] u32_of_nat [OF this(2)] n(3) have "i = n" by metis
  moreover from index_map_last [OF assms] obtain m where
    "index_map ks (ks ! i) = Some (word_of_nat m)" "i < m" "m < length ks" by blast
  moreover from this have "(word_of_nat m :: u32) \<noteq> word_of_nat i"
    using assms(3) u32_of_nat [of i] u32_of_nat [of m] by (metis less_trans nat_neq_iff)
  ultimately show False using k n(2) by simp
qed

text \<open>
  The public shares are evaluated once, for the committee of the first view: after any history
  of updates they are still those, so a key added later has no share of its own.
\<close>

lemma registry_apply_polynomial:
  "registry_apply pr op r = Ok r' \<Longrightarrow> r_polynomial r' = r_polynomial r"
  by (cases op)
     (auto simp: add_participant_def remove_participant_def store_next_def Let_def outcome_simps
       split: if_splits option.splits)

lemma registry_run_polynomial:
  "registry_run pr ops r = Ok r' \<Longrightarrow> r_polynomial r' = r_polynomial r"
  by (induction ops arbitrary: r) (auto split: outcome.splits dest: registry_apply_polynomial)

lemma shares_never_reevaluated:
  assumes "registry_run pr ops (registry_new P ks poly share) = Ok r"
  shows "registry_polynomial r v = Some (evaluate_all P poly (word_of_nat (length ks)))"
  using registry_run_polynomial [OF assms] by (simp add: registry_polynomial_def registry_new_def)

end
