(* ===== verification/Engine_Client.thy ===== *)
theory Engine_Client
  imports Block_Types
begin

text \<open>
  \<open>application/src/engine_client.rs\<close>: the four calls the node makes to its execution client over the
  engine API. The client is a remote process; a value of \<open>engine_api\<close> is what it answers while a
  step runs, \<open>None\<close> being a failed request, on which every call here unwraps.
\<close>

record forkchoice =
  head_block_hash :: digest
  safe_block_hash :: digest
  finalized_block_hash :: digest

definition forkchoice_at :: "digest \<Rightarrow> forkchoice" where
  "forkchoice_at h = \<lparr>head_block_hash = h, safe_block_hash = h, finalized_block_hash = h\<rparr>"

record payload_attributes =
  pa_timestamp :: u64
  pa_prev_randao :: digest
  pa_suggested_fee_recipient :: "160 word"
  pa_withdrawals :: "bytes list option"
  pa_parent_beacon_block_root :: "digest option"

type_synonym payload_id = u64

record payload_envelope =
  pe_execution_payload :: execution_payload
  pe_execution_requests :: "bytes list"
  pe_block_value :: "256 word"

record engine_api =
  fork_choice_updated_v3 :: "forkchoice \<Rightarrow> payload_attributes option \<Rightarrow> payload_id option option"
  get_payload_v4 :: "payload_id \<Rightarrow> payload_envelope option"
  new_payload_v4 :: "execution_payload \<Rightarrow> digest list \<Rightarrow> digest \<Rightarrow> bytes list \<Rightarrow> bool option"

text \<open>\<open>[1; 32]\<close> and \<open>[1; 20]\<close>.\<close>

definition ones32 :: digest where
  "ones32 = of_be (replicate 32 1)"

definition ones20 :: "160 word" where
  "ones20 = of_be (replicate 20 1)"

definition build_attributes :: "u64 \<Rightarrow> payload_attributes" where
  "build_attributes timestamp =
     \<lparr>pa_timestamp = timestamp, pa_prev_randao = 0, pa_suggested_fee_recipient = ones20,
      pa_withdrawals = Some [], pa_parent_beacon_block_root = Some ones32\<rparr>"

definition start_building_block ::
  "engine_api \<Rightarrow> forkchoice \<Rightarrow> u64 \<Rightarrow> ('e, payload_id option) outcome" where
  "start_building_block E fc timestamp =
     expect_some ''unwrap'' (fork_choice_updated_v3 E fc (Some (build_attributes timestamp)))"

definition get_payload :: "engine_api \<Rightarrow> payload_id \<Rightarrow> ('e, payload_envelope) outcome" where
  "get_payload E i = expect_some ''unwrap'' (get_payload_v4 E i)"

text \<open>The status is reduced to \<open>is_valid()\<close>, the only thing asked of it.\<close>

definition check_payload :: "engine_api \<Rightarrow> block \<Rightarrow> ('e, bool) outcome" where
  "check_payload E b =
     expect_some ''unwrap'' (new_payload_v4 E (b_payload b) [] ones32 (b_requests b))"

definition commit_hash :: "engine_api \<Rightarrow> forkchoice \<Rightarrow> ('e, unit) outcome" where
  "commit_hash E fc =
     and_then (expect_some ''unwrap'' (fork_choice_updated_v3 E fc None)) (\<lambda>_. Ok ())"

lemmas engine_call_defs = start_building_block_def get_payload_def check_payload_def commit_hash_def

text \<open>An execution client that answers every call: what the liveness statements assume.\<close>

definition responsive :: "engine_api \<Rightarrow> bool" where
  "responsive E \<longleftrightarrow>
     (\<forall>fc pa. fork_choice_updated_v3 E fc pa \<noteq> None) \<and> (\<forall>i. get_payload_v4 E i \<noteq> None) \<and>
     (\<forall>p vs r rq. new_payload_v4 E p vs r rq \<noteq> None)"

lemma responsive_calls:
  assumes "responsive E"
  shows "\<exists>v. check_payload E b = Ok v" and "commit_hash E fc = Ok ()"
    and "\<exists>i. start_building_block E fc t = Ok i" and "\<exists>p. get_payload E i = Ok p"
proof -
  have "fork_choice_updated_v3 E fc pa \<noteq> None" "get_payload_v4 E i \<noteq> None"
    "new_payload_v4 E p vs r rq \<noteq> None" for fc pa p vs r rq i
    using assms by (simp_all add: responsive_def)
  then show "\<exists>v. check_payload E b = Ok v" "commit_hash E fc = Ok ()"
    "\<exists>i. start_building_block E fc t = Ok i" "\<exists>p. get_payload E i = Ok p"
    by (auto simp: engine_call_defs outcome_simps)
qed

end
