(* ===== verification/Height_Notifier.thy ===== *)
theory Height_Notifier
  imports Summit_Prelude "HOL-Library.Multiset"
begin

text \<open>
  \<open>HeightNotifier\<close> of \<open>application/src/finalizer.rs\<close>: the tasks that wait until a height has been
  executed, in a \<open>BTreeMap\<close> from heights to the senders to wake. The contract the finalizer relies
  on is the locale \<open>waiter_queue\<close>; the notifier is its interpretation. A sender is whatever
  identifies a one-shot channel.
\<close>

section \<open>The contract\<close>

text \<open>
  A queue stands for the multiset of its waiters. Registering adds one; notifying up to a height
  hands out exactly the waiters at or below it and keeps the others.
\<close>

locale waiter_queue =
  fixes ok :: "'q \<Rightarrow> bool"
    and waiting :: "'q \<Rightarrow> (u64 \<times> 'c) multiset"
    and reg :: "u64 \<Rightarrow> 'c \<Rightarrow> 'q \<Rightarrow> 'q"
    and notify :: "u64 \<Rightarrow> 'q \<Rightarrow> ('e, 'q \<times> 'c list) outcome"
  assumes reg_ok: "ok q \<Longrightarrow> ok (reg h c q)"
    and waiting_reg: "ok q \<Longrightarrow> waiting (reg h c q) = add_mset (h, c) (waiting q)"
    and notify_returns: "ok q \<Longrightarrow> unat h < 2 ^ 64 - 1 \<Longrightarrow> \<exists>q' cs. notify h q = Ok (q', cs) \<and> ok q' \<and>
        waiting q' = filter_mset (\<lambda>w. h < fst w) (waiting q) \<and>
        mset cs = image_mset snd (filter_mset (\<lambda>w. fst w \<le> h) (waiting q))"
begin

definition all_above :: "u64 \<Rightarrow> 'q \<Rightarrow> bool" where
  "all_above h q \<longleftrightarrow> (\<forall>w \<in># waiting q. h < fst w)"

lemma all_above_reg: "ok q \<Longrightarrow> all_above n q \<Longrightarrow> n < h \<Longrightarrow> all_above n (reg h c q)"
  by (simp add: all_above_def waiting_reg)

lemma notify_Ok:
  assumes "ok q" and "unat h < 2 ^ 64 - 1" and "notify h q = Ok (q', cs)"
  shows "ok q'" and "all_above h q'"
    and "waiting q = filter_mset (\<lambda>w. fst w \<le> h) (waiting q) + waiting q'"
    and "image_mset snd (filter_mset (\<lambda>w. fst w \<le> h) (waiting q)) = mset cs"
proof -
  from notify_returns [OF assms(1,2)] assms(3)
  have q': "ok q'" "waiting q' = filter_mset (\<lambda>w. h < fst w) (waiting q)"
    "mset cs = image_mset snd (filter_mset (\<lambda>w. fst w \<le> h) (waiting q))" by auto
  show "ok q'" by (rule q'(1))
  show "all_above h q'" by (simp add: all_above_def q'(2))
  have "filter_mset (\<lambda>w. h < fst w) M = filter_mset (\<lambda>w. \<not> fst w \<le> h) M" for M :: "(u64 \<times> 'c) multiset"
    by (simp add: not_le)
  then show "waiting q = filter_mset (\<lambda>w. fst w \<le> h) (waiting q) + waiting q'"
    by (simp add: q'(2) flip: multiset_partition)
  show "image_mset snd (filter_mset (\<lambda>w. fst w \<le> h) (waiting q)) = mset cs"
    by (simp add: q'(3))
qed

end

section \<open>The notifier\<close>

type_synonym 'c notifier = "(u64 \<times> 'c list) list"

definition notifier_new :: "'c notifier" where
  "notifier_new = []"

definition register :: "u64 \<Rightarrow> 'c \<Rightarrow> 'c notifier \<Rightarrow> 'c notifier" where
  "register height sender pending = entry_push height sender pending"

text \<open>
  \<open>split_off\<close> leaves the entries at or below the height in the map and returns those above, which
  become the new map; the senders of the former are notified in height order.
\<close>

definition notify_up_to ::
  "profile \<Rightarrow> u64 \<Rightarrow> 'c notifier \<Rightarrow> ('e, 'c notifier \<times> 'c list) outcome" where
  "notify_up_to pr current_height pending =
     and_then (add_ovf pr current_height 1) (\<lambda>k.
       let (remaining, to_notify) = split_off k pending
       in Ok (to_notify, concat (map snd remaining)))"

section \<open>It implements the contract\<close>

definition entry_waiters :: "u64 \<times> 'c list \<Rightarrow> (u64 \<times> 'c) multiset" where
  "entry_waiters e = image_mset (Pair (fst e)) (mset (snd e))"

definition waiters :: "'c notifier \<Rightarrow> (u64 \<times> 'c) multiset" where
  "waiters m = sum_list (map entry_waiters m)"

lemma waiters_Nil [simp]: "waiters [] = {#}"
  by (simp add: waiters_def)

lemma waiters_Cons [simp]: "waiters (e # m) = entry_waiters e + waiters m"
  by (simp add: waiters_def)

lemma entry_waiters_fst: "w \<in># entry_waiters e \<Longrightarrow> fst w = fst e"
  by (auto simp: entry_waiters_def)

lemma waiters_entry_push: "waiters (entry_push h c m) = add_mset (h, c) (waiters m)"
  by (induction h c m rule: entry_push.induct) (auto simp: entry_waiters_def)

lemma filter_entry_waiters:
  "filter_mset (\<lambda>w. P (fst w)) (entry_waiters e) = (if P (fst e) then entry_waiters e else {#})"
  by (auto simp: entry_waiters_def filter_mset_image_mset)

lemma waiters_filter: "waiters (filter (\<lambda>e. P (fst e)) m) = filter_mset (\<lambda>w. P (fst w)) (waiters m)"
  by (induction m) (auto simp: filter_entry_waiters)

lemma mset_senders: "mset (concat (map snd m)) = image_mset snd (waiters m)"
  by (induction m) (auto simp: entry_waiters_def multiset.map_comp comp_def)

lemma less_Suc_u64:
  assumes "unat h < 2 ^ 64 - 1"
  shows "(x :: u64) < h + 1 \<longleftrightarrow> x \<le> h" and "h + 1 \<le> x \<longleftrightarrow> h < x"
  using unat_Suc_u64 [OF assms] by (auto simp: word_less_nat_alt word_le_nat_alt)

lemma notify_up_to_small:
  assumes "unat h < 2 ^ 64 - 1"
  shows "notify_up_to pr h m
    = Ok (filter (\<lambda>e. h < fst e) m, concat (map snd (filter (\<lambda>e. fst e \<le> h) m)))"
  by (simp add: notify_up_to_def split_off_def less_Suc_u64 [OF assms] add_ovf_Suc_u64 [OF assms])

interpretation heights: waiter_queue strict_keys waiters register "notify_up_to pr" for pr
proof unfold_locales
  fix q :: "'c notifier" and h :: u64 and c
  assume "strict_keys q"
  then show "strict_keys (register h c q)"
    by (simp add: register_def strict_keys_entry_push)
  show "waiters (register h c q) = add_mset (h, c) (waiters q)"
    by (simp add: register_def waiters_entry_push)
next
  fix q :: "'c notifier" and h :: u64
  assume "strict_keys q" and "unat h < 2 ^ 64 - 1"
  then show "\<exists>q' cs. notify_up_to pr h q = Ok (q', cs) \<and> strict_keys q' \<and>
      waiters q' = filter_mset (\<lambda>w. h < fst w) (waiters q) \<and>
      mset cs = image_mset snd (filter_mset (\<lambda>w. fst w \<le> h) (waiters q))"
    by (simp add: notify_up_to_small strict_keys_filter mset_senders
      waiters_filter [of "\<lambda>x. h < x"] waiters_filter [of "\<lambda>x. x \<le> h"])
qed

text \<open>
  \<open>notify_up_to\<close> wakes exactly the waiters at or below the height, in height order and within a
  height in the order of registration, and keeps exactly the others (the variable called
  \<open>to_notify\<close> in the code is the part that is kept).
\<close>

lemma notify_up_to_exact:
  assumes "strict_keys m" and "unat h < 2 ^ 64 - 1"
  shows "\<exists>m'. notify_up_to pr h m = Ok (m', concat (map snd (filter (\<lambda>e. fst e \<le> h) m))) \<and>
           strict_keys m' \<and> waiters m' = filter_mset (\<lambda>w. h < fst w) (waiters m) \<and>
           sorted (map fst (filter (\<lambda>e. fst e \<le> h) m))"
  using assms
  by (simp add: notify_up_to_small strict_keys_filter waiters_filter [of "\<lambda>x. h < x"])
     (simp add: strict_keys_def sorted_filter)

end
