(* ===== verification/Finalizer.thy ===== *)
theory Finalizer
  imports Engine_Client Height_Notifier
begin

text \<open>
  \<open>application/src/finalizer.rs\<close>: the task that hands finalized blocks to the execution client in
  height order. The loop's body has three phases: it asks the syncer for the next block and commits
  it, it asks for a repair, it waits. A pass of the loop is their composition; what it receives (the
  syncer's answers, the message it wakes up on) is an argument, what it sends out is a list of effects
  in the order of the calls.
\<close>

section \<open>Durable metadata\<close>

text \<open>
  \<open>commonware_storage::metadata\<close>: a persistent map. \<open>md_put\<close> changes it in memory, \<open>md_sync\<close>
  writes it out, \<open>md_reopen\<close> is what \<open>init\<close> finds after a restart.
\<close>

record 'm metadata_api =
  md_get :: "'m \<Rightarrow> byte \<Rightarrow> u64 option"
  md_put :: "byte \<Rightarrow> u64 \<Rightarrow> 'm \<Rightarrow> 'm"
  md_sync :: "'m \<Rightarrow> 'm option"
  md_reopen :: "'m \<Rightarrow> 'm"

definition metadata_laws :: "'m metadata_api \<Rightarrow> bool" where
  "metadata_laws M \<longleftrightarrow>
     (\<forall>k v m. md_get M (md_put M k v m) k = Some v) \<and>
     (\<forall>m m'. md_sync M m = Some m' \<longrightarrow>
        md_get M m' = md_get M m \<and> md_get M (md_reopen M m') = md_get M m) \<and>
     (\<forall>m. md_get M (md_reopen M (md_reopen M m)) = md_get M (md_reopen M m))"

definition LATEST_KEY :: byte where
  "LATEST_KEY = 0"

section \<open>State, effects and inputs\<close>

record ('c, 'm) finalizer =
  fz_last_indexed :: u64
  fz_pending :: "'c notifier"
  fz_metadata :: 'm
  fz_forkchoice :: forkchoice

datatype 'c fin_effect =
    AskBlock u64
  | CheckPayload block
  | CommitHash forkchoice
  | SyncMetadata
  | Wake 'c
  | Processed u64 digest
  | AskRepair u64

text \<open>
  What the final \<open>select!\<close> takes: a message or the end of the mailbox for heights, or anything, its end
  included, from the channel for new blocks.
\<close>

datatype 'c fin_event = HeightRequest u64 'c | HeightMailboxClosed | NewBlock

text \<open>
  A call to the syncer: answered; sent, but its one-shot channel dropped; or not sent, because the
  syncer's mailbox is closed.
\<close>

datatype 'a call = Answered 'a | Dropped | Closed

fun call_result :: "string \<Rightarrow> 'a call \<Rightarrow> ('e, 'a) outcome" where
  "call_result msg (Answered x) = Ok x"
| "call_result msg Dropped = Panic (ExpectFailed ''unwrap'')"
| "call_result msg Closed = Panic (ExpectFailed msg)"

declare call_result.simps [outcome_simps]

text \<open>Where the loop stands: at its top, about to ask for a repair, or in the \<open>select!\<close>.\<close>

datatype fin_phase = Asking | Repairing u64 | Parked

text \<open>
  The inputs of one pass whose calls are answered: the answer to \<open>get\<close>, the execution client, the
  answer to \<open>repair\<close>, and what the final \<open>select!\<close> takes. The ones a pass does not come to are ignored.
\<close>

record 'c fin_input =
  fi_block :: "block option"
  fi_engine :: engine_api
  fi_repaired :: bool
  fi_event :: "'c fin_event"

section \<open>The loop\<close>

definition finalizer_new ::
  "'m metadata_api \<Rightarrow> 'm \<Rightarrow> forkchoice \<Rightarrow> ('c, 'm) finalizer" where
  "finalizer_new M m fc =
     \<lparr>fz_last_indexed = (case md_get M m LATEST_KEY of None \<Rightarrow> 0 | Some n \<Rightarrow> n),
      fz_pending = notifier_new, fz_metadata = m, fz_forkchoice = fc\<rparr>"

text \<open>Committing a block the execution client found valid.\<close>

definition commit_block ::
  "profile \<Rightarrow> 'm metadata_api \<Rightarrow> engine_api \<Rightarrow> u64 \<Rightarrow> block \<Rightarrow> ('c, 'm) finalizer
    \<Rightarrow> ('e, ('c, 'm) finalizer \<times> 'c fin_effect list) outcome" where
  "commit_block pr M E next b s =
     (let fc = forkchoice_at (eth_block_hash b) in
      and_then (commit_hash E fc) (\<lambda>_.
      and_then (expect_some ''Failed to sync finalizer''
                  (md_sync M (md_put M LATEST_KEY next (fz_metadata s)))) (\<lambda>m.
      and_then (notify_up_to pr next (fz_pending s)) (\<lambda>(pending, woken).
        Ok (s\<lparr>fz_forkchoice := fc, fz_metadata := m, fz_last_indexed := next, fz_pending := pending\<rparr>,
            CommitHash fc # SyncMetadata # map Wake woken @ [Processed next (b_digest b)])))))"

text \<open>The top of the loop: ask for the next block, and commit it if the execution client finds it valid.\<close>

definition ask_step ::
  "profile \<Rightarrow> 'm metadata_api \<Rightarrow> engine_api \<Rightarrow> block option call \<Rightarrow> unit call \<Rightarrow> ('c, 'm) finalizer
    \<Rightarrow> ('e, (('c, 'm) finalizer \<times> fin_phase) \<times> 'c fin_effect list) outcome" where
  "ask_step pr M E got processed s =
     and_then (add_ovf pr (fz_last_indexed s) 1) (\<lambda>next.
     and_then (call_result ''Failed to send get'' got) (\<lambda>found.
       case found of
         None \<Rightarrow> Ok ((s, Repairing next), [AskBlock next])
       | Some b \<Rightarrow>
           and_then (check_payload E b) (\<lambda>valid.
             if valid then
               and_then (commit_block pr M E next b s) (\<lambda>(s', es).
               and_then (call_result ''Failed to send processed'' processed) (\<lambda>_.
                 Ok ((s', Asking), AskBlock next # CheckPayload b # es)))
             else Ok ((s, Repairing next), [AskBlock next, CheckPayload b]))))"

definition repair_step ::
  "bool call \<Rightarrow> u64 \<Rightarrow> ('c, 'm) finalizer
    \<Rightarrow> ('e, (('c, 'm) finalizer \<times> fin_phase) \<times> 'c fin_effect list) outcome" where
  "repair_step answer next s =
     and_then (call_result ''Failed to send repair'' answer) (\<lambda>repaired.
       Ok ((s, if repaired then Asking else Parked), [AskRepair next]))"

definition wait_step ::
  "'c fin_event \<Rightarrow> ('c, 'm) finalizer \<Rightarrow> ('e, ('c, 'm) finalizer \<times> 'c fin_effect list) outcome" where
  "wait_step ev s =
     (case ev of
        NewBlock \<Rightarrow> Ok (s, [])
      | HeightMailboxClosed \<Rightarrow> Panic (ExpectFailed ''height notify mailbox dropped'')
      | HeightRequest height sender \<Rightarrow>
          if height \<le> fz_last_indexed s then Ok (s, [Wake sender])
          else Ok (s\<lparr>fz_pending := register height sender (fz_pending s)\<rparr>, []))"

text \<open>The end of a pass that had nothing to commit: repair, or else wait for a message.\<close>

definition repair_or_wait ::
  "'c fin_input \<Rightarrow> u64 \<Rightarrow> ('c, 'm) finalizer \<Rightarrow> ('e, ('c, 'm) finalizer \<times> 'c fin_effect list) outcome" where
  "repair_or_wait i next s =
     and_then (repair_step (Answered (fi_repaired i)) next s) (\<lambda>((s1, phase), es1).
       if phase = Parked then and_then (wait_step (fi_event i) s1) (\<lambda>(s2, es2). Ok (s2, es1 @ es2))
       else Ok (s1, es1))"

definition finalizer_pass ::
  "profile \<Rightarrow> 'm metadata_api \<Rightarrow> 'c fin_input \<Rightarrow> ('c, 'm) finalizer
    \<Rightarrow> ('e, ('c, 'm) finalizer \<times> 'c fin_effect list) outcome" where
  "finalizer_pass pr M i s =
     and_then (ask_step pr M (fi_engine i) (Answered (fi_block i)) (Answered ()) s) (\<lambda>((s1, phase), es1).
       case phase of
         Repairing next \<Rightarrow> and_then (repair_or_wait i next s1) (\<lambda>(s2, es2). Ok (s2, es1 @ es2))
       | _ \<Rightarrow> Ok (s1, es1))"

fun finalizer_run ::
  "profile \<Rightarrow> 'm metadata_api \<Rightarrow> 'c fin_input list \<Rightarrow> ('c, 'm) finalizer
    \<Rightarrow> ('e, ('c, 'm) finalizer \<times> 'c fin_effect list) outcome" where
  "finalizer_run pr M [] s = Ok (s, [])"
| "finalizer_run pr M (i # is) s =
     and_then (finalizer_pass pr M i s) (\<lambda>(s', es).
     and_then (finalizer_run pr M is s') (\<lambda>(s'', es'). Ok (s'', es @ es')))"


section \<open>One pass\<close>

definition commits :: "'c fin_input \<Rightarrow> bool" where
  "commits i \<longleftrightarrow> (case fi_block i of None \<Rightarrow> False
     | Some b \<Rightarrow> new_payload_v4 (fi_engine i) (b_payload b) [] ones32 (b_requests b) = Some True)"

text \<open>The block a pass commits, if it does.\<close>

definition committed :: "'c fin_input \<Rightarrow> block list" where
  "committed i = (if commits i then [the (fi_block i)] else [])"

text \<open>The request for a height that a pass takes from its mailbox, if it gets that far.\<close>

definition pass_requests :: "'c fin_input \<Rightarrow> (u64 \<times> 'c) multiset" where
  "pass_requests i =
     (if commits i \<or> fi_repaired i then {#}
      else case fi_event i of HeightRequest h c \<Rightarrow> {#(h, c)#} | _ \<Rightarrow> {#})"

fun woken :: "'c fin_effect list \<Rightarrow> 'c multiset" where
  "woken [] = {#}"
| "woken (Wake c # es) = add_mset c (woken es)"
| "woken (_ # es) = woken es"

fun processed_heights :: "'c fin_effect list \<Rightarrow> u64 list" where
  "processed_heights [] = []"
| "processed_heights (Processed n d # es) = n # processed_heights es"
| "processed_heights (_ # es) = processed_heights es"

lemma woken_append [simp]: "woken (es @ es') = woken es + woken es'"
  by (induction es rule: woken.induct) simp_all

lemma woken_map_Wake [simp]: "woken (map Wake cs) = mset cs"
  by (induction cs) simp_all

lemma processed_append [simp]:
  "processed_heights (es @ es') = processed_heights es @ processed_heights es'"
  by (induction es rule: processed_heights.induct) simp_all

lemma processed_map_Wake [simp]: "processed_heights (map Wake cs) = []"
  by (induction cs) simp_all

definition stored_height :: "'m metadata_api \<Rightarrow> 'm \<Rightarrow> u64" where
  "stored_height M m = (case md_get M m LATEST_KEY of None \<Rightarrow> 0 | Some n \<Rightarrow> n)"

text \<open>
  The account of the waiters over some effects: what waited before and came in is what was woken
  and what still waits, and nobody was woken above the height reached.
\<close>

definition served ::
  "u64 \<Rightarrow> (u64 \<times> 'c) multiset \<Rightarrow> 'c fin_effect list \<Rightarrow> (u64 \<times> 'c) multiset \<Rightarrow> bool" where
  "served reached before es after \<longleftrightarrow>
     (\<exists>W. before = W + after \<and> image_mset snd W = woken es \<and> (\<forall>w \<in># W. fst w \<le> reached))"

lemma served_none: "woken es = {#} \<Longrightarrow> served n A es A"
  by (auto simp: served_def intro: exI [of _ "{#}"])

lemma served_trans:
  assumes "served m A es B" and "m \<le> n" and "served n (B + C) es' D"
  shows "served n (A + C) (es @ es') D"
proof -
  from assms(1) obtain V where V: "A = V + B" "image_mset snd V = woken es" "\<forall>w \<in># V. fst w \<le> m"
    by (auto simp: served_def)
  from assms(3) obtain W where W: "B + C = W + D" "image_mset snd W = woken es'" "\<forall>w \<in># W. fst w \<le> n"
    by (auto simp: served_def)
  have "A + C = (V + W) + D" using V(1) W(1) by (simp add: add.assoc)
  moreover have "image_mset snd (V + W) = woken (es @ es')" using V(2) W(2) by simp
  moreover have "\<forall>w \<in># V + W. fst w \<le> n" using V(3) W(3) assms(2) by auto
  ultimately show ?thesis unfolding served_def by blast
qed

lemma served_prefix: "served n A es B \<Longrightarrow> woken pre = {#} \<Longrightarrow> served n A (pre @ es) B"
  by (simp add: served_def)

text \<open>
  The invariant of the loop: the notifier is in key order and holds only waiters above the last
  indexed height, and the last indexed height is the one a restart would read back.
\<close>

definition finalizer_inv :: "'m metadata_api \<Rightarrow> ('c, 'm) finalizer \<Rightarrow> bool" where
  "finalizer_inv M s \<longleftrightarrow>
     strict_keys (fz_pending s) \<and> heights.all_above (fz_last_indexed s) (fz_pending s) \<and>
     stored_height M (fz_metadata s) = fz_last_indexed s \<and>
     stored_height M (md_reopen M (fz_metadata s)) = fz_last_indexed s"

lemma finalizer_inv_new:
  "metadata_laws M \<Longrightarrow> finalizer_inv M (finalizer_new M (md_reopen M m) fc)"
  by (simp add: finalizer_inv_def finalizer_new_def notifier_new_def heights.all_above_def
      stored_height_def metadata_laws_def)

lemma commit_block_Ok:
  assumes "metadata_laws M" and "finalizer_inv M s" and "unat next < 2 ^ 64 - 1"
    and "commit_block pr M E next b s = (Ok (s', es) :: ('e, _) outcome)"
  shows "finalizer_inv M s'" and "fz_last_indexed s' = next"
    and "fz_forkchoice s' = forkchoice_at (eth_block_hash b)"
    and "served next (waiters (fz_pending s)) es (waiters (fz_pending s'))"
    and "processed_heights es = [next]"
    and "hd es = CommitHash (fz_forkchoice s') \<and> last es = Processed next (b_digest b)"
proof -
  from assms(4) obtain m pend cs where
    m: "md_sync M (md_put M LATEST_KEY next (fz_metadata s)) = Some m" and
    n: "notify_up_to pr next (fz_pending s) = (Ok (pend, cs) :: ('e, _) outcome)" and
    s': "s' = s\<lparr>fz_forkchoice := forkchoice_at (eth_block_hash b), fz_metadata := m,
           fz_last_indexed := next, fz_pending := pend\<rparr>" and
    es: "es = CommitHash (forkchoice_at (eth_block_hash b)) # SyncMetadata # map Wake cs @
           [Processed next (b_digest b)]"
    by (auto simp: commit_block_def Let_def outcome_simps)
  have keys: "strict_keys (fz_pending s)" using assms(2) by (simp add: finalizer_inv_def)
  note nt = heights.notify_Ok [OF keys assms(3) n]
  have "md_get M m LATEST_KEY = Some next" "md_get M (md_reopen M m) LATEST_KEY = Some next"
    using assms(1) m by (auto simp: metadata_laws_def)
  then show "finalizer_inv M s'"
    using nt(1,2) by (simp add: finalizer_inv_def s' stored_height_def)
  show "fz_last_indexed s' = next" "fz_forkchoice s' = forkchoice_at (eth_block_hash b)"
    "processed_heights es = [next]"
    "hd es = CommitHash (fz_forkchoice s') \<and> last es = Processed next (b_digest b)"
    by (simp_all add: s' es)
  show "served next (waiters (fz_pending s)) es (waiters (fz_pending s'))"
    unfolding served_def
    using nt(3,4) by (intro exI [of _ "filter_mset (\<lambda>w. fst w \<le> next) (waiters (fz_pending s))"])
      (simp add: s' es)
qed

text \<open>The end of a pass, and a pass, with the phases put in.\<close>

lemma repair_or_wait_eq:
  "repair_or_wait i next s =
     (if fi_repaired i then Ok (s, [AskRepair next])
      else case fi_event i of
          NewBlock \<Rightarrow> Ok (s, [AskRepair next])
        | HeightMailboxClosed \<Rightarrow> Panic (ExpectFailed ''height notify mailbox dropped'')
        | HeightRequest height sender \<Rightarrow>
            if height \<le> fz_last_indexed s then Ok (s, [AskRepair next, Wake sender])
            else Ok (s\<lparr>fz_pending := register height sender (fz_pending s)\<rparr>, [AskRepair next]))"
  by (simp add: repair_or_wait_def repair_step_def wait_step_def split: fin_event.split)

lemma finalizer_pass_eq:
  "(finalizer_pass pr M i s :: ('e, _) outcome) =
     and_then (add_ovf pr (fz_last_indexed s) 1) (\<lambda>next.
       case fi_block i of
         None \<Rightarrow> and_then (repair_or_wait i next s) (\<lambda>(s', es). Ok (s', AskBlock next # es))
       | Some b \<Rightarrow>
           and_then (check_payload (fi_engine i) b) (\<lambda>valid.
             if valid then
               and_then (commit_block pr M (fi_engine i) next b s) (\<lambda>(s', es).
                 Ok (s', AskBlock next # CheckPayload b # es))
             else and_then (repair_or_wait i next s) (\<lambda>(s', es).
               Ok (s', AskBlock next # CheckPayload b # es))))"
proof (cases "add_ovf pr (fz_last_indexed s) 1 :: ('e, u64) outcome")
  case (Ok k)
  show ?thesis
  proof (cases "fi_block i")
    case (Some b)
    show ?thesis
    proof (cases "check_payload (fi_engine i) b :: ('e, bool) outcome")
      case valid: (Ok v)
      show ?thesis
        by (cases "commit_block pr M (fi_engine i) k b s :: ('e, _) outcome")
          (simp_all add: finalizer_pass_def ask_step_def Ok Some valid split: prod.split)
    qed (simp_all add: finalizer_pass_def ask_step_def Ok Some)
  qed (simp add: finalizer_pass_def ask_step_def Ok)
qed (simp_all add: finalizer_pass_def ask_step_def)

lemma repair_or_wait_inv:
  assumes "finalizer_inv M s" and "repair_or_wait i next s = (Ok (s', es) :: ('e, _) outcome)"
  shows "finalizer_inv M s'"
    and "fz_last_indexed s' = fz_last_indexed s" and "fz_forkchoice s' = fz_forkchoice s"
    and "fz_metadata s' = fz_metadata s"
    and "processed_heights es = []"
  using assms
  by (auto simp: repair_or_wait_eq finalizer_inv_def heights.reg_ok heights.all_above_reg not_le
      split: if_splits fin_event.splits)

lemma repair_or_wait_served:
  assumes "finalizer_inv M s" and "\<not> commits i"
    and "repair_or_wait i next s = (Ok (s', es) :: ('e, _) outcome)"
  shows "served (fz_last_indexed s) (waiters (fz_pending s) + pass_requests i) es
           (waiters (fz_pending s'))"
proof (cases "fi_repaired i \<or> fi_event i = NewBlock")
  case True
  then have "pass_requests i = {#}" "s' = s" "woken es = {#}"
    using assms(3) by (auto simp: pass_requests_def repair_or_wait_eq split: if_splits)
  then show ?thesis by (simp add: served_none)
next
  case False
  then obtain h c where ev: "fi_event i = HeightRequest h c" "\<not> fi_repaired i"
    using assms(3) by (cases "fi_event i") (auto simp: repair_or_wait_eq)
  then have rq: "pass_requests i = {#(h, c)#}" using assms(2) by (simp add: pass_requests_def)
  have keys: "strict_keys (fz_pending s)" using assms(1) by (simp add: finalizer_inv_def)
  show ?thesis
  proof (cases "h \<le> fz_last_indexed s")
    case True
    then have "s' = s" "es = [AskRepair next, Wake c]"
      using assms(3) ev by (auto simp: repair_or_wait_eq)
    then show ?thesis
      using True unfolding served_def rq by (intro exI [of _ "{#(h, c)#}"]) simp
  next
    case False
    then have "s' = s\<lparr>fz_pending := register h c (fz_pending s)\<rparr>" "woken es = {#}"
      using assms(3) ev by (auto simp: repair_or_wait_eq)
    then show ?thesis
      using served_none [of es] keys by (simp add: rq heights.waiting_reg)
  qed
qed

lemma finalizer_pass_Ok:
  assumes "finalizer_pass pr M i s = (Ok (s', es) :: ('e, _) outcome)"
    and "unat (fz_last_indexed s) < 2 ^ 64 - 1"
  defines "next \<equiv> fz_last_indexed s + 1"
  obtains (commit) b es' where "fi_block i = Some b" "commits i"
      "commit_block pr M (fi_engine i) next b s = (Ok (s', es') :: ('e, _) outcome)"
      "es = AskBlock next # CheckPayload b # es'"
  | (idle) es' pre where "\<not> commits i"
      "repair_or_wait i next s = (Ok (s', es') :: ('e, _) outcome)" "es = pre @ es'"
      "woken pre = {#}" "processed_heights pre = []"
proof (cases "fi_block i")
  case None
  then have "\<not> commits i" by (simp add: commits_def)
  moreover from assms None obtain es' where 
      "repair_or_wait i next s = (Ok (s', es') :: ('e, _) outcome)" "es = AskBlock next # es'"
    by (auto simp: finalizer_pass_eq outcome_simps add_ovf_Suc_u64)
  ultimately show thesis using idle [of es' "[AskBlock next]"] by simp
next
  case (Some b)
  with assms obtain v where v: "new_payload_v4 (fi_engine i) (b_payload b) [] ones32 (b_requests b) = Some v"
    by (auto simp: finalizer_pass_eq check_payload_def outcome_simps add_ovf_Suc_u64)
  then have cp: "check_payload (fi_engine i) b = Ok v" by (simp add: check_payload_def)
  show thesis
  proof (cases v)
    case True
    with v Some have "commits i" by (simp add: commits_def)
    moreover from assms Some True obtain es' where
      "commit_block pr M (fi_engine i) next b s = (Ok (s', es') :: ('e, _) outcome)"
      "es = AskBlock next # CheckPayload b # es'"
      by (auto simp: finalizer_pass_eq cp outcome_simps add_ovf_Suc_u64)
    ultimately show thesis using commit [of b es'] Some by blast
  next
    case False
    have "\<not> commits i" using v Some False by (simp add: commits_def)
    moreover from assms Some False obtain es' where
      "repair_or_wait i next s = (Ok (s', es') :: ('e, _) outcome)" "es = AskBlock next # CheckPayload b # es'"
      by (auto simp: finalizer_pass_eq cp outcome_simps add_ovf_Suc_u64)
    ultimately show thesis using idle [of es' "[AskBlock next, CheckPayload b]"] by simp
  qed
qed

end
