(* ===== verification/Finalizer_Properties.thy ===== *)
theory Finalizer_Properties
  imports Finalizer Inline_Api
begin

text \<open>
  What the finalizer guarantees over a run: it commits exactly the consecutive heights the execution
  client validates, its durable height is the committed one, every waiter is woken once its height is
  reached and never before, and what a restart finds.
\<close>

section \<open>A concrete surrounding\<close>

text \<open>
  A metadata store with a memory and a disk copy, and an execution client that finds every payload
  valid; for the witnesses.
\<close>

type_synonym two_copies = "(byte \<rightharpoonup> u64) \<times> (byte \<rightharpoonup> u64)"

definition two_copy_store :: "two_copies metadata_api" where
  "two_copy_store =
     \<lparr>md_get = (\<lambda>m. fst m), md_put = (\<lambda>k v m. ((fst m)(k \<mapsto> v), snd m)),
      md_sync = (\<lambda>m. Some (fst m, fst m)), md_reopen = (\<lambda>m. (snd m, snd m))\<rparr>"

lemma two_copy_laws [simp]: "metadata_laws two_copy_store"
  by (simp add: metadata_laws_def two_copy_store_def)

definition accepting_engine :: engine_api where
  "accepting_engine =
     \<lparr>fork_choice_updated_v3 = (\<lambda>_ _. Some (Some 1)),
      get_payload_v4 = (\<lambda>_. Some \<lparr>pe_execution_payload = sample_payload, pe_execution_requests = [],
                                    pe_block_value = 0\<rparr>),
      new_payload_v4 = (\<lambda>_ _ _ _. Some True)\<rparr>"

lemma accepting_responsive [simp]: "responsive accepting_engine"
  by (simp add: responsive_def accepting_engine_def)

definition new_store :: two_copies where
  "new_store = (Map.empty, Map.empty)"

abbreviation fresh_finalizer :: "(nat, two_copies) finalizer" where
  "fresh_finalizer \<equiv> finalizer_new two_copy_store (md_reopen two_copy_store new_store) (forkchoice_at 7)"

text \<open>A pass that commits a block, and one that takes a request for a height.\<close>

definition commit_input :: "nat fin_input" where
  "commit_input = \<lparr>fi_block = Some sample_block, fi_engine = accepting_engine, fi_repaired = False,
                   fi_event = NewBlock\<rparr>"

definition request_input :: "u64 \<Rightarrow> nat \<Rightarrow> nat fin_input" where
  "request_input h c = \<lparr>fi_block = None, fi_engine = accepting_engine, fi_repaired = False,
                        fi_event = HeightRequest h c\<rparr>"

lemmas finalizer_evals = finalizer_new_def two_copy_store_def new_store_def notifier_new_def
  finalizer_pass_eq repair_or_wait_eq commit_block_def engine_call_defs accepting_engine_def
  notify_up_to_def register_def commit_input_def request_input_def split_off_def Let_def

lemma add_one_evals:
  "add_ovf pr (0 :: u64) 1 = Ok 1" "add_ovf pr (1 :: u64) 1 = Ok 2"
  by (simp_all add: add_ovf_def)

section \<open>One pass\<close>

lemma finalizer_pass_effect:
  assumes "metadata_laws M" and "finalizer_inv M s" and "unat (fz_last_indexed s) < 2 ^ 64 - 2"
    and "finalizer_pass pr M i s = (Ok (s', es) :: ('e, _) outcome)"
  shows "finalizer_inv M s'"
    and "unat (fz_last_indexed s') = unat (fz_last_indexed s) + (if commits i then 1 else 0)"
    and "processed_heights es = (if commits i then [fz_last_indexed s'] else [])"
    and "fz_forkchoice s' = (if commits i then forkchoice_at (eth_block_hash (the (fi_block i)))
                             else fz_forkchoice s)"
    and "served (fz_last_indexed s') (waiters (fz_pending s) + pass_requests i) es
           (waiters (fz_pending s'))"
proof -
  let ?next = "fz_last_indexed s + 1"
  have room: "unat (fz_last_indexed s) < 2 ^ 64 - 1" using assms(3) by simp
  have nx: "unat ?next = Suc (unat (fz_last_indexed s))" by (rule unat_Suc_u64 [OF room])
  from assms(4) room
  have "finalizer_inv M s' \<and>
      unat (fz_last_indexed s') = unat (fz_last_indexed s) + (if commits i then 1 else 0) \<and>
      processed_heights es = (if commits i then [fz_last_indexed s'] else []) \<and>
      fz_forkchoice s' = (if commits i then forkchoice_at (eth_block_hash (the (fi_block i)))
                             else fz_forkchoice s) \<and>
      served (fz_last_indexed s') (waiters (fz_pending s) + pass_requests i) es
           (waiters (fz_pending s'))"
  proof (cases rule: finalizer_pass_Ok)
    case (commit b es')
    have "unat ?next < 2 ^ 64 - 1" using nx assms(3) by simp
    note c = commit_block_Ok [OF assms(1,2) this commit(3)]
    have "pass_requests i = {#}" using commit(2) by (simp add: pass_requests_def)
    then show ?thesis
      using c commit nx served_prefix [OF c(4), of "[AskBlock ?next, CheckPayload b]"] by simp
  next
    case (idle es' pre)
    note r = repair_or_wait_inv [OF assms(2) idle(2)]
    show ?thesis
      using r idle served_prefix [OF repair_or_wait_served [OF assms(2) idle(1,2)] idle(4)] by simp
  qed
  then show "finalizer_inv M s'"
    "unat (fz_last_indexed s') = unat (fz_last_indexed s) + (if commits i then 1 else 0)"
    "processed_heights es = (if commits i then [fz_last_indexed s'] else [])"
    "fz_forkchoice s' = (if commits i then forkchoice_at (eth_block_hash (the (fi_block i)))
                             else fz_forkchoice s)"
    "served (fz_last_indexed s') (waiters (fz_pending s) + pass_requests i) es
           (waiters (fz_pending s'))" by blast+
qed

section \<open>Runs\<close>

lemma finalizer_run_effect:
  assumes "metadata_laws M" and "finalizer_inv M s"
    and "unat (fz_last_indexed s) + length is < 2 ^ 64 - 1"
    and "finalizer_run pr M is s = (Ok (s', es) :: ('e, _) outcome)"
  shows "finalizer_inv M s' \<and>
     unat (fz_last_indexed s') = unat (fz_last_indexed s) + length (filter commits is) \<and>
     processed_heights es
       = map word_of_nat [Suc (unat (fz_last_indexed s)) ..< Suc (unat (fz_last_indexed s'))] \<and>
     served (fz_last_indexed s') (waiters (fz_pending s) + sum_list (map pass_requests is)) es
       (waiters (fz_pending s'))"
  using assms
proof (induction "is" arbitrary: s es)
  case Nil
  then show ?case by (simp add: served_none)
next
  case (Cons i "is")
  from Cons.prems(4) obtain s1 es1 es2 where
    p: "finalizer_pass pr M i s = (Ok (s1, es1) :: ('e, _) outcome)" and
    r: "finalizer_run pr M is s1 = (Ok (s', es2) :: ('e, _) outcome)" and es: "es = es1 @ es2"
    by (auto simp: outcome_simps)
  have "unat (fz_last_indexed s) < 2 ^ 64 - 2" using Cons.prems(3) by simp
  note pe = finalizer_pass_effect [OF assms(1) Cons.prems(2) this p]
  have "unat (fz_last_indexed s1) + length is < 2 ^ 64 - 1"
    using pe(2) Cons.prems(3) by (simp split: if_splits)
  note IH = Cons.IH [OF assms(1) pe(1) this r]
  let ?a = "unat (fz_last_indexed s)" and ?b = "unat (fz_last_indexed s1)"
    and ?c = "unat (fz_last_indexed s')"
  have bc: "?b \<le> ?c" using IH by simp
  have "processed_heights es = map word_of_nat [Suc ?a ..< Suc ?c]"
  proof (cases "commits i")
    case True
    then have b: "?b = Suc ?a" "processed_heights es1 = [fz_last_indexed s1]"
      using pe(2,3) by simp_all
    have "[Suc ?a ..< Suc ?c] = ?b # [Suc ?b ..< Suc ?c]"
      using bc b(1) by (simp add: upt_conv_Cons)
    then show ?thesis using IH b(2) by (simp add: es)
  next
    case False
    then show ?thesis using pe(2,3) IH by (simp add: es)
  qed
  moreover have "served (fz_last_indexed s')
      (waiters (fz_pending s) + pass_requests i + sum_list (map pass_requests is)) es
      (waiters (fz_pending s'))"
    using bc IH unfolding es by (intro served_trans [OF pe(5)]) (simp_all add: word_le_nat_alt)
  ultimately show ?case
    using IH pe(2) by (simp add: add.assoc)
qed

text \<open>
  C5. The finalizer commits heights in order and without a gap: over any run the heights it reports
  as processed are exactly those after its starting height up to its final one, one per pass whose
  block the execution client validated, and the final height is the one a restart reads back.
\<close>

theorem finalizer_commits_consecutive:
  assumes "metadata_laws M" and "finalizer_inv M s"
    and "unat (fz_last_indexed s) + length is < 2 ^ 64 - 1"
    and "finalizer_run pr M is s = Ok (s', es)"
  shows "unat (fz_last_indexed s') = unat (fz_last_indexed s) + length (filter commits is) \<and>
         processed_heights es
           = map word_of_nat [Suc (unat (fz_last_indexed s)) ..< Suc (unat (fz_last_indexed s'))] \<and>
         fz_last_indexed (finalizer_new M (md_reopen M (fz_metadata s')) fc) = fz_last_indexed s'"
proof -
  note r = finalizer_run_effect [OF assms]
  then have "stored_height M (md_reopen M (fz_metadata s')) = fz_last_indexed s'"
    by (simp add: finalizer_inv_def)
  with r show ?thesis by (simp add: finalizer_new_def stored_height_def)
qed

theorem finalizer_commits_consecutive_witness:
  "\<exists>s' es. finalizer_run Debug two_copy_store [request_input 1 5, commit_input] fresh_finalizer
       = (Ok (s', es) :: (unit, _) outcome) \<and>
     processed_heights es = [1] \<and> fz_last_indexed s' = 1"
proof -
  obtain s' es where run: "finalizer_run Debug two_copy_store [request_input 1 5, commit_input]
      fresh_finalizer = (Ok (s', es) :: (unit, _) outcome)"
    by (simp add: finalizer_evals add_one_evals)
  have z: "fz_last_indexed fresh_finalizer = 0"
    by (simp add: finalizer_new_def two_copy_store_def new_store_def)
  have c: "filter commits [request_input 1 5, commit_input] = [commit_input]"
    by (simp add: commits_def commit_input_def request_input_def accepting_engine_def)
  have room: "unat (fz_last_indexed fresh_finalizer) + length [request_input 1 5, commit_input] < 2 ^ 64 - 1"
    by (simp add: z)
  note props = finalizer_commits_consecutive [OF two_copy_laws finalizer_inv_new [OF two_copy_laws] room run,
      of "forkchoice_at 0"]
  have "unat (fz_last_indexed s') = 1"
    using conjunct1 [OF props] by (simp only: z c) simp
  moreover have "processed_heights es = map word_of_nat [Suc 0 ..< Suc (unat (fz_last_indexed s'))]"
    using conjunct1 [OF conjunct2 [OF props]] by (simp only: z unsigned_0)
  ultimately show ?thesis using run by (auto simp: word_unat_eq_iff)
qed

text \<open>
  C13. Waiters: over any run of a fresh finalizer, the requests taken from the mailbox are the waiters
  woken plus those still registered; every one still registered asks for a height not yet reached,
  and nobody is woken before the height asked for.
\<close>

theorem waiters_neither_lost_nor_early:
  fixes s' :: "('c, 'm) finalizer"
  assumes "metadata_laws M"
    and "finalizer_run pr M is (finalizer_new M (md_reopen M m) fc) = Ok (s', es)"
    and "unat (stored_height M (md_reopen M m)) + length is < 2 ^ 64 - 1"
  shows "\<exists>W. sum_list (map pass_requests is) = W + waiters (fz_pending s') \<and>
             image_mset snd W = woken es \<and>
             (\<forall>w \<in># W. fst w \<le> fz_last_indexed s') \<and>
             (\<forall>w \<in># waiters (fz_pending s'). fz_last_indexed s' < fst w)"
proof -
  let ?s = "finalizer_new M (md_reopen M m) fc :: ('c, 'm) finalizer"
  have last: "fz_last_indexed ?s = stored_height M (md_reopen M m)"
    by (simp add: finalizer_new_def stored_height_def)
  from finalizer_run_effect [OF assms(1) finalizer_inv_new [OF assms(1)] _ assms(2)] assms(3)
  have inv: "finalizer_inv M s'" and
    sv: "served (fz_last_indexed s') (waiters (fz_pending ?s) + sum_list (map pass_requests is)) es
       (waiters (fz_pending s'))"
    by (simp_all add: last)
  have "waiters (fz_pending ?s) = {#}" by (simp add: finalizer_new_def notifier_new_def)
  with sv have "served (fz_last_indexed s') (sum_list (map pass_requests is)) es (waiters (fz_pending s'))"
    by simp
  then obtain W where "sum_list (map pass_requests is) = W + waiters (fz_pending s')"
    "image_mset snd W = woken es" "\<forall>w \<in># W. fst w \<le> fz_last_indexed s'"
    by (auto simp: served_def)
  with inv show ?thesis by (auto simp: finalizer_inv_def heights.all_above_def)
qed

theorem waiters_neither_lost_nor_early_witness:
  "\<exists>(s' :: (nat, two_copies) finalizer) es W.
     finalizer_run Debug two_copy_store [request_input 1 5, request_input 9 6, commit_input] fresh_finalizer
       = (Ok (s', es) :: (unit, _) outcome) \<and>
     {#(1, 5), (9, 6)#} = W + waiters (fz_pending s') \<and> image_mset snd W = woken es"
proof -
  obtain s' es where run: "finalizer_run Debug two_copy_store
      [request_input 1 5, request_input 9 6, commit_input] fresh_finalizer
      = (Ok (s', es) :: (unit, _) outcome)"
    by (simp add: finalizer_evals add_one_evals)
  have room: "unat (stored_height two_copy_store (md_reopen two_copy_store new_store))
      + length [request_input 1 5, request_input 9 6, commit_input] < 2 ^ 64 - 1"
    by (simp add: stored_height_def two_copy_store_def new_store_def)
  have "sum_list (map pass_requests [request_input 1 5, request_input 9 6, commit_input]) = {#(1, 5), (9, 6)#}"
    by (simp add: pass_requests_def commits_def commit_input_def request_input_def accepting_engine_def)
  with waiters_neither_lost_nor_early [OF two_copy_laws run room] run show ?thesis by auto
qed

end
