(* ===== verification/Archive.thy ===== *)
theory Archive
  imports Block_Codec
begin

text \<open>
  The archives of \<open>commonware_storage\<close> in which the syncer keeps blocks and certificates: values
  stored under an index (a view or a height) and a key (a digest). The library is a parameter: its
  operations are the fields of \<open>archive_api\<close>, its documentation is \<open>archive_laws\<close>. The theory adds
  what the syncer needs of any archive that keeps to it, and an instance for concrete runs.
\<close>

section \<open>Interface\<close>

text \<open>
  What an archive holds, and whatever else the library keeps about it (\<open>'h\<close>: sections, journals,
  the index it has pruned to).
\<close>

record ('v, 'h) archive =
  ar_entries :: "(u64 \<times> digest \<times> 'v) list"
  ar_hidden :: 'h

datatype put_error = AlreadyPrunedTo u64 | StorageError

text \<open>
  \<open>get\<close> by \<open>Identifier::Index\<close> and by \<open>Identifier::Key\<close>, \<open>put\<close>, \<open>prune\<close> and \<open>next_gap\<close>; \<open>None\<close>
  from an outer option is a storage error.
\<close>

record ('v, 'h) archive_api =
  ar_get_index :: "('v, 'h) archive \<Rightarrow> u64 \<Rightarrow> 'v option option"
  ar_get_key :: "('v, 'h) archive \<Rightarrow> digest \<Rightarrow> 'v option option"
  ar_put :: "u64 \<Rightarrow> digest \<Rightarrow> 'v \<Rightarrow> ('v, 'h) archive \<Rightarrow> put_error + ('v, 'h) archive"
  ar_prune :: "u64 \<Rightarrow> ('v, 'h) archive \<Rightarrow> ('v, 'h) archive option"
  ar_next_gap :: "('v, 'h) archive \<Rightarrow> u64 \<Rightarrow> u64 option \<times> u64 option"

definition held :: "('v, 'h) archive \<Rightarrow> u64 \<Rightarrow> (digest \<times> 'v) option" where
  "held a i = map_of (ar_entries a) i"

text \<open>The first index of a run of consecutive indexes that starts after \<open>i\<close>.\<close>

definition run_start :: "('v, 'h) archive \<Rightarrow> u64 \<Rightarrow> u64 \<Rightarrow> bool" where
  "run_start a i s \<longleftrightarrow> i < s \<and> held a s \<noteq> None \<and> held a (s - 1) = None"

text \<open>
  The documentation. A read gives what is stored; by key, some value stored under it. A put does
  nothing when the index is taken and stores the value otherwise. Pruning keeps every index at or
  above the bound and invents nothing. The second component of \<open>next_gap\<close> is the start of the first
  run after the index.
\<close>

definition archive_laws :: "('v, 'h) archive_api \<Rightarrow> bool" where
  "archive_laws R \<longleftrightarrow>
     (\<forall>a i r. ar_get_index R a i = Some r \<longrightarrow> r = map_option snd (held a i)) \<and>
     (\<forall>a d v. ar_get_key R a d = Some (Some v) \<longrightarrow> (\<exists>i. held a i = Some (d, v))) \<and>
     (\<forall>a d i v. ar_get_key R a d = Some None \<longrightarrow> held a i \<noteq> Some (d, v)) \<and>
     (\<forall>a i d v a'. ar_put R i d v a = Inr a' \<longrightarrow>
        held a' = (if held a i = None then (held a)(i \<mapsto> (d, v)) else held a)) \<and>
     (\<forall>a m a' i. ar_prune R m a = Some a' \<longrightarrow>
        held a' i = held a i \<or> i < m \<and> held a' i = None) \<and>
     (\<forall>a i. case snd (ar_next_gap R a i) of
          None \<Rightarrow> \<forall>s. \<not> run_start a i s
        | Some s \<Rightarrow> run_start a i s \<and> (\<forall>s'. run_start a i s' \<longrightarrow> s \<le> s'))"

definition no_storage_error :: "('v, 'h) archive_api \<Rightarrow> bool" where
  "no_storage_error R \<longleftrightarrow>
     (\<forall>a i. ar_get_index R a i \<noteq> None) \<and> (\<forall>a d. ar_get_key R a d \<noteq> None) \<and>
     (\<forall>i d v a. ar_put R i d v a \<noteq> Inl StorageError) \<and> (\<forall>m a. ar_prune R m a \<noteq> None)"

lemma get_key_held:
  "archive_laws R \<Longrightarrow> ar_get_key R a d = Some (Some v) \<Longrightarrow> \<exists>i. held a i = Some (d, v)"
  by (simp add: archive_laws_def)

lemma get_key_missing:
  "archive_laws R \<Longrightarrow> ar_get_key R a d = Some None \<Longrightarrow> held a i \<noteq> Some (d, v)"
  by (simp add: archive_laws_def)

lemma get_index_held:
  "archive_laws R \<Longrightarrow> ar_get_index R a i = Some r \<Longrightarrow> r = map_option snd (held a i)"
  by (simp add: archive_laws_def)

lemma put_held:
  "archive_laws R \<Longrightarrow> ar_put R i d v a = Inr a' \<Longrightarrow>
     held a' = (if held a i = None then (held a)(i \<mapsto> (d, v)) else held a)"
  by (simp add: archive_laws_def)

lemma prune_held:
  "archive_laws R \<Longrightarrow> ar_prune R m a = Some a' \<Longrightarrow> held a' i = held a i \<or> i < m \<and> held a' i = None"
  unfolding archive_laws_def by blast

lemma next_gap_Some:
  assumes "archive_laws R" and "snd (ar_next_gap R a i) = Some s"
  shows "run_start a i s" and "run_start a i s' \<Longrightarrow> s \<le> s'"
proof -
  have "case snd (ar_next_gap R a i) of None \<Rightarrow> \<forall>s. \<not> run_start a i s
        | Some s \<Rightarrow> run_start a i s \<and> (\<forall>s'. run_start a i s' \<longrightarrow> s \<le> s')"
    using assms(1) by (simp add: archive_laws_def)
  then show "run_start a i s" "run_start a i s' \<Longrightarrow> s \<le> s'"
    by (simp_all add: assms(2))
qed

lemma next_gap_None:
  assumes "archive_laws R" and "snd (ar_next_gap R a i) = None"
  shows "\<not> run_start a i s"
proof -
  have "case snd (ar_next_gap R a i) of None \<Rightarrow> \<forall>s. \<not> run_start a i s
        | Some s \<Rightarrow> run_start a i s \<and> (\<forall>s'. run_start a i s' \<longrightarrow> s \<le> s')"
    using assms(1) by (simp add: archive_laws_def)
  then show ?thesis by (simp add: assms(2))
qed

lemma no_storage_errorD:
  assumes "no_storage_error R"
  shows "\<exists>r. ar_get_index R a i = Some r" and "\<exists>r. ar_get_key R a d = Some r"
    and "\<exists>a'. ar_prune R m a = Some a'"
proof -
  have "ar_get_index R a i \<noteq> None" "ar_get_key R a d \<noteq> None" "ar_prune R m a \<noteq> None"
    using assms by (simp_all add: no_storage_error_def)
  then show "\<exists>r. ar_get_index R a i = Some r" "\<exists>r. ar_get_key R a d = Some r"
    "\<exists>a'. ar_prune R m a = Some a'" by auto
qed

text \<open>An archive that is never pruned has no reason to refuse an index.\<close>

definition never_refuses :: "('v, 'h) archive_api \<Rightarrow> bool" where
  "never_refuses R \<longleftrightarrow> (\<forall>i d v a. \<exists>a'. ar_put R i d v a = Inr a')"

section \<open>What holds of every entry\<close>

definition all_held :: "(u64 \<Rightarrow> digest \<Rightarrow> 'v \<Rightarrow> bool) \<Rightarrow> ('v, 'h) archive \<Rightarrow> bool" where
  "all_held P a \<longleftrightarrow> (\<forall>i d v. held a i = Some (d, v) \<longrightarrow> P i d v)"

lemma all_heldD: "all_held P a \<Longrightarrow> held a i = Some (d, v) \<Longrightarrow> P i d v"
  by (simp add: all_held_def)

lemma all_held_put:
  "archive_laws R \<Longrightarrow> all_held P a \<Longrightarrow> P i d v \<Longrightarrow> ar_put R i d v a = Inr a' \<Longrightarrow> all_held P a'"
  by (auto simp: all_held_def dest!: put_held split: if_splits)

lemma all_held_prune:
  "archive_laws R \<Longrightarrow> all_held P a \<Longrightarrow> ar_prune R m a = Some a' \<Longrightarrow> all_held P a'"
  unfolding all_held_def by (metis option.distinct(1) prune_held)

lemma all_held_key:
  "archive_laws R \<Longrightarrow> all_held P a \<Longrightarrow> ar_get_key R a d = Some (Some v) \<Longrightarrow> \<exists>i. P i d v"
  using get_key_held all_heldD by metis

lemma all_held_index:
  assumes "archive_laws R" and "all_held P a" and "ar_get_index R a i = Some (Some v)"
  shows "\<exists>d. held a i = Some (d, v) \<and> P i d v"
proof -
  from get_index_held [OF assms(1,3)] obtain d where "held a i = Some (d, v)"
    by (cases "held a i") auto
  with assms(2) show ?thesis by (blast dest: all_heldD)
qed

section \<open>Growth\<close>

text \<open>What an archive that is never pruned guarantees over time: nothing is lost or replaced.\<close>

definition grows :: "('v, 'h) archive \<Rightarrow> ('v, 'h) archive \<Rightarrow> bool" where
  "grows a a' \<longleftrightarrow> held a \<subseteq>\<^sub>m held a'"

lemma grows_refl [simp]: "grows a a"
  by (simp add: grows_def)

lemma grows_trans: "grows a b \<Longrightarrow> grows b c \<Longrightarrow> grows a c"
  by (auto simp: grows_def intro: map_le_trans)

lemma grows_put: "archive_laws R \<Longrightarrow> ar_put R i d v a = Inr a' \<Longrightarrow> grows a a'"
  by (auto simp: grows_def map_le_def dest!: put_held)

lemma growsD: "grows a a' \<Longrightarrow> held a i = Some x \<Longrightarrow> held a' i = Some x"
  by (auto simp: grows_def map_le_def dom_def)

section \<open>An instance\<close>

text \<open>
  A list of entries and the index pruned to. Every operation evaluates; \<open>next_gap\<close> takes the least
  entry after the index whose predecessor is missing.
\<close>

definition list_archive_gap :: "('v, u64) archive \<Rightarrow> u64 \<Rightarrow> u64 option" where
  "list_archive_gap a i =
     (let starts = filter (\<lambda>s. i < s \<and> held a (s - 1) = None) (map fst (ar_entries a))
      in if starts = [] then None else Some (Min (set starts)))"

definition list_archive :: "('v, u64) archive_api" where
  "list_archive =
     \<lparr>ar_get_index = (\<lambda>a i. Some (map_option snd (held a i))),
      ar_get_key = (\<lambda>a d. Some (map_option (snd \<circ> snd)
        (find (\<lambda>(i, d', v). d' = d \<and> held a i = Some (d', v)) (ar_entries a)))),
      ar_put = (\<lambda>i d v a.
        if i < ar_hidden a then Inl (AlreadyPrunedTo (ar_hidden a))
        else if held a i = None then Inr (a\<lparr>ar_entries := (i, d, v) # ar_entries a\<rparr>) else Inr a),
      ar_prune = (\<lambda>m a. Some \<lparr>ar_entries = filter (\<lambda>e. m \<le> fst e) (ar_entries a),
                              ar_hidden = max m (ar_hidden a)\<rparr>),
      ar_next_gap = (\<lambda>a i. (None, list_archive_gap a i))\<rparr>"

definition empty_archive :: "('v, u64) archive" where
  "empty_archive = \<lparr>ar_entries = [], ar_hidden = 0\<rparr>"

lemma held_Cons: "held (a\<lparr>ar_entries := (i, d, v) # es\<rparr>) = (map_of es)(i \<mapsto> (d, v))"
  by (simp add: held_def fun_eq_iff)

lemma held_filter: "held \<lparr>ar_entries = filter (\<lambda>e. m \<le> fst e) es, ar_hidden = h\<rparr> i
  = (if m \<le> i then map_of es i else None)"
  by (induction es) (auto simp: held_def)

lemma held_in_entries: "held a i = Some (d, v) \<Longrightarrow> (i, d, v) \<in> set (ar_entries a)"
  by (simp add: held_def map_of_SomeD)

lemma held_None_iff: "held a i = None \<longleftrightarrow> i \<notin> fst ` set (ar_entries a)"
  by (simp add: held_def map_of_eq_None_iff)

lemma list_archive_starts:
  "{s. run_start a i s} = set (filter (\<lambda>s. i < s \<and> held a (s - 1) = None) (map fst (ar_entries a)))"
  using held_None_iff [of a] by (auto simp: run_start_def)

lemma list_archive_gap_laws:
  "case list_archive_gap a i of None \<Rightarrow> \<forall>s. \<not> run_start a i s
     | Some s \<Rightarrow> run_start a i s \<and> (\<forall>s'. run_start a i s' \<longrightarrow> s \<le> s')"
proof -
  let ?S = "filter (\<lambda>s. i < s \<and> held a (s - 1) = None) (map fst (ar_entries a))"
  have S: "run_start a i s \<longleftrightarrow> s \<in> set ?S" for s
    using list_archive_starts [of a i] by blast
  show ?thesis
  proof (cases "?S = []")
    case True
    then show ?thesis using S by (simp add: list_archive_gap_def Let_def)
  next
    case False
    then have "Min (set ?S) \<in> set ?S" by (intro Min_in) (simp_all only: finite_set set_empty2 set_empty, simp)
    with False show ?thesis using S Min_le [of "set ?S"]
      unfolding list_archive_gap_def Let_def by (simp only: if_False option.case) blast
  qed
qed

lemma list_archive_find:
  "find (\<lambda>(i, d', v). d' = d \<and> held a i = Some (d', v)) (ar_entries a) = Some (i, d', v) \<Longrightarrow>
     d' = d \<and> held a i = Some (d, v)"
  "find (\<lambda>(i, d', v). d' = d \<and> held a i = Some (d', v)) (ar_entries a) = None \<Longrightarrow>
     held a i \<noteq> Some (d, v)"
  by (auto simp: find_Some_iff find_None_iff dest: held_in_entries nth_mem)

lemma list_archive_laws [simp]: "archive_laws list_archive"
  unfolding archive_laws_def
proof (intro conjI allI impI)
  fix a :: "('a, u64) archive" and d v
  assume "ar_get_key list_archive a d = Some (Some v)"
  then show "\<exists>i. held a i = Some (d, v)"
    by (auto simp: list_archive_def dest: list_archive_find(1))
next
  fix a :: "('a, u64) archive" and d i v
  assume "ar_get_key list_archive a d = Some None"
  then show "held a i \<noteq> Some (d, v)"
    by (simp add: list_archive_def list_archive_find(2))
next
  fix a a' :: "('a, u64) archive" and i d v
  assume "ar_put list_archive i d v a = Inr a'"
  then show "held a' = (if held a i = None then (held a)(i \<mapsto> (d, v)) else held a)"
    by (auto simp: list_archive_def held_Cons held_def [abs_def] split: if_splits)
next
  fix a a' :: "('a, u64) archive" and m i
  assume "ar_prune list_archive m a = Some a'"
  then have "a' = \<lparr>ar_entries = filter (\<lambda>e. m \<le> fst e) (ar_entries a), ar_hidden = max m (ar_hidden a)\<rparr>"
    by (simp add: list_archive_def)
  then show "held a' i = held a i \<or> i < m \<and> held a' i = None"
    by (simp only: held_filter) (auto simp: held_def)
next
  fix a :: "('a, u64) archive" and i
  show "case snd (ar_next_gap list_archive a i) of None \<Rightarrow> \<forall>s. \<not> run_start a i s
     | Some s \<Rightarrow> run_start a i s \<and> (\<forall>s'. run_start a i s' \<longrightarrow> s \<le> s')"
    using list_archive_gap_laws [of a i] by (simp add: list_archive_def)
qed (simp add: list_archive_def)

lemma list_archive_no_error [simp]: "no_storage_error list_archive"
  by (simp add: no_storage_error_def list_archive_def)

text \<open>The same list as an immutable archive: every index is accepted.\<close>

definition fixed_archive :: "('v, u64) archive_api" where
  "fixed_archive = list_archive
     \<lparr>ar_put := (\<lambda>i d v a.
        if held a i = None then Inr (a\<lparr>ar_entries := (i, d, v) # ar_entries a\<rparr>) else Inr a)\<rparr>"

lemma fixed_archive_laws [simp]: "archive_laws fixed_archive"
proof -
  have put: "held a' = (if held a i = None then (held a)(i \<mapsto> (d, v)) else held a)"
    if "ar_put fixed_archive i d v a = Inr a'" for a a' :: "('a, u64) archive" and i d v
    using that by (auto simp: fixed_archive_def held_Cons held_def [abs_def] split: if_splits)
  show ?thesis
    unfolding archive_laws_def
  proof (intro conjI)
    note laws = list_archive_laws [where 'a = 'a, unfolded archive_laws_def]
    show "\<forall>a i d v a'. ar_put fixed_archive i d v a = Inr a' \<longrightarrow>
        held a' = (if held a i = None then (held a)(i \<mapsto> (d, v)) else (held a :: _ \<rightharpoonup> _ \<times> 'a))"
      using put by blast
  qed (use list_archive_laws [where 'a = 'a, unfolded archive_laws_def] in \<open>simp add: fixed_archive_def\<close>)+
qed

lemma fixed_archive_never [simp]: "no_storage_error fixed_archive" "never_refuses fixed_archive"
  by (simp_all add: no_storage_error_def never_refuses_def fixed_archive_def list_archive_def)

lemma held_empty [simp]: "held empty_archive i = None"
  by (simp add: held_def empty_archive_def)

lemma all_held_empty [simp]: "all_held P empty_archive"
  by (simp add: all_held_def)

end
