(* ===== verification/Syncer.thy ===== *)
theory Syncer
  imports Archive Multi_Index
begin

text \<open>
  \<open>syncer/src/actor.rs\<close> with the messages of \<open>ingress.rs\<close> and \<open>handler.rs\<close>: the actor that stores
  blocks and certificates, finds blocks for consensus, repairs gaps in the finalized chain and
  answers other nodes. One definition per message, each a whole arm of the \<open>select!\<close>; a step takes
  the state to the next one and lists the effects in the order of the calls.
\<close>

section \<open>Messages\<close>

text \<open>A response channel is whatever identifies a one-shot sender (\<open>'r\<close>).\<close>

datatype 'r message =
    Get "u64 option" digest 'r
  | Broadcast block
  | StoreVerified u64 block
  | Finalize finalization
  | Notarize notarization

datatype 'r orchestration =
    OrchestrationGet u64 'r
  | OrchestrationProcessed u64 digest
  | OrchestrationRepair u64 'r

datatype 'r handler_message =
    Deliver multi_index bytes 'r
  | Produce multi_index 'r

text \<open>What the \<open>select!\<close> takes: the next item of one of the three mailboxes, \<open>None\<close> if it is closed.\<close>

datatype 'r sync_event =
    FromMailbox "'r message option"
  | FromOrchestrator "'r orchestration option"
  | FromHandler "'r handler_message option"

datatype 'r sync_effect =
    SendBlock 'r block
  | SendMaybeBlock 'r "block option"
  | SendBool 'r bool
  | SendBytes 'r bytes
  | Subscribe digest 'r
  | BroadcastBlock block
  | Fetch multi_index
  | Cancel multi_index
  | NotifyFinalizer

section \<open>State\<close>

record 'h syncer =
  sy_verified :: "(block, 'h) archive"
  sy_notarized :: "(notarized, 'h) archive"
  sy_finalized :: "(finalization, 'h) archive"
  sy_blocks :: "(block, 'h) archive"
  sy_activity_timeout :: u64
  sy_namespace :: bytes
  sy_identity :: bytes
  sy_latest_view :: u64
  sy_requested_blocks :: "u64 list"
  sy_last_view_processed :: u64
  sy_outstanding_notarize :: "u64 list"

text \<open>
  Third-party code: the archives, \<open>Encode::encode\<close> and \<open>Decode::decode\<close> of the codec library over
  the readers and writers of \<open>types/src/block.rs\<close>, and the certificates' \<open>verify\<close>.
\<close>

record 'h sync_api =
  verified_ar :: "(block, 'h) archive_api"
  notarized_ar :: "(notarized, 'h) archive_api"
  finalized_ar :: "(finalization, 'h) archive_api"
  blocks_ar :: "(block, 'h) archive_api"
  wire :: block_api
  encode_block :: "block \<Rightarrow> bytes"
  encode_notarized :: "notarized \<Rightarrow> bytes"
  encode_finalized :: "finalized \<Rightarrow> bytes"
  decode_block :: "bytes \<Rightarrow> (codec_error, block) outcome"
  decode_notarized :: "bytes \<Rightarrow> (codec_error, notarized) outcome"
  decode_finalized :: "bytes \<Rightarrow> (codec_error, finalized) outcome"
  verify_notarization :: "bytes \<Rightarrow> bytes \<Rightarrow> notarization \<Rightarrow> bool"
  verify_finalization :: "bytes \<Rightarrow> bytes \<Rightarrow> finalization \<Rightarrow> bool"

text \<open>
  What is around the actor while it takes a step: the blocks the broadcast buffer returns for a
  digest, and which response channels still have a receiver.
\<close>

record 'r sync_env =
  buffered :: "digest \<Rightarrow> block list"
  listening :: "'r \<Rightarrow> bool"

type_synonym ('e, 'h, 'r) sync_result = "('e, 'h syncer \<times> 'r sync_effect list) outcome"

definition syncer_new ::
  "(block, 'h) archive \<Rightarrow> (notarized, 'h) archive \<Rightarrow> (finalization, 'h) archive \<Rightarrow> (block, 'h) archive
    \<Rightarrow> u64 \<Rightarrow> bytes \<Rightarrow> bytes \<Rightarrow> 'h syncer" where
  "syncer_new verified notarized finalized blocks activity_timeout namespace identity =
     \<lparr>sy_verified = verified, sy_notarized = notarized, sy_finalized = finalized, sy_blocks = blocks,
      sy_activity_timeout = activity_timeout, sy_namespace = namespace, sy_identity = identity,
      sy_latest_view = 0, sy_requested_blocks = [], sy_last_view_processed = 0,
      sy_outstanding_notarize = []\<rparr>"

section \<open>Steps shared by the handlers\<close>

definition find_buffered :: "'r sync_env \<Rightarrow> digest \<Rightarrow> block option" where
  "find_buffered env d = (case buffered env d of [] \<Rightarrow> None | b # _ \<Rightarrow> Some b)"

definition find_verified :: "'h sync_api \<Rightarrow> string \<Rightarrow> 'h syncer \<Rightarrow> digest \<Rightarrow> ('e, block option) outcome" where
  "find_verified A msg s d = expect_some msg (ar_get_key (verified_ar A) (sy_verified s) d)"

definition find_notarized :: "'h sync_api \<Rightarrow> 'h syncer \<Rightarrow> digest \<Rightarrow> ('e, notarized option) outcome" where
  "find_notarized A s d =
     expect_some ''Failed to get notarized block'' (ar_get_key (notarized_ar A) (sy_notarized s) d)"

definition find_block :: "'h sync_api \<Rightarrow> 'h syncer \<Rightarrow> digest \<Rightarrow> ('e, block option) outcome" where
  "find_block A s d =
     expect_some ''Failed to get finalized block'' (ar_get_key (blocks_ar A) (sy_blocks s) d)"

text \<open>The next source is asked when the ones before had nothing.\<close>

fun or_else :: "('e, 'a option) outcome \<Rightarrow> ('e, 'a option) outcome \<Rightarrow> ('e, 'a option) outcome" where
  "or_else (Ok None) m = m"
| "or_else (Ok (Some x)) m = Ok (Some x)"
| "or_else (Err e) m = Err e"
| "or_else (Panic p) m = Panic p"

text \<open>\<open>put\<close> where an index below the pruned range is not a failure.\<close>

definition put_unless_pruned ::
  "string \<Rightarrow> ('v, 'h) archive_api \<Rightarrow> u64 \<Rightarrow> digest \<Rightarrow> 'v \<Rightarrow> ('v, 'h) archive \<Rightarrow> ('e, ('v, 'h) archive) outcome"
  where
  "put_unless_pruned msg R i d v a =
     (case ar_put R i d v a of
        Inr a' \<Rightarrow> Ok a'
      | Inl (AlreadyPrunedTo m) \<Rightarrow> Ok a
      | Inl StorageError \<Rightarrow> Panic (ExpectFailed msg))"

text \<open>\<open>result.send(x).expect(msg)\<close>: fails when the receiver is gone.\<close>

definition send_expect ::
  "'r sync_env \<Rightarrow> string \<Rightarrow> 'r \<Rightarrow> 'r sync_effect \<Rightarrow> ('e, 'r sync_effect) outcome" where
  "send_expect env msg r eff = (if listening env r then Ok eff else Panic (ExpectFailed msg))"

section \<open>Top of the loop\<close>

definition cancel_stale :: "'h syncer \<Rightarrow> 'h syncer \<times> 'r sync_effect list" where
  "cancel_stale s =
     (s\<lparr>sy_outstanding_notarize := filter (\<lambda>view. \<not> view < sy_latest_view s) (sy_outstanding_notarize s)\<rparr>,
      map (\<lambda>view. Cancel (multi_index_new (Notarized view)))
        (filter (\<lambda>view. view < sy_latest_view s) (sy_outstanding_notarize s)))"

section \<open>Messages from consensus and the application\<close>

definition handle_get ::
  "'h sync_api \<Rightarrow> 'r sync_env \<Rightarrow> u64 option \<Rightarrow> digest \<Rightarrow> 'r \<Rightarrow> 'h syncer \<Rightarrow> ('e, 'h, 'r) sync_result" where
  "handle_get A env view payload response s =
     and_then
       (or_else (Ok (find_buffered env payload))
       (or_else (find_verified A ''Failed to read verified block store'' s payload)
       (or_else (and_then (find_notarized A s payload) (\<lambda>n. Ok (map_option n_block n)))
                (find_block A s payload))))
       (\<lambda>found. case found of
          Some block \<Rightarrow> Ok (s, [SendBlock response block])
        | None \<Rightarrow>
            Ok (s, (case view of
                      Some v \<Rightarrow> [Fetch (multi_index_new (Notarized v))]
                    | None \<Rightarrow> []) @ [Subscribe payload response]))"

definition handle_broadcast :: "block \<Rightarrow> 'h syncer \<Rightarrow> ('e, 'h, 'r) sync_result" where
  "handle_broadcast payload s = Ok (s, [BroadcastBlock payload])"

definition handle_store_verified ::
  "'h sync_api \<Rightarrow> u64 \<Rightarrow> block \<Rightarrow> 'h syncer \<Rightarrow> ('e, 'h, 'r) sync_result" where
  "handle_store_verified A view payload s =
     and_then (put_unless_pruned ''Failed to insert verified block'' (verified_ar A)
                 view (b_digest payload) payload (sy_verified s))
       (\<lambda>a. Ok (s\<lparr>sy_verified := a\<rparr>, []))"

definition handle_finalize ::
  "'h sync_api \<Rightarrow> 'r sync_env \<Rightarrow> finalization \<Rightarrow> 'h syncer \<Rightarrow> ('e, 'h, 'r) sync_result" where
  "handle_finalize A env fin s =
     (let view = c_view fin; payload = c_payload fin in
      and_then
        (or_else (Ok (find_buffered env payload))
        (or_else (find_verified A ''Failed to get verified block'' s payload)
                 (and_then (find_notarized A s payload) (\<lambda>n. Ok (map_option n_block n)))))
        (\<lambda>found. case found of
           Some block \<Rightarrow>
             (let height = b_height block in
              and_then (expect_ok ''Failed to insert into finalization store''
                          (ar_put (finalized_ar A) height payload fin (sy_finalized s))) (\<lambda>finalized.
              and_then (expect_ok ''failed to insert into block store''
                          (ar_put (blocks_ar A) height payload block (sy_blocks s))) (\<lambda>blocks.
              let min_view = saturating_sub (sy_last_view_processed s) (sy_activity_timeout s) in
              and_then (expect_some ''Failed to prune verified blocks''
                          (ar_prune (verified_ar A) min_view (sy_verified s))) (\<lambda>verified.
              and_then (expect_some ''Failed to prune notarized blocks''
                          (ar_prune (notarized_ar A) min_view (sy_notarized s))) (\<lambda>notarized.
                Ok (s\<lparr>sy_finalized := finalized, sy_blocks := blocks, sy_verified := verified,
                      sy_notarized := notarized, sy_latest_view := view\<rparr>,
                    [NotifyFinalizer]))))))
         | None \<Rightarrow> Ok (s, [Fetch (multi_index_new (Digest payload))])))"

definition handle_notarize ::
  "'h sync_api \<Rightarrow> 'r sync_env \<Rightarrow> notarization \<Rightarrow> 'h syncer \<Rightarrow> ('e, 'h, 'r) sync_result" where
  "handle_notarize A env nota s =
     (let view = c_view nota; payload = c_payload nota in
      and_then
        (or_else (Ok (find_buffered env payload))
                 (find_verified A ''Failed to get verified block'' s payload))
        (\<lambda>found. case found of
           Some block \<Rightarrow>
             and_then (put_unless_pruned ''Failed to insert notarized block'' (notarized_ar A)
                         view payload \<lparr>n_proof = nota, n_block = block\<rparr> (sy_notarized s))
               (\<lambda>a. Ok (s\<lparr>sy_notarized := a\<rparr>, []))
         | None \<Rightarrow>
             Ok (s\<lparr>sy_outstanding_notarize := set_add view (sy_outstanding_notarize s)\<rparr>,
                 [Fetch (multi_index_new (Notarized view))])))"

fun handle_message ::
  "'h sync_api \<Rightarrow> 'r sync_env \<Rightarrow> 'r message \<Rightarrow> 'h syncer \<Rightarrow> ('e, 'h, 'r) sync_result" where
  "handle_message A env (Get view payload response) s = handle_get A env view payload response s"
| "handle_message A env (Broadcast payload) s = handle_broadcast payload s"
| "handle_message A env (StoreVerified view payload) s = handle_store_verified A view payload s"
| "handle_message A env (Finalize fin) s = handle_finalize A env fin s"
| "handle_message A env (Notarize nota) s = handle_notarize A env nota s"

section \<open>Messages from the finalizer\<close>

definition orchestrator_get ::
  "'h sync_api \<Rightarrow> 'r sync_env \<Rightarrow> u64 \<Rightarrow> 'r \<Rightarrow> 'h syncer \<Rightarrow> ('e, 'h, 'r) sync_result" where
  "orchestrator_get A env next result s =
     and_then (expect_some ''Failed to get finalized block''
                 (ar_get_index (blocks_ar A) (sy_blocks s) next)) (\<lambda>block.
     and_then (send_expect env ''Failed to send block'' result (SendMaybeBlock result block)) (\<lambda>eff.
       Ok (s, [eff])))"

definition orchestrator_processed ::
  "'h sync_api \<Rightarrow> u64 \<Rightarrow> digest \<Rightarrow> 'h syncer \<Rightarrow> ('e, 'h, 'r) sync_result" where
  "orchestrator_processed A next d s =
     and_then (expect_some ''Failed to get finalized block''
                 (ar_get_index (finalized_ar A) (sy_finalized s) next)) (\<lambda>fin.
       Ok (s\<lparr>sy_last_view_processed := (case fin of Some f \<Rightarrow> c_view f | None \<Rightarrow> sy_last_view_processed s),
             sy_requested_blocks := filter (\<lambda>height. next < height) (sy_requested_blocks s)\<rparr>,
           [Cancel (multi_index_new (Finalized next)), Cancel (multi_index_new (Digest d))]))"

text \<open>The \<open>for\<close> loop over the heights of the gap: heights already asked for are skipped.\<close>

fun request_heights :: "u64 list \<Rightarrow> u64 list \<Rightarrow> u64 list \<times> 'r sync_effect list" where
  "request_heights [] requested = (requested, [])"
| "request_heights (height # gap) requested =
     (if height \<in> set requested then request_heights gap requested
      else let (requested', es) = request_heights gap (set_add height requested)
           in (requested', Fetch (multi_index_new (Finalized height)) # es))"

text \<open>The end of the repair arm: ask for what is missing, by height, and answer \<open>false\<close>.\<close>

definition request_gap ::
  "profile \<Rightarrow> 'r sync_env \<Rightarrow> u64 \<Rightarrow> u64 \<Rightarrow> 'r \<Rightarrow> 'h syncer \<Rightarrow> ('e, 'h, 'r) sync_result" where
  "request_gap pr env next start_next result s =
     and_then (add_ovf pr next 20) (\<lambda>limit.
     let (requested, fetches) =
           request_heights (u64_range next (min start_next limit)) (sy_requested_blocks s) in
     and_then (send_expect env ''Failed to send repair result'' result (SendBool result False)) (\<lambda>eff.
       Ok (s\<lparr>sy_requested_blocks := requested\<rparr>, fetches @ [eff])))"

text \<open>A parent found in another archive is copied to the finalized blocks.\<close>

definition repair_with ::
  "'h sync_api \<Rightarrow> 'r sync_env \<Rightarrow> digest \<Rightarrow> block \<Rightarrow> 'r \<Rightarrow> 'h syncer \<Rightarrow> ('e, 'h, 'r) sync_result" where
  "repair_with A env target_block block result s =
     and_then (expect_ok ''Failed to insert finalized block''
                 (ar_put (blocks_ar A) (b_height block) target_block block (sy_blocks s))) (\<lambda>blocks.
     and_then (send_expect env ''Failed to send repair result'' result (SendBool result True)) (\<lambda>eff.
       Ok (s\<lparr>sy_blocks := blocks\<rparr>, [eff])))"

definition orchestrator_repair ::
  "profile \<Rightarrow> 'h sync_api \<Rightarrow> 'r sync_env \<Rightarrow> u64 \<Rightarrow> 'r \<Rightarrow> 'h syncer \<Rightarrow> ('e, 'h, 'r) sync_result" where
  "orchestrator_repair pr A env next result s =
     (case snd (ar_next_gap (blocks_ar A) (sy_blocks s) next) of
        None \<Rightarrow>
          and_then (send_expect env ''Failed to send repair result'' result (SendBool result False))
            (\<lambda>eff. Ok (s, [eff]))
      | Some start_next \<Rightarrow>
          if 0 < next then
            and_then (expect_some ''Failed to get finalized block''
                        (ar_get_index (blocks_ar A) (sy_blocks s) start_next)) (\<lambda>gapped.
            and_then (expect_some ''Gapped block missing'' gapped) (\<lambda>gapped_block.
            let target_block = b_parent gapped_block in
            and_then (find_verified A ''Failed to get verified block'' s target_block) (\<lambda>verified.
            case verified of
              Some block \<Rightarrow> repair_with A env target_block block result s
            | None \<Rightarrow>
                and_then (find_notarized A s target_block) (\<lambda>nota.
                case nota of
                  Some n \<Rightarrow> repair_with A env target_block (n_block n) result s
                | None \<Rightarrow>
                    and_then (request_gap pr env next start_next result s) (\<lambda>(s', es).
                      Ok (s', Fetch (multi_index_new (Digest target_block)) # es))))))
          else request_gap pr env next start_next result s)"

fun handle_orchestration ::
  "profile \<Rightarrow> 'h sync_api \<Rightarrow> 'r sync_env \<Rightarrow> 'r orchestration \<Rightarrow> 'h syncer \<Rightarrow> ('e, 'h, 'r) sync_result"
  where
  "handle_orchestration pr A env (OrchestrationGet next result) s = orchestrator_get A env next result s"
| "handle_orchestration pr A env (OrchestrationProcessed next d) s = orchestrator_processed A next d s"
| "handle_orchestration pr A env (OrchestrationRepair next result) s =
     orchestrator_repair pr A env next result s"

section \<open>Messages from the resolver\<close>

text \<open>A value received for a notarized view.\<close>

definition deliver_notarized ::
  "'h sync_api \<Rightarrow> u64 \<Rightarrow> bytes \<Rightarrow> 'r \<Rightarrow> 'h syncer \<Rightarrow> ('e, 'h, 'r) sync_result" where
  "deliver_notarized A view value response s =
     (case decode_notarized A value of
        Panic p \<Rightarrow> Panic p
      | Err e \<Rightarrow> Ok (s, [SendBool response False])
      | Ok n \<Rightarrow>
          if \<not> verify_notarization A (sy_namespace s) (sy_identity s) (n_proof n) then
            Ok (s, [SendBool response False])
          else if c_view (n_proof n) \<noteq> view then Ok (s, [SendBool response False])
          else
            and_then (put_unless_pruned ''Failed to insert notarized block'' (notarized_ar A)
                        view (b_digest (n_block n)) n (sy_notarized s))
              (\<lambda>a. Ok (s\<lparr>sy_notarized := a\<rparr>, [SendBool response True])))"

text \<open>A value received for a finalized height.\<close>

definition deliver_finalized ::
  "'h sync_api \<Rightarrow> u64 \<Rightarrow> bytes \<Rightarrow> 'r \<Rightarrow> 'h syncer \<Rightarrow> ('e, 'h, 'r) sync_result" where
  "deliver_finalized A height value response s =
     (case decode_finalized A value of
        Panic p \<Rightarrow> Panic p
      | Err e \<Rightarrow> Ok (s, [SendBool response False])
      | Ok f \<Rightarrow>
          if \<not> verify_finalization A (sy_namespace s) (sy_identity s) (f_proof f) then
            Ok (s, [SendBool response False])
          else if b_height (f_block f) \<noteq> height then Ok (s, [SendBool response False])
          else
            and_then (expect_ok ''Failed to insert finalization''
                        (ar_put (finalized_ar A) height (b_digest (f_block f)) (f_proof f)
                           (sy_finalized s))) (\<lambda>finalized.
            and_then (expect_ok ''Failed to insert finalized block''
                        (ar_put (blocks_ar A) height (b_digest (f_block f)) (f_block f)
                           (sy_blocks s))) (\<lambda>blocks.
              Ok (s\<lparr>sy_finalized := finalized, sy_blocks := blocks\<rparr>,
                  [SendBool response True, NotifyFinalizer]))))"

text \<open>A value received for a digest.\<close>

definition deliver_digest ::
  "'h sync_api \<Rightarrow> digest \<Rightarrow> bytes \<Rightarrow> 'r \<Rightarrow> 'h syncer \<Rightarrow> ('e, 'h, 'r) sync_result" where
  "deliver_digest A d value response s =
     (case decode_block A value of
        Panic p \<Rightarrow> Panic p
      | Err e \<Rightarrow> Ok (s, [SendBool response False])
      | Ok b \<Rightarrow>
          if b_digest b \<noteq> d then Ok (s, [SendBool response False])
          else
            and_then (expect_ok ''Failed to insert finalized block''
                        (ar_put (blocks_ar A) (b_height b) d b (sy_blocks s))) (\<lambda>blocks.
              Ok (s\<lparr>sy_blocks := blocks\<rparr>, [SendBool response True, NotifyFinalizer])))"

definition handle_deliver ::
  "'h sync_api \<Rightarrow> multi_index \<Rightarrow> bytes \<Rightarrow> 'r \<Rightarrow> 'h syncer \<Rightarrow> ('e, 'h, 'r) sync_result" where
  "handle_deliver A key value response s =
     and_then (to_value key) (\<lambda>v.
       case v of
         Notarized view \<Rightarrow> deliver_notarized A view value response s
       | Finalized height \<Rightarrow> deliver_finalized A height value response s
       | Digest d \<Rightarrow> deliver_digest A d value response s)"

definition produce_notarized ::
  "'h sync_api \<Rightarrow> u64 \<Rightarrow> 'r \<Rightarrow> 'h syncer \<Rightarrow> ('e, 'h, 'r) sync_result" where
  "produce_notarized A view response s =
     and_then (expect_some ''Failed to get notarized block''
                 (ar_get_index (notarized_ar A) (sy_notarized s) view)) (\<lambda>n.
       Ok (s, case n of Some nota \<Rightarrow> [SendBytes response (encode_notarized A nota)] | None \<Rightarrow> []))"

definition produce_finalized ::
  "'h sync_api \<Rightarrow> u64 \<Rightarrow> 'r \<Rightarrow> 'h syncer \<Rightarrow> ('e, 'h, 'r) sync_result" where
  "produce_finalized A height response s =
     and_then (expect_some ''Failed to get finalization''
                 (ar_get_index (finalized_ar A) (sy_finalized s) height)) (\<lambda>fin.
       case fin of
         None \<Rightarrow> Ok (s, [])
       | Some f \<Rightarrow>
           and_then (expect_some ''Failed to get finalized block''
                       (ar_get_index (blocks_ar A) (sy_blocks s) height)) (\<lambda>block.
             Ok (s, case block of
                      None \<Rightarrow> []
                    | Some b \<Rightarrow>
                        [SendBytes response (encode_finalized A \<lparr>f_proof = f, f_block = b\<rparr>)])))"

text \<open>
  The variable called \<open>block\<close> in the third source is a \<open>Notarized\<close>: certificate and block are
  encoded together.
\<close>

definition produce_digest ::
  "'h sync_api \<Rightarrow> 'r sync_env \<Rightarrow> digest \<Rightarrow> 'r \<Rightarrow> 'h syncer \<Rightarrow> ('e, 'h, 'r) sync_result" where
  "produce_digest A env d response s =
     and_then
       (or_else (Ok (map_option (encode_block A) (find_buffered env d)))
       (or_else (and_then (find_verified A ''Failed to get verified block'' s d)
                   (\<lambda>b. Ok (map_option (encode_block A) b)))
       (or_else (and_then (find_notarized A s d) (\<lambda>n. Ok (map_option (encode_notarized A) n)))
                (and_then (find_block A s d) (\<lambda>b. Ok (map_option (encode_block A) b))))))
       (\<lambda>found. Ok (s, case found of Some bs \<Rightarrow> [SendBytes response bs] | None \<Rightarrow> []))"

definition handle_produce ::
  "'h sync_api \<Rightarrow> 'r sync_env \<Rightarrow> multi_index \<Rightarrow> 'r \<Rightarrow> 'h syncer \<Rightarrow> ('e, 'h, 'r) sync_result" where
  "handle_produce A env key response s =
     and_then (to_value key) (\<lambda>v.
       case v of
         Notarized view \<Rightarrow> produce_notarized A view response s
       | Finalized height \<Rightarrow> produce_finalized A height response s
       | Digest d \<Rightarrow> produce_digest A env d response s)"

fun handle_resolver ::
  "'h sync_api \<Rightarrow> 'r sync_env \<Rightarrow> 'r handler_message \<Rightarrow> 'h syncer \<Rightarrow> ('e, 'h, 'r) sync_result" where
  "handle_resolver A env (Deliver key value response) s = handle_deliver A key value response s"
| "handle_resolver A env (Produce key response) s = handle_produce A env key response s"

section \<open>The loop\<close>

fun handle_event ::
  "profile \<Rightarrow> 'h sync_api \<Rightarrow> 'r sync_env \<Rightarrow> 'r sync_event \<Rightarrow> 'h syncer \<Rightarrow> ('e, 'h, 'r) sync_result" where
  "handle_event pr A env (FromMailbox m) s =
     and_then (expect_some ''Mailbox closed'' m) (\<lambda>msg. handle_message A env msg s)"
| "handle_event pr A env (FromOrchestrator m) s =
     and_then (expect_some ''Orchestrator closed'' m) (\<lambda>msg. handle_orchestration pr A env msg s)"
| "handle_event pr A env (FromHandler m) s =
     and_then (expect_some ''Handler closed'' m) (\<lambda>msg. handle_resolver A env msg s)"

definition sync_step ::
  "profile \<Rightarrow> 'h sync_api \<Rightarrow> 'r sync_env \<Rightarrow> 'r sync_event \<Rightarrow> 'h syncer \<Rightarrow> ('e, 'h, 'r) sync_result" where
  "sync_step pr A env ev s =
     (let (s1, es1) = cancel_stale s in
      and_then (handle_event pr A env ev s1) (\<lambda>(s2, es2). Ok (s2, es1 @ es2)))"

fun sync_run ::
  "profile \<Rightarrow> 'h sync_api \<Rightarrow> ('r sync_env \<times> 'r sync_event) list \<Rightarrow> 'h syncer \<Rightarrow> ('e, 'h, 'r) sync_result"
  where
  "sync_run pr A [] s = Ok (s, [])"
| "sync_run pr A ((env, ev) # evs) s =
     and_then (sync_step pr A env ev s) (\<lambda>(s', es).
     and_then (sync_run pr A evs s') (\<lambda>(s'', es'). Ok (s'', es @ es')))"

end
