(* ===== verification/Syncer_Invariant.thy ===== *)
theory Syncer_Invariant
  imports Syncer
begin

text \<open>
  The consistency of the syncer's four archives and its proof handler by handler: every entry is
  stored under the view or height it belongs to and under its own digest, every stored certificate
  verifies, every stored block is authentic; and the two sets of outstanding requests are in order.
\<close>

section \<open>Hypotheses about the surroundings\<close>

text \<open>
  The codec library: \<open>decode\<close> is the type's reader with nothing left over and unwinds when the reader
  does; \<open>encode\<close> is its writer into a buffer of the announced size.
\<close>

definition decodes :: "'a reader \<Rightarrow> (bytes \<Rightarrow> (codec_error, 'a) outcome) \<Rightarrow> bool" where
  "decodes rd dec \<longleftrightarrow>
     (\<forall>bs x. dec bs = Ok x \<longleftrightarrow> rd bs = Ok (x, [])) \<and> (\<forall>bs p. dec bs = Panic p \<longleftrightarrow> rd bs = Panic p)"

definition encodes :: "('a \<Rightarrow> bytes) \<Rightarrow> ('a \<Rightarrow> nat) \<Rightarrow> ('a \<Rightarrow> bytes) \<Rightarrow> bool" where
  "encodes wr sz enc \<longleftrightarrow> (\<forall>x. sz x = length (wr x) \<longrightarrow> enc x = wr x)"

definition codec_laws :: "'h sync_api \<Rightarrow> bool" where
  "codec_laws A \<longleftrightarrow>
     block_laws (wire A) \<and> cert_laws (wire A) \<and>
     decodes (block_read (wire A)) (decode_block A) \<and>
     decodes (notarized_read (wire A)) (decode_notarized A) \<and>
     decodes (finalized_read (wire A)) (decode_finalized A) \<and>
     encodes (block_write (wire A)) (block_encode_size (wire A)) (encode_block A) \<and>
     encodes (notarized_write (wire A)) (notarized_encode_size (wire A)) (encode_notarized A) \<and>
     encodes (finalized_write (wire A)) (finalized_encode_size (wire A)) (encode_finalized A)"

definition storage_laws :: "'h sync_api \<Rightarrow> bool" where
  "storage_laws A \<longleftrightarrow>
     archive_laws (verified_ar A) \<and> archive_laws (notarized_ar A) \<and>
     archive_laws (finalized_ar A) \<and> archive_laws (blocks_ar A)"

definition sync_laws :: "'h sync_api \<Rightarrow> bool" where
  "sync_laws A \<longleftrightarrow> codec_laws A \<and> storage_laws A"

lemma sync_lawsD:
  assumes "sync_laws A"
  shows "archive_laws (verified_ar A)" "archive_laws (notarized_ar A)"
    "archive_laws (finalized_ar A)" "archive_laws (blocks_ar A)"
    "block_laws (wire A)" "cert_laws (wire A)"
    "decode_block A bs = Ok b \<longleftrightarrow> block_read (wire A) bs = Ok (b, [])"
    "decode_notarized A bs = Ok n \<longleftrightarrow> notarized_read (wire A) bs = Ok (n, [])"
    "decode_finalized A bs = Ok f \<longleftrightarrow> finalized_read (wire A) bs = Ok (f, [])"
    "decode_block A bs = Panic p \<longleftrightarrow> block_read (wire A) bs = Panic p"
    "decode_notarized A bs = Panic p \<longleftrightarrow> notarized_read (wire A) bs = Panic p"
    "decode_finalized A bs = Panic p \<longleftrightarrow> finalized_read (wire A) bs = Panic p"
  using assms by (simp_all add: sync_laws_def codec_laws_def storage_laws_def decodes_def)

text \<open>The buffer returns blocks it has for the digest, as decoded or as broadcast by the node.\<close>

definition env_ok :: "'h sync_api \<Rightarrow> 'r sync_env \<Rightarrow> bool" where
  "env_ok A env \<longleftrightarrow> (\<forall>d. \<forall>b \<in> set (buffered env d). b_digest b = d \<and> authentic (wire A) b)"

text \<open>
  Consensus has checked the certificates it reports; the application stores blocks it got from the
  syncer. Nothing is assumed of what other nodes send.
\<close>

fun event_ok :: "'h sync_api \<Rightarrow> 'h syncer \<Rightarrow> 'r sync_event \<Rightarrow> bool" where
  "event_ok A s (FromMailbox (Some (StoreVerified v b))) = authentic (wire A) b"
| "event_ok A s (FromMailbox (Some (Finalize c))) =
     verify_finalization A (sy_namespace s) (sy_identity s) c"
| "event_ok A s (FromMailbox (Some (Notarize c))) =
     verify_notarization A (sy_namespace s) (sy_identity s) c"
| "event_ok A s _ = True"

section \<open>The invariant\<close>

definition verified_entry :: "'h sync_api \<Rightarrow> u64 \<Rightarrow> digest \<Rightarrow> block \<Rightarrow> bool" where
  "verified_entry A view d b \<longleftrightarrow> b_digest b = d \<and> authentic (wire A) b"

definition notarized_entry :: "'h sync_api \<Rightarrow> 'h syncer \<Rightarrow> u64 \<Rightarrow> digest \<Rightarrow> notarized \<Rightarrow> bool" where
  "notarized_entry A s view d n \<longleftrightarrow>
     c_view (n_proof n) = view \<and> c_payload (n_proof n) = d \<and> b_digest (n_block n) = d \<and>
     authentic (wire A) (n_block n) \<and>
     verify_notarization A (sy_namespace s) (sy_identity s) (n_proof n)"

definition finalized_entry :: "'h sync_api \<Rightarrow> 'h syncer \<Rightarrow> u64 \<Rightarrow> digest \<Rightarrow> finalization \<Rightarrow> bool" where
  "finalized_entry A s height d c \<longleftrightarrow>
     c_payload c = d \<and> verify_finalization A (sy_namespace s) (sy_identity s) c"

definition block_entry :: "'h sync_api \<Rightarrow> u64 \<Rightarrow> digest \<Rightarrow> block \<Rightarrow> bool" where
  "block_entry A height d b \<longleftrightarrow> b_height b = height \<and> b_digest b = d \<and> authentic (wire A) b"

definition ordered_set :: "u64 list \<Rightarrow> bool" where
  "ordered_set xs \<longleftrightarrow> sorted xs \<and> distinct xs"

definition sync_inv :: "'h sync_api \<Rightarrow> 'h syncer \<Rightarrow> bool" where
  "sync_inv A s \<longleftrightarrow>
     all_held (verified_entry A) (sy_verified s) \<and>
     all_held (notarized_entry A s) (sy_notarized s) \<and>
     all_held (finalized_entry A s) (sy_finalized s) \<and>
     all_held (block_entry A) (sy_blocks s) \<and>
     ordered_set (sy_requested_blocks s) \<and> ordered_set (sy_outstanding_notarize s)"

lemmas entry_defs = verified_entry_def notarized_entry_def finalized_entry_def block_entry_def

lemma ordered_set_simps [simp]:
  "ordered_set []"
  "ordered_set xs \<Longrightarrow> ordered_set (filter P xs)"
  "ordered_set xs \<Longrightarrow> ordered_set (set_add x xs)"
  using sorted_filter [of "\<lambda>x. x" xs P]
  by (simp_all add: ordered_set_def set_add_sorted set_add_distinct)

lemma sync_invD:
  assumes "sync_inv A s"
  shows "all_held (verified_entry A) (sy_verified s)" "all_held (notarized_entry A s) (sy_notarized s)"
    "all_held (finalized_entry A s) (sy_finalized s)" "all_held (block_entry A) (sy_blocks s)"
  using assms by (simp_all add: sync_inv_def)

text \<open>The entry predicates read only the configuration of the state.\<close>

lemma entry_cong:
  "sy_namespace s' = sy_namespace s \<Longrightarrow> sy_identity s' = sy_identity s \<Longrightarrow>
     notarized_entry A s' = notarized_entry A s"
  "sy_namespace s' = sy_namespace s \<Longrightarrow> sy_identity s' = sy_identity s \<Longrightarrow>
     finalized_entry A s' = finalized_entry A s"
  by (simp_all add: fun_eq_iff notarized_entry_def finalized_entry_def)

section \<open>Lookups\<close>

lemma or_else_Some [outcome_simps]:
  "or_else m m' = Ok (Some x) \<longleftrightarrow> m = Ok (Some x) \<or> m = Ok None \<and> m' = Ok (Some x)"
  by (cases "(m, m')" rule: or_else.cases) auto

lemma or_else_None [outcome_simps]: "or_else m m' = Ok None \<longleftrightarrow> m = Ok None \<and> m' = Ok None"
  by (cases "(m, m')" rule: or_else.cases) auto

lemma find_buffered_ok:
  "env_ok A env \<Longrightarrow> find_buffered env d = Some b \<Longrightarrow> b_digest b = d \<and> authentic (wire A) b"
  unfolding find_buffered_def env_ok_def
  by (drule spec [of _ d]) (simp split: list.splits)

lemma find_verified_ok:
  assumes "sync_laws A" and "sync_inv A s" and "find_verified A msg s d = Ok (Some b)"
  shows "b_digest b = d \<and> authentic (wire A) b"
proof -
  from assms(3) have "ar_get_key (verified_ar A) (sy_verified s) d = Some (Some b)"
    by (simp add: find_verified_def outcome_simps)
  from all_held_key [OF sync_lawsD(1) [OF assms(1)] sync_invD(1) [OF assms(2)] this]
  show ?thesis by (simp add: verified_entry_def)
qed

lemma find_notarized_ok:
  assumes "sync_laws A" and "sync_inv A s" and "find_notarized A s d = Ok (Some n)"
  shows "\<exists>view. notarized_entry A s view d n"
proof -
  from assms(3) have "ar_get_key (notarized_ar A) (sy_notarized s) d = Some (Some n)"
    by (simp add: find_notarized_def outcome_simps)
  from all_held_key [OF sync_lawsD(2) [OF assms(1)] sync_invD(2) [OF assms(2)] this]
  show ?thesis .
qed

lemma find_block_ok:
  assumes "sync_laws A" and "sync_inv A s" and "find_block A s d = Ok (Some b)"
  shows "\<exists>height. block_entry A height d b"
proof -
  from assms(3) have "ar_get_key (blocks_ar A) (sy_blocks s) d = Some (Some b)"
    by (simp add: find_block_def outcome_simps)
  from all_held_key [OF sync_lawsD(4) [OF assms(1)] sync_invD(4) [OF assms(2)] this]
  show ?thesis .
qed

lemma put_unless_pruned_Ok:
  "put_unless_pruned msg R i d v a = (Ok a' :: ('e, _) outcome) \<longleftrightarrow>
     ar_put R i d v a = Inr a' \<or> (\<exists>m. ar_put R i d v a = Inl (AlreadyPrunedTo m)) \<and> a' = a"
  by (auto simp: put_unless_pruned_def split: sum.splits put_error.splits)

lemma put_unless_pruned_total:
  assumes "no_storage_error R"
  shows "\<exists>a'. put_unless_pruned msg R i d v a = (Ok a' :: ('e, _) outcome)"
proof (cases "ar_put R i d v a")
  case (Inl e)
  moreover from this assms have "e \<noteq> StorageError" by (auto simp: no_storage_error_def)
  ultimately show ?thesis by (cases e) (auto simp: put_unless_pruned_Ok)
qed (auto simp: put_unless_pruned_Ok)

lemma put_unless_pruned_held:
  "archive_laws R \<Longrightarrow> all_held P a \<Longrightarrow> P i d v \<Longrightarrow>
     put_unless_pruned msg R i d v a = (Ok a' :: ('e, _) outcome) \<Longrightarrow> all_held P a'"
  by (auto simp: put_unless_pruned_Ok intro: all_held_put)

section \<open>Preservation\<close>

text \<open>What a step may change: nothing of the configuration, and the finalized archives only grow.\<close>

definition stable :: "'h syncer \<Rightarrow> 'h syncer \<Rightarrow> bool" where
  "stable s s' \<longleftrightarrow>
     sy_namespace s' = sy_namespace s \<and> sy_identity s' = sy_identity s \<and>
     sy_activity_timeout s' = sy_activity_timeout s \<and>
     grows (sy_blocks s) (sy_blocks s') \<and> grows (sy_finalized s) (sy_finalized s')"

lemma stable_refl [simp]: "stable s s"
  by (simp add: stable_def)

lemma stable_trans: "stable s s' \<Longrightarrow> stable s' s'' \<Longrightarrow> stable s s''"
  by (auto simp: stable_def intro: grows_trans)

lemma inv_verified:
  "sync_inv A s \<Longrightarrow> all_held (verified_entry A) a \<Longrightarrow>
     sync_inv A (s\<lparr>sy_verified := a\<rparr>) \<and> stable s (s\<lparr>sy_verified := a\<rparr>)"
  by (simp add: sync_inv_def stable_def entry_cong [of "s\<lparr>sy_verified := a\<rparr>" s])

lemma inv_notarized:
  "sync_inv A s \<Longrightarrow> all_held (notarized_entry A s) a \<Longrightarrow>
     sync_inv A (s\<lparr>sy_notarized := a\<rparr>) \<and> stable s (s\<lparr>sy_notarized := a\<rparr>)"
  by (simp add: sync_inv_def stable_def entry_cong [of "s\<lparr>sy_notarized := a\<rparr>" s])

lemma inv_finalized:
  "sync_inv A s \<Longrightarrow> all_held (finalized_entry A s) a \<Longrightarrow> grows (sy_finalized s) a \<Longrightarrow>
     sync_inv A (s\<lparr>sy_finalized := a\<rparr>) \<and> stable s (s\<lparr>sy_finalized := a\<rparr>)"
  by (simp add: sync_inv_def stable_def entry_cong [of "s\<lparr>sy_finalized := a\<rparr>" s])

lemma inv_blocks:
  "sync_inv A s \<Longrightarrow> all_held (block_entry A) a \<Longrightarrow> grows (sy_blocks s) a \<Longrightarrow>
     sync_inv A (s\<lparr>sy_blocks := a\<rparr>) \<and> stable s (s\<lparr>sy_blocks := a\<rparr>)"
  by (simp add: sync_inv_def stable_def entry_cong [of "s\<lparr>sy_blocks := a\<rparr>" s])

lemma inv_latest:
  "sync_inv A s \<Longrightarrow> sync_inv A (s\<lparr>sy_latest_view := v\<rparr>) \<and> stable s (s\<lparr>sy_latest_view := v\<rparr>)"
  by (simp add: sync_inv_def stable_def entry_cong [of "s\<lparr>sy_latest_view := v\<rparr>" s])

lemma inv_processed:
  "sync_inv A s \<Longrightarrow> sync_inv A (s\<lparr>sy_last_view_processed := v\<rparr>) \<and>
     stable s (s\<lparr>sy_last_view_processed := v\<rparr>)"
  by (simp add: sync_inv_def stable_def entry_cong [of "s\<lparr>sy_last_view_processed := v\<rparr>" s])

lemma inv_requested:
  "sync_inv A s \<Longrightarrow> ordered_set xs \<Longrightarrow>
     sync_inv A (s\<lparr>sy_requested_blocks := xs\<rparr>) \<and> stable s (s\<lparr>sy_requested_blocks := xs\<rparr>)"
  by (simp add: sync_inv_def stable_def entry_cong [of "s\<lparr>sy_requested_blocks := xs\<rparr>" s])

lemma inv_outstanding:
  "sync_inv A s \<Longrightarrow> ordered_set xs \<Longrightarrow>
     sync_inv A (s\<lparr>sy_outstanding_notarize := xs\<rparr>) \<and> stable s (s\<lparr>sy_outstanding_notarize := xs\<rparr>)"
  by (simp add: sync_inv_def stable_def entry_cong [of "s\<lparr>sy_outstanding_notarize := xs\<rparr>" s])

lemma cancel_stale_inv:
  "sync_inv A s \<Longrightarrow> cancel_stale s = (s', es) \<Longrightarrow> sync_inv A s' \<and> stable s s'"
  using inv_outstanding [of A s "filter (\<lambda>view. \<not> view < sy_latest_view s) (sy_outstanding_notarize s)"]
  by (auto simp: cancel_stale_def sync_inv_def)

subsection \<open>Stores of a block\<close>

lemma put_block_inv:
  assumes "sync_laws A" and "sync_inv A s" and "block_entry A h d b"
    and "ar_put (blocks_ar A) h d b (sy_blocks s) = Inr a"
  shows "sync_inv A (s\<lparr>sy_blocks := a\<rparr>) \<and> stable s (s\<lparr>sy_blocks := a\<rparr>)"
  using assms sync_lawsD(4) [OF assms(1)] sync_invD(4) [OF assms(2)]
  by (intro inv_blocks) (auto intro: all_held_put grows_put)

lemma put_finalized_inv:
  assumes "sync_laws A" and "sync_inv A s" and "finalized_entry A s h d c"
    and "ar_put (finalized_ar A) h d c (sy_finalized s) = Inr a"
  shows "sync_inv A (s\<lparr>sy_finalized := a\<rparr>) \<and> stable s (s\<lparr>sy_finalized := a\<rparr>)"
  using assms sync_lawsD(3) [OF assms(1)] sync_invD(3) [OF assms(2)]
  by (intro inv_finalized) (auto intro: all_held_put grows_put)

lemma put_both_inv:
  assumes "sync_laws A" and "sync_inv A s" and "finalized_entry A s h d c" and "block_entry A h d b"
    and "ar_put (finalized_ar A) h d c (sy_finalized s) = Inr fin"
    and "ar_put (blocks_ar A) h d b (sy_blocks s) = Inr bl"
  shows "sync_inv A (s\<lparr>sy_finalized := fin, sy_blocks := bl\<rparr>) \<and>
         stable s (s\<lparr>sy_finalized := fin, sy_blocks := bl\<rparr>)"
proof -
  let ?s1 = "s\<lparr>sy_finalized := fin\<rparr>"
  have 1: "sync_inv A ?s1 \<and> stable s ?s1"
    by (rule put_finalized_inv [OF assms(1-3,5)])
  have "ar_put (blocks_ar A) h d b (sy_blocks ?s1) = Inr bl" using assms(6) by simp
  from put_block_inv [OF assms(1) conjunct1 [OF 1] assms(4) this]
  show ?thesis using stable_trans [OF conjunct2 [OF 1]] by simp
qed

lemma put_notarized_inv:
  assumes "sync_laws A" and "sync_inv A s" and "notarized_entry A s v d n"
    and "put_unless_pruned msg (notarized_ar A) v d n (sy_notarized s) = (Ok a :: ('e, _) outcome)"
  shows "sync_inv A (s\<lparr>sy_notarized := a\<rparr>) \<and> stable s (s\<lparr>sy_notarized := a\<rparr>)"
  using put_unless_pruned_held [OF sync_lawsD(2) [OF assms(1)] sync_invD(2) [OF assms(2)] assms(3,4)]
  by (intro inv_notarized [OF assms(2)])

lemma put_verified_inv:
  assumes "sync_laws A" and "sync_inv A s" and "verified_entry A v d b"
    and "put_unless_pruned msg (verified_ar A) v d b (sy_verified s) = (Ok a :: ('e, _) outcome)"
  shows "sync_inv A (s\<lparr>sy_verified := a\<rparr>) \<and> stable s (s\<lparr>sy_verified := a\<rparr>)"
  using put_unless_pruned_held [OF sync_lawsD(1) [OF assms(1)] sync_invD(1) [OF assms(2)] assms(3,4)]
  by (intro inv_verified [OF assms(2)])

end
