(* ===== verification/Syncer_Steps.thy ===== *)
theory Syncer_Steps
  imports Syncer_Invariant
begin

text \<open>
  Every step of the syncer keeps the consistency of its archives: one lemma per handler, the whole
  step, and the states reachable from a fresh start as an inductive relation.
\<close>

abbreviation keeps :: "'h sync_api \<Rightarrow> 'h syncer \<Rightarrow> 'h syncer \<Rightarrow> bool" where
  "keeps A s s' \<equiv> sync_inv A s' \<and> stable s s'"

lemma keeps_trans: "keeps A s s' \<Longrightarrow> keeps A s' s'' \<Longrightarrow> keeps A s s''"
  using stable_trans by blast

section \<open>Handlers that only read\<close>

lemma handle_get_state:
  "handle_get A env view payload r s = (Ok (s', es) :: ('e, 'h, 'r) sync_result) \<Longrightarrow> s' = s"
  by (auto simp: handle_get_def outcome_simps split: option.splits)

lemma produce_state:
  "produce_notarized A v r s = (Ok (s', es) :: ('e, 'h, 'r) sync_result) \<Longrightarrow> s' = s"
  "produce_finalized A h r s = (Ok (s', es) :: ('e, 'h, 'r) sync_result) \<Longrightarrow> s' = s"
  "produce_digest A env d r s = (Ok (s', es) :: ('e, 'h, 'r) sync_result) \<Longrightarrow> s' = s"
  by (auto simp: produce_notarized_def produce_finalized_def produce_digest_def and_then_eq_Ok_iff
      split: option.splits)

lemma handle_produce_state:
  "handle_produce A env key r s = (Ok (s', es) :: ('e, 'h, 'r) sync_result) \<Longrightarrow> s' = s"
  unfolding handle_produce_def and_then_eq_Ok_iff
  by (elim exE conjE) (auto dest: produce_state split: index_value.split_asm)

lemma orchestrator_get_state:
  "orchestrator_get A env next r s = (Ok (s', es) :: ('e, 'h, 'r) sync_result) \<Longrightarrow> s' = s"
  by (auto simp: orchestrator_get_def outcome_simps)

section \<open>Consensus messages\<close>

lemma handle_store_verified_inv:
  assumes "sync_laws A" and "sync_inv A s" and "authentic (wire A) b"
    and "handle_store_verified A view b s = (Ok (s', es) :: ('e, 'h, 'r) sync_result)"
  shows "keeps A s s'"
proof -
  from assms(4) obtain a where
    a: "put_unless_pruned ''Failed to insert verified block'' (verified_ar A) view (b_digest b) b
      (sy_verified s) = (Ok a :: ('e, _) outcome)" and s': "s' = s\<lparr>sy_verified := a\<rparr>"
    by (auto simp: handle_store_verified_def outcome_simps)
  show ?thesis
    unfolding s' using assms(3) by (intro put_verified_inv [OF assms(1,2) _ a]) (simp add: verified_entry_def)
qed

lemma prune_inv:
  assumes "sync_laws A" and "sync_inv A s"
    and "ar_prune (verified_ar A) m (sy_verified s) = Some v"
    and "ar_prune (notarized_ar A) m (sy_notarized s) = Some n"
  shows "keeps A s (s\<lparr>sy_verified := v, sy_notarized := n\<rparr>)"
proof -
  have v: "all_held (verified_entry A) v"
    by (rule all_held_prune [OF sync_lawsD(1) [OF assms(1)] sync_invD(1) [OF assms(2)] assms(3)])
  have n: "all_held (notarized_entry A s) n"
    by (rule all_held_prune [OF sync_lawsD(2) [OF assms(1)] sync_invD(2) [OF assms(2)] assms(4)])
  have 1: "keeps A s (s\<lparr>sy_verified := v\<rparr>)"
    by (rule inv_verified [OF assms(2) v])
  have "all_held (notarized_entry A (s\<lparr>sy_verified := v\<rparr>)) n"
    using n by (simp add: entry_cong [of "s\<lparr>sy_verified := v\<rparr>" s])
  from keeps_trans [OF 1 inv_notarized [OF conjunct1 [OF 1] this]] show ?thesis by simp
qed

text \<open>Where the block of a finalization comes from.\<close>

lemma finalize_source_ok:
  assumes "sync_laws A" and "sync_inv A s" and "env_ok A env"
    and "or_else (Ok (find_buffered env d))
        (or_else (find_verified A msg s d)
                 (and_then (find_notarized A s d) (\<lambda>n. Ok (map_option n_block n))))
      = (Ok (Some b) :: ('e, _) outcome)"
  shows "b_digest b = d \<and> authentic (wire A) b"
  using assms(4)
  by (auto simp: outcome_simps notarized_entry_def dest: find_buffered_ok [OF assms(3)]
      find_verified_ok [OF assms(1,2)] find_notarized_ok [OF assms(1,2)])

lemma handle_finalize_cases:
  assumes "handle_finalize A env c s = (Ok (s', es) :: ('e, 'h, 'r) sync_result)"
  obtains (found) b fin bl v n where
      "or_else (Ok (find_buffered env (c_payload c)))
        (or_else (find_verified A ''Failed to get verified block'' s (c_payload c))
           (and_then (find_notarized A s (c_payload c)) (\<lambda>n. Ok (map_option n_block n))))
       = (Ok (Some b) :: ('e, _) outcome)"
      "ar_put (finalized_ar A) (b_height b) (c_payload c) c (sy_finalized s) = Inr fin"
      "ar_put (blocks_ar A) (b_height b) (c_payload c) b (sy_blocks s) = Inr bl"
      "ar_prune (verified_ar A) (saturating_sub (sy_last_view_processed s) (sy_activity_timeout s))
         (sy_verified s) = Some v"
      "ar_prune (notarized_ar A) (saturating_sub (sy_last_view_processed s) (sy_activity_timeout s))
         (sy_notarized s) = Some n"
      "s' = s\<lparr>sy_finalized := fin, sy_blocks := bl, sy_verified := v, sy_notarized := n,
              sy_latest_view := c_view c\<rparr>"
      "es = [NotifyFinalizer]"
  | (missing) "s' = s" "es = [Fetch (multi_index_new (Digest (c_payload c)))]"
proof -
  from assms obtain found where
    f: "or_else (Ok (find_buffered env (c_payload c)))
        (or_else (find_verified A ''Failed to get verified block'' s (c_payload c))
           (and_then (find_notarized A s (c_payload c)) (\<lambda>n. Ok (map_option n_block n))))
       = (Ok found :: ('e, _) outcome)"
    unfolding handle_finalize_def Let_def and_then_eq_Ok_iff by blast
  show thesis
  proof (cases found)
    case None
    with assms f show thesis by (intro missing) (simp_all add: handle_finalize_def)
  next
    case (Some b)
    with assms f obtain fin bl v n where
      "ar_put (finalized_ar A) (b_height b) (c_payload c) c (sy_finalized s) = Inr fin"
      "ar_put (blocks_ar A) (b_height b) (c_payload c) b (sy_blocks s) = Inr bl"
      "ar_prune (verified_ar A) (saturating_sub (sy_last_view_processed s) (sy_activity_timeout s))
         (sy_verified s) = Some v"
      "ar_prune (notarized_ar A) (saturating_sub (sy_last_view_processed s) (sy_activity_timeout s))
         (sy_notarized s) = Some n"
      "s' = s\<lparr>sy_finalized := fin, sy_blocks := bl, sy_verified := v, sy_notarized := n,
              sy_latest_view := c_view c\<rparr>" "es = [NotifyFinalizer]"
      by (auto simp: handle_finalize_def Let_def outcome_simps)
    from found [OF _ this] f Some show thesis by blast
  qed
qed

lemma handle_finalize_inv:
  assumes "sync_laws A" and "sync_inv A s" and "env_ok A env"
    and "verify_finalization A (sy_namespace s) (sy_identity s) c"
    and "handle_finalize A env c s = (Ok (s', es) :: ('e, 'h, 'r) sync_result)"
  shows "keeps A s s'"
  using assms(5)
proof (cases rule: handle_finalize_cases)
  case (found b fin bl v n)
  have b: "b_digest b = c_payload c \<and> authentic (wire A) b"
    by (rule finalize_source_ok [OF assms(1-3) found(1)])
  let ?s1 = "s\<lparr>sy_finalized := fin, sy_blocks := bl\<rparr>"
  let ?s2 = "?s1\<lparr>sy_verified := v, sy_notarized := n\<rparr>"
  have 1: "keeps A s ?s1"
    using b assms(4) by (intro put_both_inv [OF assms(1,2) _ _ found(2,3)]) (simp_all add: entry_defs)
  have 2: "keeps A ?s1 ?s2"
    using found(4,5) by (intro prune_inv [OF assms(1) conjunct1 [OF 1]]) simp_all
  have 3: "keeps A ?s2 (?s2\<lparr>sy_latest_view := c_view c\<rparr>)"
    by (rule inv_latest [OF conjunct1 [OF 2]])
  have "s' = ?s2\<lparr>sy_latest_view := c_view c\<rparr>" using found(6) by simp
  then show ?thesis using keeps_trans [OF keeps_trans [OF 1 2] 3] by simp
next
  case missing
  with assms(2) show ?thesis by simp
qed

lemma handle_notarize_inv:
  assumes "sync_laws A" and "sync_inv A s" and "env_ok A env"
    and "verify_notarization A (sy_namespace s) (sy_identity s) c"
    and "handle_notarize A env c s = (Ok (s', es) :: ('e, 'h, 'r) sync_result)"
  shows "keeps A s s'"
proof -
  from assms(5) obtain found where
    f: "or_else (Ok (find_buffered env (c_payload c)))
         (find_verified A ''Failed to get verified block'' s (c_payload c))
       = (Ok found :: ('e, _) outcome)"
    unfolding handle_notarize_def Let_def and_then_eq_Ok_iff by blast
  show ?thesis
  proof (cases found)
    case None
    with assms(5) f have "s' = s\<lparr>sy_outstanding_notarize := set_add (c_view c) (sy_outstanding_notarize s)\<rparr>"
      by (simp add: handle_notarize_def Let_def)
    moreover have "ordered_set (set_add (c_view c) (sy_outstanding_notarize s))"
      using assms(2) by (simp add: sync_inv_def)
    ultimately show ?thesis using inv_outstanding [OF assms(2)] by simp
  next
    case (Some b)
    with f have b: "b_digest b = c_payload c \<and> authentic (wire A) b"
      by (auto simp: outcome_simps dest: find_buffered_ok [OF assms(3)] find_verified_ok [OF assms(1,2)])
    from assms(5) f Some obtain a where
      a: "put_unless_pruned ''Failed to insert notarized block'' (notarized_ar A) (c_view c)
        (c_payload c) \<lparr>n_proof = c, n_block = b\<rparr> (sy_notarized s) = (Ok a :: ('e, _) outcome)"
      and s': "s' = s\<lparr>sy_notarized := a\<rparr>"
      by (auto simp: handle_notarize_def Let_def outcome_simps)
    show ?thesis
      unfolding s' using b assms(4)
      by (intro put_notarized_inv [OF assms(1,2) _ a]) (simp add: notarized_entry_def)
  qed
qed

lemma handle_message_inv:
  assumes "sync_laws A" and "sync_inv A s" and "env_ok A env"
    and "event_ok A s (FromMailbox (Some m))"
    and "handle_message A env m s = (Ok (s', es) :: ('e, 'h, 'r) sync_result)"
  shows "keeps A s s'"
proof (cases m)
  case (Get view payload r)
  with assms(2,5) show ?thesis using handle_get_state by fastforce
next
  case (Broadcast b)
  with assms(2,5) show ?thesis by (simp add: handle_broadcast_def)
next
  case (StoreVerified view b)
  with assms(4,5) show ?thesis by (intro handle_store_verified_inv [OF assms(1,2)]) simp_all
next
  case (Finalize c)
  with assms(4,5) show ?thesis by (intro handle_finalize_inv [OF assms(1-3)]) simp_all
next
  case (Notarize c)
  with assms(4,5) show ?thesis by (intro handle_notarize_inv [OF assms(1-3)]) simp_all
qed

section \<open>Finalizer messages\<close>

lemma orchestrator_processed_inv:
  assumes "sync_inv A s"
    and "orchestrator_processed A next d s = (Ok (s', es) :: ('e, 'h, 'r) sync_result)"
  shows "keeps A s s'"
proof -
  from assms(2) obtain v where
    s': "s' = s\<lparr>sy_last_view_processed := v,
                sy_requested_blocks := filter (\<lambda>height. next < height) (sy_requested_blocks s)\<rparr>"
    by (auto simp: orchestrator_processed_def outcome_simps)
  let ?s1 = "s\<lparr>sy_last_view_processed := v\<rparr>"
  have 1: "keeps A s ?s1" by (rule inv_processed [OF assms(1)])
  have "ordered_set (filter (\<lambda>height. next < height) (sy_requested_blocks s))"
    using assms(1) by (simp add: sync_inv_def)
  then have "ordered_set (filter (\<lambda>height. next < height) (sy_requested_blocks ?s1))" by simp
  from keeps_trans [OF 1 inv_requested [OF conjunct1 [OF 1] this]] show ?thesis by (simp add: s')
qed

lemma request_heights_set:
  "request_heights gap requested = (requested', es) \<Longrightarrow>
     (ordered_set requested \<longrightarrow> ordered_set requested') \<and> set requested' = set requested \<union> set gap"
proof (induction gap arbitrary: requested requested' es)
  case (Cons height gap)
  show ?case
  proof (cases "height \<in> set requested")
    case True
    with Cons.prems Cons.IH [of requested] show ?thesis by auto
  next
    case False
    with Cons.prems obtain es' where
      "request_heights gap (set_add height requested) = (requested', es' :: 'a sync_effect list)"
      by (auto split: prod.splits)
    from Cons.IH [OF this] show ?thesis by auto
  qed
qed simp

lemma request_gap_Ok:
  assumes "request_gap pr env next start r s = (Ok (s', es) :: ('e, 'h, 'r) sync_result)"
  obtains limit requested fetches where "add_ovf pr next 20 = (Ok limit :: ('e, _) outcome)"
    "request_heights (u64_range next (min start limit)) (sy_requested_blocks s) = (requested, fetches)"
    "listening env r" "s' = s\<lparr>sy_requested_blocks := requested\<rparr>" "es = fetches @ [SendBool r False]"
proof -
  from assms obtain limit where l: "add_ovf pr next 20 = (Ok limit :: ('e, _) outcome)"
    unfolding request_gap_def and_then_eq_Ok_iff by blast
  obtain requested fetches where
    f: "request_heights (u64_range next (min start limit)) (sy_requested_blocks s)
      = (requested, fetches :: 'r sync_effect list)"
    using prod.exhaust by blast
  show thesis
    using assms l f that [OF l f] by (simp add: request_gap_def send_expect_def split: if_splits)
qed

lemma request_gap_inv:
  assumes "sync_inv A s" and "request_gap pr env next start r s = (Ok (s', es) :: ('e, 'h, 'r) sync_result)"
  shows "keeps A s s'"
  using assms(2)
proof (rule request_gap_Ok)
  fix limit requested fetches
  assume rq: "request_heights (u64_range next (min start limit)) (sy_requested_blocks s)
      = (requested, fetches :: 'r sync_effect list)"
    and s': "s' = s\<lparr>sy_requested_blocks := requested\<rparr>"
  from request_heights_set [OF rq] assms(1) have "ordered_set requested"
    by (simp add: sync_inv_def)
  then show ?thesis unfolding s' by (rule inv_requested [OF assms(1)])
qed

lemma repair_with_Ok:
  "repair_with A env d b r s = (Ok (s', es) :: ('e, 'h, 'r) sync_result) \<longleftrightarrow>
     listening env r \<and> es = [SendBool r True] \<and>
     (\<exists>a. ar_put (blocks_ar A) (b_height b) d b (sy_blocks s) = Inr a \<and> s' = s\<lparr>sy_blocks := a\<rparr>)"
  by (auto simp: repair_with_def outcome_simps send_expect_def split: if_splits)

text \<open>The four ways a repair request ends.\<close>

lemma orchestrator_repair_cases:
  assumes "orchestrator_repair pr A env next r s = (Ok (s', es) :: ('e, 'h, 'r) sync_result)"
  obtains (no_gap) "snd (ar_next_gap (blocks_ar A) (sy_blocks s) next) = None"
      "s' = s" "es = [SendBool r False]"
  | (copied) start g b where "snd (ar_next_gap (blocks_ar A) (sy_blocks s) next) = Some start"
      "0 < next" "ar_get_index (blocks_ar A) (sy_blocks s) start = Some (Some g)"
      "find_verified A ''Failed to get verified block'' s (b_parent g) = (Ok (Some b) :: ('e, _) outcome)
       \<or> (\<exists>n. find_notarized A s (b_parent g) = (Ok (Some n) :: ('e, _) outcome) \<and> n_block n = b)"
      "repair_with A env (b_parent g) b r s = (Ok (s', es) :: ('e, 'h, 'r) sync_result)"
  | (asked) start g es' where "snd (ar_next_gap (blocks_ar A) (sy_blocks s) next) = Some start"
      "0 < next" "ar_get_index (blocks_ar A) (sy_blocks s) start = Some (Some g)"
      "find_verified A ''Failed to get verified block'' s (b_parent g) = (Ok None :: ('e, _) outcome)"
      "find_notarized A s (b_parent g) = (Ok None :: ('e, _) outcome)"
      "request_gap pr env next start r s = (Ok (s', es') :: ('e, 'h, 'r) sync_result)"
      "es = Fetch (multi_index_new (Digest (b_parent g))) # es'"
  | (at_genesis) start where "snd (ar_next_gap (blocks_ar A) (sy_blocks s) next) = Some start"
      "next = 0" "request_gap pr env next start r s = (Ok (s', es) :: ('e, 'h, 'r) sync_result)"
proof (cases "snd (ar_next_gap (blocks_ar A) (sy_blocks s) next)")
  case None
  with assms show thesis
    by (intro no_gap) (auto simp: orchestrator_repair_def outcome_simps send_expect_def split: if_splits)
next
  case (Some start)
  show thesis
  proof (cases "0 < next")
    case False
    then have "next = 0" using word_gt_0 by blast
    with Some assms show thesis by (intro at_genesis) (simp_all add: orchestrator_repair_def Let_def)
  next
    case True
    with assms Some obtain g v where
      g: "ar_get_index (blocks_ar A) (sy_blocks s) start = Some (Some g)" and
      v: "find_verified A ''Failed to get verified block'' s (b_parent g) = (Ok v :: ('e, _) outcome)"
      by (auto simp: orchestrator_repair_def Let_def outcome_simps)
    show thesis
    proof (cases v)
      case (Some b)
      with g v True assms \<open>snd _ = Some start\<close> show thesis
        by (intro copied [of start g b]) (simp_all add: orchestrator_repair_def Let_def)
    next
      case None
      with g v True assms Some obtain n where
        n: "find_notarized A s (b_parent g) = (Ok n :: ('e, _) outcome)"
        by (auto simp: orchestrator_repair_def Let_def outcome_simps)
      show thesis
      proof (cases n)
        case (Some m)
        with g v n None True assms \<open>snd _ = Some start\<close> show thesis
          by (intro copied [of start g "n_block m"]) (simp_all add: orchestrator_repair_def Let_def)
      next
        case nota: None
        with g v n None True assms Some obtain es' where
          "request_gap pr env next start r s = (Ok (s', es') :: ('e, 'h, 'r) sync_result)"
          "es = Fetch (multi_index_new (Digest (b_parent g))) # es'"
          by (auto simp: orchestrator_repair_def Let_def outcome_simps)
        with g v n None nota True Some show thesis by (intro asked [of start g es']) simp_all
      qed
    qed
  qed
qed

text \<open>
  The two repairs from another archive put the block at its own height, under the digest its child
  names; both are the block's, so the entry is in order.
\<close>

lemma repair_source_ok:
  assumes "sync_laws A" and "sync_inv A s"
    and "find_verified A msg s d = (Ok (Some b) :: ('e, _) outcome)
       \<or> (\<exists>n. find_notarized A s d = (Ok (Some n) :: ('e, _) outcome) \<and> n_block n = b)"
  shows "block_entry A (b_height b) d b"
  using assms(3)
  by (auto simp: entry_defs dest: find_verified_ok [OF assms(1,2)] find_notarized_ok [OF assms(1,2)])

lemma orchestrator_repair_inv:
  assumes "sync_laws A" and "sync_inv A s"
    and "orchestrator_repair pr A env next r s = (Ok (s', es) :: ('e, 'h, 'r) sync_result)"
  shows "keeps A s s'"
  using assms(3)
proof (cases rule: orchestrator_repair_cases)
  case no_gap
  with assms(2) show ?thesis by simp
next
  case (copied start g b)
  then obtain a where a: "ar_put (blocks_ar A) (b_height b) (b_parent g) b (sy_blocks s) = Inr a"
    "s' = s\<lparr>sy_blocks := a\<rparr>" by (auto simp: repair_with_Ok)
  show ?thesis
    unfolding a(2) by (rule put_block_inv [OF assms(1,2) repair_source_ok [OF assms(1,2) copied(4)] a(1)])
next
  case (asked start g es')
  then show ?thesis by (intro request_gap_inv [OF assms(2)])
next
  case (at_genesis start)
  then show ?thesis by (intro request_gap_inv [OF assms(2)])
qed

lemma handle_orchestration_inv:
  assumes "sync_laws A" and "sync_inv A s"
    and "handle_orchestration pr A env m s = (Ok (s', es) :: ('e, 'h, 'r) sync_result)"
  shows "keeps A s s'"
proof (cases m)
  case (OrchestrationGet n r)
  with assms(2,3) show ?thesis using orchestrator_get_state by fastforce
next
  case (OrchestrationProcessed n d)
  with assms(3) show ?thesis by (intro orchestrator_processed_inv [OF assms(2)]) simp_all
next
  case (OrchestrationRepair n r)
  with assms(3) show ?thesis by (intro orchestrator_repair_inv [OF assms(1,2)]) simp_all
qed

section \<open>Resolver messages\<close>

lemma deliver_notarized_cases:
  assumes "deliver_notarized A view value r s = (Ok (s', es) :: ('e, 'h, 'r) sync_result)"
  obtains (accepted) n a where "decode_notarized A value = Ok n"
      "verify_notarization A (sy_namespace s) (sy_identity s) (n_proof n)" "c_view (n_proof n) = view"
      "put_unless_pruned ''Failed to insert notarized block'' (notarized_ar A) view
         (b_digest (n_block n)) n (sy_notarized s) = (Ok a :: ('e, _) outcome)"
      "s' = s\<lparr>sy_notarized := a\<rparr>" "es = [SendBool r True]"
  | (rejected) "s' = s" "es = [SendBool r False]"
      "\<And>n. decode_notarized A value = Ok n \<Longrightarrow>
         verify_notarization A (sy_namespace s) (sy_identity s) (n_proof n) \<Longrightarrow> c_view (n_proof n) \<noteq> view"
  using assms by (fastforce simp: deliver_notarized_def outcome_simps split: outcome.splits if_splits)

lemma deliver_finalized_cases:
  assumes "deliver_finalized A height value r s = (Ok (s', es) :: ('e, 'h, 'r) sync_result)"
  obtains (accepted) f fin bl where "decode_finalized A value = Ok f"
      "verify_finalization A (sy_namespace s) (sy_identity s) (f_proof f)" "b_height (f_block f) = height"
      "ar_put (finalized_ar A) height (b_digest (f_block f)) (f_proof f) (sy_finalized s) = Inr fin"
      "ar_put (blocks_ar A) height (b_digest (f_block f)) (f_block f) (sy_blocks s) = Inr bl"
      "s' = s\<lparr>sy_finalized := fin, sy_blocks := bl\<rparr>" "es = [SendBool r True, NotifyFinalizer]"
  | (rejected) "s' = s" "es = [SendBool r False]"
      "\<And>f. decode_finalized A value = Ok f \<Longrightarrow>
         verify_finalization A (sy_namespace s) (sy_identity s) (f_proof f) \<Longrightarrow> b_height (f_block f) \<noteq> height"
  using assms by (fastforce simp: deliver_finalized_def outcome_simps split: outcome.splits if_splits)

lemma deliver_digest_cases:
  assumes "deliver_digest A d value r s = (Ok (s', es) :: ('e, 'h, 'r) sync_result)"
  obtains (accepted) b bl where "decode_block A value = Ok b" "b_digest b = d"
      "ar_put (blocks_ar A) (b_height b) d b (sy_blocks s) = Inr bl"
      "s' = s\<lparr>sy_blocks := bl\<rparr>" "es = [SendBool r True, NotifyFinalizer]"
  | (rejected) "s' = s" "es = [SendBool r False]" "\<And>b. decode_block A value = Ok b \<Longrightarrow> b_digest b \<noteq> d"
  using assms by (fastforce simp: deliver_digest_def outcome_simps split: outcome.splits if_splits)

lemma decoded_ok:
  assumes "sync_laws A"
  shows "decode_block A bs = Ok b \<Longrightarrow> authentic (wire A) b"
    and "decode_notarized A bs = Ok n \<Longrightarrow> notarized_ok (wire A) n"
    and "decode_finalized A bs = Ok f \<Longrightarrow> finalized_ok (wire A) f"
  using sync_lawsD(7-9) [OF assms] block_read_authentic notarized_read_ok finalized_read_ok by blast+

lemma handle_deliver_cases:
  assumes "handle_deliver A key value r s = (Ok (s', es) :: ('e, 'h, 'r) sync_result)"
  obtains (n) view where "deliver_notarized A view value r s = (Ok (s', es) :: ('e, 'h, 'r) sync_result)"
  | (f) height where "deliver_finalized A height value r s = (Ok (s', es) :: ('e, 'h, 'r) sync_result)"
  | (d) d where "deliver_digest A d value r s = (Ok (s', es) :: ('e, 'h, 'r) sync_result)"
  using assms unfolding handle_deliver_def and_then_eq_Ok_iff
  by (elim exE conjE) (simp split: index_value.split_asm)

lemma handle_deliver_inv:
  assumes "sync_laws A" and "sync_inv A s"
    and "handle_deliver A key value r s = (Ok (s', es) :: ('e, 'h, 'r) sync_result)"
  shows "keeps A s s'"
proof -
  from assms(3) show ?thesis
  proof (cases rule: handle_deliver_cases)
    case (n view)
    then show ?thesis
    proof (cases rule: deliver_notarized_cases)
      case (accepted nn a)
      with decoded_ok(2) [OF assms(1)]
      have "notarized_entry A s view (b_digest (n_block nn)) nn"
        by (auto simp: notarized_entry_def notarized_ok_def)
      from put_notarized_inv [OF assms(1,2) this accepted(4)] show ?thesis by (simp add: accepted(5))
    qed (use assms(2) in simp)
  next
    case (f height)
    then show ?thesis
    proof (cases rule: deliver_finalized_cases)
      case (accepted ff fin bl)
      with decoded_ok(3) [OF assms(1)]
      have "finalized_entry A s height (b_digest (f_block ff)) (f_proof ff)"
        "block_entry A height (b_digest (f_block ff)) (f_block ff)"
        by (auto simp: finalized_entry_def block_entry_def finalized_ok_def)
      from put_both_inv [OF assms(1,2) this accepted(4,5)] show ?thesis by (simp add: accepted(6))
    qed (use assms(2) in simp)
  next
    case (d d)
    then show ?thesis
    proof (cases rule: deliver_digest_cases)
      case (accepted b bl)
      with decoded_ok(1) [OF assms(1)] have "block_entry A (b_height b) d b"
        by (auto simp: block_entry_def)
      from put_block_inv [OF assms(1,2) this accepted(3)] show ?thesis by (simp add: accepted(4))
    qed (use assms(2) in simp)
  qed
qed

section \<open>Steps and reachable states\<close>

lemma handle_event_inv:
  assumes "sync_laws A" and "sync_inv A s" and "env_ok A env" and "event_ok A s ev"
    and "handle_event pr A env ev s = (Ok (s', es) :: ('e, 'h, 'r) sync_result)"
  shows "keeps A s s'"
proof (cases ev)
  case (FromMailbox m)
  with assms(5) obtain msg where m: "m = Some msg"
    "handle_message A env msg s = (Ok (s', es) :: ('e, 'h, 'r) sync_result)"
    by (auto simp: outcome_simps)
  with assms(4) FromMailbox show ?thesis
    by (intro handle_message_inv [OF assms(1-3)]) simp_all
next
  case (FromOrchestrator m)
  with assms(5) obtain msg where
    "handle_orchestration pr A env msg s = (Ok (s', es) :: ('e, 'h, 'r) sync_result)"
    by (auto simp: outcome_simps)
  then show ?thesis by (rule handle_orchestration_inv [OF assms(1,2)])
next
  case (FromHandler m)
  with assms(5) obtain msg where
    h: "handle_resolver A env msg s = (Ok (s', es) :: ('e, 'h, 'r) sync_result)"
    by (auto simp: outcome_simps)
  show ?thesis
  proof (cases msg)
    case (Deliver key bs r)
    with h show ?thesis by (intro handle_deliver_inv [OF assms(1,2)]) simp_all
  next
    case (Produce key r)
    with h assms(2) show ?thesis using handle_produce_state by fastforce
  qed
qed

lemma event_ok_cong:
  "sy_namespace s' = sy_namespace s \<Longrightarrow> sy_identity s' = sy_identity s \<Longrightarrow>
     event_ok A s' ev = event_ok A s ev"
  by (induction A s ev rule: event_ok.induct) simp_all

lemma sync_step_Ok:
  "sync_step pr A env ev s = (Ok (s', es) :: ('e, 'h, 'r) sync_result) \<longleftrightarrow>
     (\<exists>es2. handle_event pr A env ev (fst (cancel_stale s :: 'h syncer \<times> 'r sync_effect list))
              = (Ok (s', es2) :: ('e, 'h, 'r) sync_result) \<and> es = snd (cancel_stale s) @ es2)"
  by (auto simp: sync_step_def outcome_simps split: prod.splits)

lemma sync_step_inv:
  assumes "sync_laws A" and "sync_inv A s" and "env_ok A env" and "event_ok A s ev"
    and "sync_step pr A env ev s = (Ok (s', es) :: ('e, 'h, 'r) sync_result)"
  shows "keeps A s s'"
proof -
  obtain s1 es1 where c: "cancel_stale s = (s1, es1 :: 'r sync_effect list)"
    by (cases "cancel_stale s :: _ \<times> 'r sync_effect list")
  from cancel_stale_inv [OF assms(2) c] have 1: "keeps A s s1" .
  then have "event_ok A s1 ev"
    using assms(4) event_ok_cong [of s1 s A ev] by (simp add: stable_def)
  moreover from assms(5) c obtain es2 where
    "handle_event pr A env ev s1 = (Ok (s', es2) :: ('e, 'h, 'r) sync_result)"
    by (auto simp: sync_step_Ok)
  ultimately have "keeps A s1 s'"
    using 1 by (intro handle_event_inv [OF assms(1) _ assms(3)]) simp_all
  with 1 show ?thesis by (rule keeps_trans)
qed

text \<open>
  The states an actor passes through: started over archives whose contents are in order (an empty
  disk, or what an earlier run left), it takes steps in surroundings that keep to their contract.
  A step that panics has no successor.
\<close>

inductive sync_reach :: "profile \<Rightarrow> 'h sync_api \<Rightarrow> 'h syncer \<Rightarrow> 'h syncer \<Rightarrow> bool"
  for pr :: profile and A :: "'h sync_api" and s0 :: "'h syncer" where
  reach_start: "sync_reach pr A s0 s0"
| reach_step: "sync_reach pr A s0 s'"
    if "sync_reach pr A s0 s" and "env_ok A (env :: nat sync_env)" and "event_ok A s ev"
      and "sync_step pr A env ev s = (Ok (s', es) :: (unit, 'h, nat) sync_result)"

inductive_cases sync_reach_elim: "sync_reach pr A s0 s"

lemma sync_reach_inv:
  assumes "sync_reach pr A s0 s" and "sync_laws A" and "sync_inv A s0"
  shows "keeps A s0 s"
  using assms
proof (induction rule: sync_reach.induct)
  case reach_start
  then show ?case by simp
next
  case (reach_step s env ev s' es)
  then have "keeps A s0 s" by simp
  moreover from this reach_step have "keeps A s s'" by (intro sync_step_inv [of A s env ev pr]) auto
  ultimately show ?case by (rule keeps_trans)
qed

lemma syncer_new_inv:
  "all_held (verified_entry A) v \<Longrightarrow>
   all_held (notarized_entry A (syncer_new v n f b t ns ident)) n \<Longrightarrow>
   all_held (finalized_entry A (syncer_new v n f b t ns ident)) f \<Longrightarrow>
   all_held (block_entry A) b \<Longrightarrow> sync_inv A (syncer_new v n f b t ns ident)"
  by (simp add: sync_inv_def) (simp add: syncer_new_def)

end
