(* ===== verification/Sample_Node.thy ===== *)
theory Sample_Node
  imports Syncer_Steps Inline_Api
begin

text \<open>
  A concrete node: list archives, the encoders of \<open>inline_api\<close>, certificates that verify when their
  signature field is zero. It satisfies the laws assumed of the third-party code, and the witnesses
  of the syncer's properties run on it.
\<close>

definition decode_whole :: "'a reader \<Rightarrow> bytes \<Rightarrow> (codec_error, 'a) outcome" where
  "decode_whole rd bs =
     and_then (rd bs) (\<lambda>(x, r).
       if r = [] then Ok x else Err (InvalidData ''Codec'' ''ExtraData''))"

lemma decode_whole_decodes: "decodes rd (decode_whole rd)"
  unfolding decodes_def
proof (intro conjI allI)
  show "decode_whole rd bs = Ok x \<longleftrightarrow> rd bs = Ok (x, [])" for bs x
    by (auto simp: decode_whole_def outcome_simps split: if_splits)
  show "decode_whole rd bs = Panic p \<longleftrightarrow> rd bs = Panic p" for bs p
    by (cases "rd bs") (auto simp: decode_whole_def split: if_splits)
qed

definition sample_api :: "u64 sync_api" where
  "sample_api =
     \<lparr>verified_ar = list_archive, notarized_ar = list_archive, finalized_ar = fixed_archive,
      blocks_ar = fixed_archive, wire = inline_api,
      encode_block = block_write inline_api, encode_notarized = notarized_write inline_api,
      encode_finalized = finalized_write inline_api,
      decode_block = decode_whole (block_read inline_api),
      decode_notarized = decode_whole (notarized_read inline_api),
      decode_finalized = decode_whole (finalized_read inline_api),
      verify_notarization = (\<lambda>ns i c. c_signatures c = 0),
      verify_finalization = (\<lambda>ns i c. c_signatures c = 0)\<rparr>"

lemma sample_api_simps [simp]:
  "verified_ar sample_api = list_archive" "notarized_ar sample_api = list_archive"
  "finalized_ar sample_api = fixed_archive" "blocks_ar sample_api = fixed_archive"
  "wire sample_api = inline_api"
  "encode_block sample_api = block_write inline_api"
  "encode_notarized sample_api = notarized_write inline_api"
  "encode_finalized sample_api = finalized_write inline_api"
  "decode_block sample_api = decode_whole (block_read inline_api)"
  "decode_notarized sample_api = decode_whole (notarized_read inline_api)"
  "decode_finalized sample_api = decode_whole (finalized_read inline_api)"
  "verify_notarization sample_api ns i c = (c_signatures c = 0)"
  "verify_finalization sample_api ns i c = (c_signatures c = 0)"
  by (simp_all add: sample_api_def)

lemma sample_api_laws [simp]: "sync_laws sample_api"
  by (simp add: sync_laws_def codec_laws_def storage_laws_def decode_whole_decodes encodes_def)

definition fresh_node :: "u64 syncer" where
  "fresh_node = syncer_new empty_archive empty_archive empty_archive empty_archive 10 [] []"

lemma fresh_node_inv [simp]: "sync_inv sample_api fresh_node"
  by (simp add: fresh_node_def syncer_new_inv)

text \<open>Nothing buffered, every response channel open; and the sample block buffered.\<close>

definition quiet :: "nat sync_env" where
  "quiet = \<lparr>buffered = (\<lambda>_. []), listening = (\<lambda>_. True)\<rparr>"

definition with_sample :: "nat sync_env" where
  "with_sample = \<lparr>buffered = (\<lambda>d. if d = b_digest sample_block then [sample_block] else []),
                  listening = (\<lambda>_. True)\<rparr>"

lemma quiet_ok [simp]: "env_ok A quiet" "listening quiet r" "find_buffered quiet d = None"
  by (simp_all add: env_ok_def quiet_def find_buffered_def)

lemma with_sample_ok [simp]:
  "env_ok sample_api with_sample" "listening with_sample r"
  "find_buffered with_sample (b_digest sample_block) = Some sample_block"
  by (simp_all add: env_ok_def with_sample_def find_buffered_def)

lemmas node_simps = fresh_node_def syncer_new_def empty_archive_def fixed_archive_def
  list_archive_def held_def
  outcome_simps find_verified_def find_notarized_def find_block_def

lemma sample_cert_fields [simp]:
  "c_view sample_cert = 3" "c_payload sample_cert = b_digest sample_block"
  "c_signatures sample_cert = 0"
  by (simp_all add: sample_cert_def)

lemma sample_block_height [simp]: "b_height sample_block = 1"
  by (simp add: sample_block_def compute_digest_def)

text \<open>The node after finalizing the sample block, found in the buffer, in view 3.\<close>

definition node_after_finalize :: "u64 syncer" where
  "node_after_finalize = fresh_node
     \<lparr>sy_finalized := \<lparr>ar_entries = [(1, b_digest sample_block, sample_cert)], ar_hidden = 0\<rparr>,
      sy_blocks := \<lparr>ar_entries = [(1, b_digest sample_block, sample_block)], ar_hidden = 0\<rparr>,
      sy_latest_view := 3\<rparr>"

lemma fresh_node_finalizes:
  "handle_finalize sample_api with_sample sample_cert fresh_node
     = (Ok (node_after_finalize, [NotifyFinalizer]) :: ('e, u64, nat) sync_result)"
  by (simp add: handle_finalize_def node_simps node_after_finalize_def Let_def saturating_sub_def)

lemma node_after_finalize_inv [simp]: "sync_inv sample_api node_after_finalize"
  using handle_finalize_inv [OF sample_api_laws fresh_node_inv with_sample_ok(1) _ fresh_node_finalizes]
  by simp

text \<open>The node after storing the sample block and its notarization.\<close>

definition sample_notarized :: notarized where
  "sample_notarized = \<lparr>n_proof = sample_cert, n_block = sample_block\<rparr>"

definition node_with_notarized :: "u64 syncer" where
  "node_with_notarized = fresh_node
     \<lparr>sy_notarized := \<lparr>ar_entries = [(3, b_digest sample_block, sample_notarized)], ar_hidden = 0\<rparr>\<rparr>"

lemma fresh_node_notarizes:
  "handle_notarize sample_api with_sample sample_cert fresh_node
     = (Ok (node_with_notarized, []) :: ('e, u64, nat) sync_result)"
  by (simp add: handle_notarize_def node_simps node_with_notarized_def sample_notarized_def Let_def
      put_unless_pruned_def)

lemma node_with_notarized_inv [simp]: "sync_inv sample_api node_with_notarized"
  using handle_notarize_inv [OF sample_api_laws fresh_node_inv with_sample_ok(1) _ fresh_node_notarizes]
  by simp

end
