(* ===== verification/Syncer_Properties.thy ===== *)
theory Syncer_Properties
  imports Sample_Node
begin

text \<open>
  What the syncer guarantees the node it belongs to: its archives are consistent in every reachable
  state, a request for a block is answered with that block or not at all, and a finalization is
  stored for good.
\<close>

section \<open>Consistency\<close>

text \<open>
  C2. In every state the syncer reaches from consistent archives, a block found at a height has that
  height, a block or certificate found under a digest is for that digest, every block carries the
  hash of its contents, every certificate verifies, and no finalized block or certificate the actor
  started with has been lost or replaced, whatever other nodes sent.
\<close>

theorem syncer_consistent:
  assumes "sync_laws A" and "sync_inv A s0" and "sync_reach pr A s0 s"
  shows "(\<forall>h d b. held (sy_blocks s) h = Some (d, b) \<longrightarrow>
            b_height b = h \<and> b_digest b = d \<and> authentic (wire A) b) \<and>
         (\<forall>h d c. held (sy_finalized s) h = Some (d, c) \<longrightarrow>
            c_payload c = d \<and> verify_finalization A (sy_namespace s0) (sy_identity s0) c) \<and>
         (\<forall>v d n. held (sy_notarized s) v = Some (d, n) \<longrightarrow>
            c_view (n_proof n) = v \<and> c_payload (n_proof n) = d \<and> b_digest (n_block n) = d \<and>
            verify_notarization A (sy_namespace s0) (sy_identity s0) (n_proof n)) \<and>
         held (sy_blocks s0) \<subseteq>\<^sub>m held (sy_blocks s) \<and>
         held (sy_finalized s0) \<subseteq>\<^sub>m held (sy_finalized s)"
proof -
  have k: "keeps A s0 s" by (rule sync_reach_inv [OF assms(3,1,2)])
  note inv = sync_invD [OF conjunct1 [OF k]]
  have cfg: "sy_namespace s = sy_namespace s0" "sy_identity s = sy_identity s0"
    "held (sy_blocks s0) \<subseteq>\<^sub>m held (sy_blocks s)" "held (sy_finalized s0) \<subseteq>\<^sub>m held (sy_finalized s)"
    using k by (simp_all add: stable_def grows_def)
  show ?thesis
    using inv(2-4) cfg by (auto simp: all_held_def entry_defs)
qed

theorem syncer_consistent_witness:
  "held (sy_blocks node_after_finalize) 1 = Some (b_digest sample_block, sample_block) \<and>
   held (sy_blocks fresh_node) \<subseteq>\<^sub>m held (sy_blocks node_after_finalize) \<and>
   c_payload sample_cert = b_digest sample_block"
proof -
  have "cancel_stale fresh_node = (fresh_node, [] :: nat sync_effect list)"
    by (simp add: cancel_stale_def fresh_node_def syncer_new_def)
  then have "sync_step Debug sample_api with_sample (FromMailbox (Some (Finalize sample_cert))) fresh_node
      = (Ok (node_after_finalize, [NotifyFinalizer]) :: (unit, u64, nat) sync_result)"
    by (simp add: sync_step_def fresh_node_finalizes)
  then have r: "sync_reach Debug sample_api fresh_node node_after_finalize"
    by (intro reach_step [OF reach_start]) simp_all
  have h: "held (sy_blocks node_after_finalize) 1 = Some (b_digest sample_block, sample_block)"
    "held (sy_finalized node_after_finalize) 1 = Some (b_digest sample_block, sample_cert)"
    by (simp_all add: node_after_finalize_def held_def)
  from syncer_consistent [OF sample_api_laws fresh_node_inv r] h show ?thesis by blast
qed

section \<open>Requests for a block\<close>

text \<open>
  C15. \<open>Message::Get\<close>: either the requester is sent a block with the digest asked for and an
  authentic one, or none of the buffer and the three archives has it and the requester is
  subscribed, after a fetch by view when the view is known. The state does not change, and without
  a storage error the handler always ends in one of the two.
\<close>

lemma or_else_total: "or_else (Ok x) (Ok y) = Ok (if x = None then y else x)"
  by (cases x) auto

lemma finds_total:
  assumes "no_storage_error (verified_ar A)" "no_storage_error (notarized_ar A)"
    "no_storage_error (blocks_ar A)"
  shows "\<exists>b. find_verified A msg s d = Ok b" and "\<exists>n. find_notarized A s d = Ok n"
    and "\<exists>b. find_block A s d = Ok b"
  using no_storage_errorD(2) [OF assms(1), of "sy_verified s" d]
    no_storage_errorD(2) [OF assms(2), of "sy_notarized s" d]
    no_storage_errorD(2) [OF assms(3), of "sy_blocks s" d]
  by (auto simp: find_verified_def find_notarized_def find_block_def)

theorem get_answers_or_subscribes:
  assumes "sync_laws A" and "sync_inv A s" and "env_ok A env"
    and "no_storage_error (verified_ar A)" "no_storage_error (notarized_ar A)"
    "no_storage_error (blocks_ar A)"
  shows "(\<exists>b. handle_get A env view d r s = (Ok (s, [SendBlock r b]) :: ('e, 'h, 'r) sync_result) \<and>
              b_digest b = d \<and> authentic (wire A) b) \<or>
         (handle_get A env view d r s =
            (Ok (s, (case view of Some v \<Rightarrow> [Fetch (multi_index_new (Notarized v))] | None \<Rightarrow> [])
                   @ [Subscribe d r]) :: ('e, 'h, 'r) sync_result) \<and>
          buffered env d = [] \<and>
          (\<forall>i b. held (sy_verified s) i \<noteq> Some (d, b)) \<and> (\<forall>i n. held (sy_notarized s) i \<noteq> Some (d, n)) \<and>
          (\<forall>i b. held (sy_blocks s) i \<noteq> Some (d, b)))"
proof -
  let ?v = "find_verified A ''Failed to read verified block store'' s d"
  let ?n = "and_then (find_notarized A s d) (\<lambda>n. Ok (map_option n_block n))"
  let ?src = "or_else (Ok (find_buffered env d)) (or_else ?v (or_else ?n (find_block A s d)))"
  have "\<exists>z. ?v = (Ok z :: ('e, _) outcome)" "\<exists>z. find_notarized A s d = (Ok z :: ('e, _) outcome)"
    "\<exists>z. find_block A s d = (Ok z :: ('e, _) outcome)"
    by (rule finds_total [OF assms(4-6)])+
  then obtain v n b where "?v = (Ok v :: ('e, _) outcome)" "?n = (Ok n :: ('e, _) outcome)"
    "find_block A s d = (Ok b :: ('e, _) outcome)" by fastforce
  then have "\<exists>z. ?src = (Ok z :: ('e, _) outcome)"
    by (simp add: or_else_total)
  then obtain found where src: "?src = (Ok found :: ('e, _) outcome)" by blast
  show ?thesis
  proof (cases found)
    case (Some b)
    with src have "b_digest b = d \<and> authentic (wire A) b"
      by (auto simp: outcome_simps entry_defs dest: find_buffered_ok [OF assms(3)]
          find_verified_ok [OF assms(1,2)] find_notarized_ok [OF assms(1,2)] find_block_ok [OF assms(1,2)])
    with src Some show ?thesis by (auto simp: handle_get_def)
  next
    case None
    with src have none: "find_buffered env d = None" "?v = (Ok None :: ('e, _) outcome)"
      "find_notarized A s d = (Ok None :: ('e, _) outcome)"
      "find_block A s d = (Ok None :: ('e, _) outcome)"
      by (auto simp: outcome_simps)
    then have keys: "ar_get_key (verified_ar A) (sy_verified s) d = Some None"
      "ar_get_key (notarized_ar A) (sy_notarized s) d = Some None"
      "ar_get_key (blocks_ar A) (sy_blocks s) d = Some None"
      by (simp_all add: find_verified_def find_notarized_def find_block_def outcome_simps)
    note missing = get_key_missing [OF sync_lawsD(1) [OF assms(1)] keys(1)]
      get_key_missing [OF sync_lawsD(2) [OF assms(1)] keys(2)]
      get_key_missing [OF sync_lawsD(4) [OF assms(1)] keys(3)]
    have "buffered env d = []"
      using none(1) by (simp add: find_buffered_def split: list.splits)
    with src None missing show ?thesis
      by (auto simp: handle_get_def split: option.splits)
  qed
qed

theorem get_answers_or_subscribes_witness:
  "handle_get sample_api quiet (Some 3) 99 7 fresh_node
     = (Ok (fresh_node, [Fetch (multi_index_new (Notarized 3)), Subscribe 99 7])
         :: (unit, u64, nat) sync_result)"
proof -
  have "held (sy_blocks fresh_node) i = None" "held (sy_verified fresh_node) i = None"
    "held (sy_notarized fresh_node) i = None" for i
    by (simp_all add: fresh_node_def syncer_new_def)
  moreover have "handle_get sample_api quiet (Some 3) 99 7 fresh_node
      \<noteq> (Ok (fresh_node, [SendBlock 7 b]) :: (unit, u64, nat) sync_result)" for b
    by (simp add: handle_get_def node_simps)
  ultimately show ?thesis
    using get_answers_or_subscribes [of sample_api fresh_node quiet "Some 3" 99 7, where 'e = unit]
    by simp
qed

section \<open>Finalization\<close>

text \<open>
  C17. \<open>Message::Finalize\<close> with the block in the broadcast buffer and storage that works: block and certificate are
  in the finalized archives at the block's height unless that height was taken (then it is left as it
  was), the finalizer is notified, the view is recorded, and of the other two archives only
  entries more than \<open>activity_timeout\<close> views behind the last processed one may go.
\<close>

theorem finalize_persists:
  assumes "sync_laws A" and "find_buffered env (c_payload c) = Some b"
    and "no_storage_error (verified_ar A)" "no_storage_error (notarized_ar A)"
    and "never_refuses (finalized_ar A)" "never_refuses (blocks_ar A)"
  shows "\<exists>s'. handle_finalize A env c s = (Ok (s', [NotifyFinalizer]) :: ('e, 'h, 'r) sync_result) \<and>
           held (sy_blocks s') = (if held (sy_blocks s) (b_height b) = None
              then (held (sy_blocks s))(b_height b \<mapsto> (c_payload c, b)) else held (sy_blocks s)) \<and>
           held (sy_finalized s') = (if held (sy_finalized s) (b_height b) = None
              then (held (sy_finalized s))(b_height b \<mapsto> (c_payload c, c)) else held (sy_finalized s)) \<and>
           sy_latest_view s' = c_view c \<and>
           (\<forall>v. unat (sy_last_view_processed s) - unat (sy_activity_timeout s) \<le> unat v \<longrightarrow>
              held (sy_verified s') v = held (sy_verified s) v \<and>
              held (sy_notarized s') v = held (sy_notarized s) v)"
proof -
  let ?m = "saturating_sub (sy_last_view_processed s) (sy_activity_timeout s)"
  obtain fin bl where
    fin: "ar_put (finalized_ar A) (b_height b) (c_payload c) c (sy_finalized s) = Inr fin" and
    bl: "ar_put (blocks_ar A) (b_height b) (c_payload c) b (sy_blocks s) = Inr bl"
    using assms(5,6) unfolding never_refuses_def by metis
  obtain v n where
    v: "ar_prune (verified_ar A) ?m (sy_verified s) = Some v" and
    n: "ar_prune (notarized_ar A) ?m (sy_notarized s) = Some n"
    using no_storage_errorD(3) [OF assms(3), of ?m "sy_verified s"]
      no_storage_errorD(3) [OF assms(4), of ?m "sy_notarized s"] by blast
  have kept: "held v w = held (sy_verified s) w \<and> held n w = held (sy_notarized s) w"
    if "unat (sy_last_view_processed s) - unat (sy_activity_timeout s) \<le> unat w" for w
  proof -
    have "\<not> w < ?m" using that by (simp add: word_less_nat_alt unat_saturating_sub)
    with prune_held [OF sync_lawsD(1) [OF assms(1)] v, of w] prune_held [OF sync_lawsD(2) [OF assms(1)] n, of w]
    show ?thesis by blast
  qed
  let ?s' = "s\<lparr>sy_finalized := fin, sy_blocks := bl, sy_verified := v, sy_notarized := n,
                sy_latest_view := c_view c\<rparr>"
  have run: "handle_finalize A env c s = (Ok (?s', [NotifyFinalizer]) :: ('e, 'h, 'r) sync_result)"
    using assms(2) fin bl v n by (simp add: handle_finalize_def Let_def)
  show ?thesis
    using kept put_held [OF sync_lawsD(3) [OF assms(1)] fin] put_held [OF sync_lawsD(4) [OF assms(1)] bl]
    by (intro exI [of _ ?s'] conjI run) simp_all
qed

theorem finalize_persists_witness:
  "\<exists>s'. handle_finalize sample_api with_sample sample_cert fresh_node
      = (Ok (s', [NotifyFinalizer]) :: (unit, u64, nat) sync_result) \<and>
     held (sy_blocks s') 1 = Some (b_digest sample_block, sample_block) \<and> sy_latest_view s' = 3"
proof -
  have "held (sy_blocks fresh_node) 1 = None" by (simp add: fresh_node_def syncer_new_def)
  with finalize_persists [of sample_api with_sample sample_cert sample_block fresh_node, where 'e = unit]
  show ?thesis by auto
qed

end
