(* ===== verification/Syncer_Network.thy ===== *)
theory Syncer_Network
  imports Sample_Node
begin

text \<open>
  The syncer towards other nodes: what it accepts from them, what it sends them, whether the two
  agree, and the inputs with which a peer stops the actor.
\<close>

section \<open>Accepting\<close>

text \<open>The bytes are the answer to a request for the value.\<close>

definition answers :: "'h sync_api \<Rightarrow> 'h syncer \<Rightarrow> index_value \<Rightarrow> bytes \<Rightarrow> bool" where
  "answers A s v bs \<longleftrightarrow>
     (case v of
        Notarized view \<Rightarrow> \<exists>n. notarized_read (wire A) bs = Ok (n, []) \<and>
          verify_notarization A (sy_namespace s) (sy_identity s) (n_proof n) \<and> c_view (n_proof n) = view
      | Finalized height \<Rightarrow> \<exists>f. finalized_read (wire A) bs = Ok (f, []) \<and>
          verify_finalization A (sy_namespace s) (sy_identity s) (f_proof f) \<and>
          b_height (f_block f) = height
      | Digest d \<Rightarrow> \<exists>b. block_read (wire A) bs = Ok (b, []) \<and> b_digest b = d)"

lemma deliver_answers:
  assumes "sync_laws A"
    and "handle_deliver A (multi_index_new v) bs r s = (Ok (s', es) :: ('e, 'h, 'r) sync_result)"
  shows "(SendBool r True \<in> set es \<longleftrightarrow> answers A s v bs) \<and>
         (\<not> answers A s v bs \<longrightarrow> es = [SendBool r False] \<and> s' = s)"
proof (cases v)
  case (Notarized view)
  with assms(2) have "deliver_notarized A view bs r s = (Ok (s', es) :: ('e, 'h, 'r) sync_result)"
    by (simp add: handle_deliver_def to_value_of_new)
  then show ?thesis
    by (cases rule: deliver_notarized_cases)
       (auto simp: Notarized answers_def sync_lawsD(8) [OF assms(1)])
next
  case (Finalized height)
  with assms(2) have "deliver_finalized A height bs r s = (Ok (s', es) :: ('e, 'h, 'r) sync_result)"
    by (simp add: handle_deliver_def to_value_of_new)
  then show ?thesis
    by (cases rule: deliver_finalized_cases)
       (auto simp: Finalized answers_def sync_lawsD(9) [OF assms(1)])
next
  case (Digest d)
  with assms(2) have "deliver_digest A d bs r s = (Ok (s', es) :: ('e, 'h, 'r) sync_result)"
    by (simp add: handle_deliver_def to_value_of_new)
  then show ?thesis
    by (cases rule: deliver_digest_cases)
       (auto simp: Digest answers_def sync_lawsD(7) [OF assms(1)])
qed

text \<open>
  C9. \<open>Message::Deliver\<close> for a key the node asked for: the resolver is told \<open>true\<close> exactly when the
  bytes are a complete encoding of what the key names, with a certificate that verifies for the
  node's network and the view, height or digest of the key. In every other case it is told \<open>false\<close>
  (and blames the peer), and nothing changes.
\<close>

theorem deliver_accepts_iff:
  assumes "sync_laws A"
    and "handle_deliver A (multi_index_new v) bs r s = (Ok (s', es) :: ('e, 'h, 'r) sync_result)"
  shows "(SendBool r True \<in> set es \<longleftrightarrow> answers A s v bs) \<and>
         (\<not> answers A s v bs \<longrightarrow> es = [SendBool r False] \<and> s' = s)"
  by (rule deliver_answers [OF assms])

theorem deliver_accepts_iff_witness:
  "\<exists>s' es. handle_deliver sample_api (multi_index_new (Digest 5)) [0, 0, 0, 0] (7 :: nat) fresh_node
      = (Ok (s', es) :: (unit, u64, nat) sync_result) \<and> es = [SendBool 7 False] \<and> s' = fresh_node"
proof -
  have rd: "block_read inline_api [0, 0, 0, 0] = Err (InvalidData ''Block'' ''Unable to decode bytes for block'')"
    by code_simp
  then have run: "handle_deliver sample_api (multi_index_new (Digest 5)) [0, 0, 0, 0] (7 :: nat) fresh_node
      = (Ok (fresh_node, [SendBool 7 False]) :: (unit, u64, nat) sync_result)"
    by (simp add: handle_deliver_def to_value_of_new deliver_digest_def decode_whole_def)
  moreover have "\<not> answers sample_api fresh_node (Digest 5) [0, 0, 0, 0]"
    by (simp add: answers_def rd)
  ultimately show ?thesis
    using deliver_accepts_iff [OF sample_api_laws run] by blast
qed

section \<open>Producing\<close>

lemma encode_written:
  assumes "sync_laws A"
  shows "fits (wire A) b \<Longrightarrow> authentic (wire A) b \<Longrightarrow>
           block_read (wire A) (encode_block A b) = Ok (b, [])"
    and "fits (wire A) (n_block n) \<Longrightarrow> notarized_ok (wire A) n \<Longrightarrow>
           notarized_read (wire A) (encode_notarized A n) = Ok (n, [])"
    and "fits (wire A) (f_block f) \<Longrightarrow> finalized_ok (wire A) f \<Longrightarrow>
           finalized_read (wire A) (encode_finalized A f) = Ok (f, [])"
proof -
  have enc: "encodes (block_write (wire A)) (block_encode_size (wire A)) (encode_block A)"
    "encodes (notarized_write (wire A)) (notarized_encode_size (wire A)) (encode_notarized A)"
    "encodes (finalized_write (wire A)) (finalized_encode_size (wire A)) (encode_finalized A)"
    using assms by (simp_all add: sync_laws_def codec_laws_def)
  note laws = sync_lawsD(5,6) [OF assms]
  { assume b: "fits (wire A) b" "authentic (wire A) b"
    have "encode_block A b = block_write (wire A) b"
      using enc(1) block_codec.size_exact [of "wire A" b] b laws by (simp add: encodes_def)
    then show "block_read (wire A) (encode_block A b) = Ok (b, [])"
      using block_codec.rd_wr_exact [of "wire A" b] b laws by simp }
  { assume n: "fits (wire A) (n_block n)" "notarized_ok (wire A) n"
    have "encode_notarized A n = notarized_write (wire A) n"
      using enc(2) notarized_codec.size_exact [of "wire A" n] n laws by (simp add: encodes_def)
    then show "notarized_read (wire A) (encode_notarized A n) = Ok (n, [])"
      using notarized_codec.rd_wr_exact [of "wire A" n] n laws by simp }
  { assume f: "fits (wire A) (f_block f)" "finalized_ok (wire A) f"
    have "encode_finalized A f = finalized_write (wire A) f"
      using enc(3) finalized_codec.size_exact [of "wire A" f] f laws by (simp add: encodes_def)
    then show "finalized_read (wire A) (encode_finalized A f) = Ok (f, [])"
      using finalized_codec.rd_wr_exact [of "wire A" f] f laws by simp }
qed

text \<open>Everything a node could send is below the 4 GiB a length prefix reaches.\<close>

definition all_fit :: "'h sync_api \<Rightarrow> 'r sync_env \<Rightarrow> 'h syncer \<Rightarrow> bool" where
  "all_fit A env s \<longleftrightarrow>
     (\<forall>d. \<forall>b \<in> set (buffered env d). fits (wire A) b) \<and>
     all_held (\<lambda>_ _ b. fits (wire A) b) (sy_verified s) \<and>
     all_held (\<lambda>_ _ n. fits (wire A) (n_block n)) (sy_notarized s) \<and>
     all_held (\<lambda>_ _ b. fits (wire A) b) (sy_blocks s)"

lemma produce_notarized_answers:
  assumes "sync_laws A" and "sync_inv A p" and "all_fit A env p"
    and "sy_namespace q = sy_namespace p" and "sy_identity q = sy_identity p"
    and "produce_notarized A view r p = (Ok (p', [SendBytes r bs]) :: ('e, 'h, 'r) sync_result)"
  shows "answers A q (Notarized view) bs"
proof -
  from assms(6) obtain n where
    get: "ar_get_index (notarized_ar A) (sy_notarized p) view = Some (Some n)" and
    bs: "bs = encode_notarized A n"
    by (auto simp: produce_notarized_def outcome_simps split: option.split_asm)
  from all_held_index [OF sync_lawsD(2) [OF assms(1)] sync_invD(2) [OF assms(2)] get]
  obtain d where n: "held (sy_notarized p) view = Some (d, n)" "notarized_entry A p view d n" by blast
  moreover have "fits (wire A) (n_block n)"
    using assms(3) n(1) unfolding all_fit_def all_held_def by blast
  ultimately have "notarized_read (wire A) bs = Ok (n, [])"
    unfolding bs by (intro encode_written(2) [OF assms(1)]) (simp_all add: notarized_entry_def notarized_ok_def)
  with n(2) assms(4,5) show ?thesis by (simp add: answers_def notarized_entry_def)
qed

lemma produce_finalized_answers:
  assumes "sync_laws A" and "sync_inv A p" and "all_fit A env p"
    and "sy_namespace q = sy_namespace p" and "sy_identity q = sy_identity p"
    and "\<And>d c d' b. held (sy_finalized p) height = Some (d, c) \<Longrightarrow> held (sy_blocks p) height = Some (d', b) \<Longrightarrow> d = d'"
    and "produce_finalized A height r p = (Ok (p', [SendBytes r bs]) :: ('e, 'h, 'r) sync_result)"
  shows "answers A q (Finalized height) bs"
proof -
  from assms(7) obtain c b where
    getc: "ar_get_index (finalized_ar A) (sy_finalized p) height = Some (Some c)" and
    getb: "ar_get_index (blocks_ar A) (sy_blocks p) height = Some (Some b)" and
    bs: "bs = encode_finalized A \<lparr>f_proof = c, f_block = b\<rparr>"
    by (auto simp: produce_finalized_def outcome_simps split: option.split_asm)
  from all_held_index [OF sync_lawsD(3) [OF assms(1)] sync_invD(3) [OF assms(2)] getc]
  obtain d where c: "held (sy_finalized p) height = Some (d, c)" "finalized_entry A p height d c" by blast
  from all_held_index [OF sync_lawsD(4) [OF assms(1)] sync_invD(4) [OF assms(2)] getb]
  obtain d' where b: "held (sy_blocks p) height = Some (d', b)" "block_entry A height d' b" by blast
  have "d = d'" by (rule assms(6) [OF c(1) b(1)])
  moreover have "fits (wire A) b"
    using assms(3) b(1) unfolding all_fit_def all_held_def by blast
  ultimately have "finalized_read (wire A) bs = Ok (\<lparr>f_proof = c, f_block = b\<rparr>, [])"
    unfolding bs using c(2) b(2)
    by (intro encode_written(3) [OF assms(1)]) (simp_all add: finalized_entry_def block_entry_def finalized_ok_def)
  with c(2) b(2) assms(4,5) show ?thesis by (simp add: answers_def finalized_entry_def block_entry_def)
qed

text \<open>Where the answer to a request for a digest comes from.\<close>

lemma produce_digest_sources:
  assumes "produce_digest A env d r p = (Ok (p', [SendBytes r bs]) :: ('e, 'h, 'r) sync_result)"
  obtains (buffer) b where "find_buffered env d = Some b" "bs = encode_block A b"
    | (verified) b where "ar_get_key (verified_ar A) (sy_verified p) d = Some (Some b)" "bs = encode_block A b"
    | (notarized) n where "find_buffered env d = None" "ar_get_key (verified_ar A) (sy_verified p) d = Some None"
        "ar_get_key (notarized_ar A) (sy_notarized p) d = Some (Some n)" "bs = encode_notarized A n"
    | (blocks) b where "ar_get_key (blocks_ar A) (sy_blocks p) d = Some (Some b)" "bs = encode_block A b"
  using assms
  by (auto simp: produce_digest_def outcome_simps find_verified_def find_notarized_def find_block_def split: option.split_asm)

text \<open>The node has the block other than in its notarized archive, in a place it looks into before.\<close>

definition names_digest :: "'r sync_env \<Rightarrow> 'h syncer \<Rightarrow> digest \<Rightarrow> bool" where
  "names_digest env p d \<longleftrightarrow>
     buffered env d \<noteq> [] \<or> (\<exists>i b. held (sy_verified p) i = Some (d, b)) \<or>
     (\<forall>i n. held (sy_notarized p) i \<noteq> Some (d, n))"

lemma produce_digest_notarized:
  assumes "sync_laws A" and "\<not> names_digest env p d"
    and "produce_digest A env d r p = (Ok (p', [SendBytes r bs]) :: ('e, 'h, 'r) sync_result)"
  shows "\<exists>i n. held (sy_notarized p) i = Some (d, n) \<and> bs = encode_notarized A n"
proof -
  have n: "buffered env d = []" "\<And>i b. held (sy_verified p) i \<noteq> Some (d, b)"
    and "\<exists>i n. held (sy_notarized p) i = Some (d, n)"
    using assms(2) by (simp_all add: names_digest_def)
  have empty: "find_buffered env d = None" using n(1) by (simp add: find_buffered_def)
  have none: "find_verified A msg p d \<noteq> (Ok (Some b) :: ('e, _) outcome)" for msg b
    using get_key_held [OF sync_lawsD(1) [OF assms(1)], of "sy_verified p" d b] n(2)
    by (auto simp: find_verified_def outcome_simps)
  have some: "find_notarized A p d \<noteq> (Ok None :: ('e, _) outcome)"
    using get_key_missing [OF sync_lawsD(2) [OF assms(1)], of "sy_notarized p" d] \<open>\<exists>i n. _\<close>
    by (auto simp: find_notarized_def outcome_simps)
  have "produce_digest A env d r p = (Ok (p, [SendBytes r bs]) :: ('e, 'h, 'r) sync_result)"
    using assms(3) produce_state(3) [OF assms(3)] by simp
  then obtain x where x: "find_notarized A p d = (Ok (Some x) :: ('e, _) outcome)" "bs = encode_notarized A x"
    by (auto simp: produce_digest_def outcome_simps empty none some split: option.split_asm)
  then have "ar_get_key (notarized_ar A) (sy_notarized p) d = Some (Some x)"
    by (auto simp: find_notarized_def outcome_simps)
  from get_key_held [OF sync_lawsD(2) [OF assms(1)] this] x(2) show ?thesis by blast
qed

text \<open>A certificate that does not belong to the block filed at its height.\<close>

lemma encode_mismatched:
  assumes "sync_laws A" and "fits (wire A) b" and "authentic (wire A) b" and "c_payload c \<noteq> b_digest b"
  shows "finalized_read (wire A) (encode_finalized A \<lparr>f_proof = c, f_block = b\<rparr>)
           = Err (InvalidData ''types::Finalized'' ''Proof payload does not match block digest'')"
proof -
  let ?f = "\<lparr>f_proof = c, f_block = b\<rparr>"
  note laws = sync_lawsD(5,6) [OF assms(1)]
  have "finalized_encode_size (wire A) ?f = length (finalized_write (wire A) ?f)"
    using block_codec.size_exact [of "wire A" b] laws assms(2,3)
    by (simp add: finalized_encode_size_def finalized_write_def cert_size_exact)
  then have "encode_finalized A ?f = finalized_write (wire A) ?f"
    using assms(1) by (simp add: sync_laws_def codec_laws_def encodes_def)
  then show ?thesis
    using block_codec.rd_wr_exact [of "wire A" b] laws assms(2-4)
    by (simp add: finalized_read_def finalized_write_def cert_rd_wr)
qed

lemma produce_digest_answers:
  assumes "sync_laws A" and "sync_inv A p" and "env_ok A env" and "all_fit A env p"
    and "names_digest env p d"
    and "produce_digest A env d r p = (Ok (p', [SendBytes r bs]) :: ('e, 'h, 'r) sync_result)"
  shows "answers A q (Digest d) bs"
proof -
  consider
      (buffer) b where "find_buffered env d = Some b" "bs = encode_block A b"
    | (verified) b where "ar_get_key (verified_ar A) (sy_verified p) d = Some (Some b)" "bs = encode_block A b"
    | (blocks) b where "ar_get_key (blocks_ar A) (sy_blocks p) d = Some (Some b)" "bs = encode_block A b"
    using assms(6)
  proof (cases rule: produce_digest_sources)
    case (notarized n)
    from get_key_held [OF sync_lawsD(2) [OF assms(1)] notarized(3)] get_key_missing [OF sync_lawsD(1) [OF assms(1)] notarized(2)]
      notarized(1) assms(5) show ?thesis by (auto simp: names_digest_def find_buffered_def split: list.splits)
  qed (use that in blast)+
  then obtain b where b: "bs = encode_block A b" "fits (wire A) b" "authentic (wire A) b" "b_digest b = d"
  proof cases
    case (buffer b)
    then have "b \<in> set (buffered env d)" by (simp add: find_buffered_def split: list.splits)
    with assms(3,4) buffer show ?thesis by (intro that [of b]) (auto simp: env_ok_def all_fit_def)
  next
    case (verified b)
    from get_key_held [OF sync_lawsD(1) [OF assms(1)] verified(1)] obtain i
      where "held (sy_verified p) i = Some (d, b)" by blast
    with assms(2,4) verified show ?thesis
      by (intro that [of b]) (auto simp: sync_inv_def all_fit_def all_held_def verified_entry_def)
  next
    case (blocks b)
    from get_key_held [OF sync_lawsD(4) [OF assms(1)] blocks(1)] obtain i
      where "held (sy_blocks p) i = Some (d, b)" by blast
    with assms(2,4) blocks show ?thesis
      by (intro that [of b]) (auto simp: sync_inv_def all_fit_def all_held_def block_entry_def)
  qed
  with encode_written(1) [OF assms(1) b(2,3)] show ?thesis by (auto simp: answers_def)
qed

text \<open>What the answer names is what the key names.\<close>

fun names_value :: "'r sync_env \<Rightarrow> 'h syncer \<Rightarrow> index_value \<Rightarrow> bool" where
  "names_value env p (Notarized view) = True"
| "names_value env p (Finalized h) =
     (\<exists>d c b. held (sy_finalized p) h = Some (d, c) \<and> held (sy_blocks p) h = Some (d, b))"
| "names_value env p (Digest d) = names_digest env p d"

lemma produce_finalized_mismatch:
  assumes "sync_laws A" and "sync_inv A p" and "all_fit A env p" and "\<not> names_value env p (Finalized height)"
    and "produce_finalized A height r p = (Ok (p', [SendBytes r bs]) :: ('e, 'h, 'r) sync_result)"
  shows "finalized_read (wire A) bs
           = Err (InvalidData ''types::Finalized'' ''Proof payload does not match block digest'')"
proof -
  from assms(5) obtain c b where
    getc: "ar_get_index (finalized_ar A) (sy_finalized p) height = Some (Some c)" and
    getb: "ar_get_index (blocks_ar A) (sy_blocks p) height = Some (Some b)" and
    bs: "bs = encode_finalized A \<lparr>f_proof = c, f_block = b\<rparr>"
    by (auto simp: produce_finalized_def outcome_simps split: option.split_asm)
  from all_held_index [OF sync_lawsD(3) [OF assms(1)] sync_invD(3) [OF assms(2)] getc]
  obtain d where c: "held (sy_finalized p) height = Some (d, c)" "finalized_entry A p height d c" by blast
  from all_held_index [OF sync_lawsD(4) [OF assms(1)] sync_invD(4) [OF assms(2)] getb]
  obtain d' where b: "held (sy_blocks p) height = Some (d', b)" "block_entry A height d' b" by blast
  have "d \<noteq> d'" using assms(4) c(1) b(1) by auto
  moreover have "fits (wire A) b"
    using assms(3) b(1) unfolding all_fit_def all_held_def by blast
  ultimately show ?thesis
    unfolding bs using c(2) b(2)
    by (intro encode_mismatched [OF assms(1)]) (simp_all add: finalized_entry_def block_entry_def)
qed

lemma produced_answers:
  assumes "sync_laws A" and "sync_inv A p" and "env_ok A env" and "all_fit A env p"
    and "sy_namespace q = sy_namespace p" and "sy_identity q = sy_identity p"
    and "handle_produce A env (multi_index_new v) r p = (Ok (p', [SendBytes r bs]) :: (unit, 'h, 'r) sync_result)"
    and "names_value env p v"
  shows "answers A q v bs"
proof (cases v)
  case (Notarized view)
  with assms(7) have "produce_notarized A view r p = (Ok (p', [SendBytes r bs]) :: (unit, 'h, 'r) sync_result)"
    by (simp add: handle_produce_def to_value_of_new)
  from produce_notarized_answers [OF assms(1,2,4-6) this] show ?thesis by (simp add: Notarized)
next
  case (Finalized height)
  with assms(7) have "produce_finalized A height r p = (Ok (p', [SendBytes r bs]) :: (unit, 'h, 'r) sync_result)"
    by (simp add: handle_produce_def to_value_of_new)
  from produce_finalized_answers [OF assms(1,2,4-6) _ this] assms(8)
  show ?thesis by (auto simp: Finalized)
next
  case (Digest d)
  with assms(7) have "produce_digest A env d r p = (Ok (p', [SendBytes r bs]) :: (unit, 'h, 'r) sync_result)"
    by (simp add: handle_produce_def to_value_of_new)
  from produce_digest_answers [OF assms(1-4) _ this] assms(8) show ?thesis by (simp add: Digest)
qed

text \<open>A requester with working storage takes every answer to its request.\<close>

lemma answer_taken:
  assumes "sync_laws A" and "never_refuses (finalized_ar A)" and "never_refuses (blocks_ar A)"
    and "no_storage_error (notarized_ar A)" and ans: "answers A q v bs"
  shows "\<exists>q' es. handle_deliver A (multi_index_new v) bs r' q
            = (Ok (q', SendBool r' True # es) :: ('e, 'h, 'r) sync_result)"
proof -
  have put: "\<exists>a'. ar_put (finalized_ar A) i d c a = Inr a'" "\<exists>b'. ar_put (blocks_ar A) i d b e = Inr b'"
    for i d c a b e using assms(2,3) by (simp_all add: never_refuses_def)
  show ?thesis
  proof (cases v)
    case (Notarized view)
    with ans obtain n where n: "decode_notarized A bs = Ok n" "c_view (n_proof n) = view"
      "verify_notarization A (sy_namespace q) (sy_identity q) (n_proof n)"
      by (auto simp: answers_def sync_lawsD(8) [OF assms(1)])
    obtain a where "put_unless_pruned ''Failed to insert notarized block'' (notarized_ar A) view
        (b_digest (n_block n)) n (sy_notarized q) = (Ok a :: ('e, _) outcome)"
      using put_unless_pruned_total [OF assms(4)] by blast
    with n Notarized show ?thesis
      by (auto simp: handle_deliver_def to_value_of_new deliver_notarized_def)
  next
    case (Finalized height)
    with ans obtain f where f: "decode_finalized A bs = Ok f" "b_height (f_block f) = height"
      "verify_finalization A (sy_namespace q) (sy_identity q) (f_proof f)"
      by (auto simp: answers_def sync_lawsD(9) [OF assms(1)])
    from put obtain fa ba where
      "ar_put (finalized_ar A) height (b_digest (f_block f)) (f_proof f) (sy_finalized q) = Inr fa"
      "ar_put (blocks_ar A) height (b_digest (f_block f)) (f_block f) (sy_blocks q) = Inr ba" by metis
    with f Finalized show ?thesis
      by (auto simp: handle_deliver_def to_value_of_new deliver_finalized_def)
  next
    case (Digest d)
    with ans obtain b where b: "decode_block A bs = Ok b" "b_digest b = d"
      by (auto simp: answers_def sync_lawsD(7) [OF assms(1)])
    from put(2) obtain ba where "ar_put (blocks_ar A) (b_height b) d b (sy_blocks q) = Inr ba" by metis
    with b Digest show ?thesis
      by (auto simp: handle_deliver_def to_value_of_new deliver_digest_def)
  qed
qed

text \<open>
  C10. When nodes of one network understand each other, exactly. What an honest node produces for a key is
  accepted by a node that asked with that key if and only if it names what the key names: always for a
  notarization; for a height, if the certificate and the block filed at it have the same digest; for a
  digest, if the block is not taken from the notarized archive, or the bytes sent happen to be a block of
  that digest as well. A mismatched height is answered with \<open>false\<close>, and what is sent from the
  notarized archive is not the block but the encoded notarization.
\<close>

theorem produced_accepted_iff:
  assumes "sync_laws A" and "sync_inv A p" and "env_ok A env" and "all_fit A env p"
    and "sy_namespace q = sy_namespace p" and "sy_identity q = sy_identity p"
    and "handle_produce A env (multi_index_new v) r p = (Ok (p', [SendBytes r bs]) :: (unit, 'h, 'r) sync_result)"
    and "never_refuses (finalized_ar A)" and "never_refuses (blocks_ar A)" and "no_storage_error (notarized_ar A)"
  shows "((\<exists>q' es. handle_deliver A (multi_index_new v) bs r' q
              = (Ok (q', SendBool r' True # es) :: ('e, 'h, 'r) sync_result)) \<longleftrightarrow>
            names_value env p v \<or> (\<exists>d b. v = Digest d \<and> block_read (wire A) bs = Ok (b, []) \<and> b_digest b = d)) \<and>
         (\<forall>h. v = Finalized h \<and> \<not> names_value env p v \<longrightarrow>
            handle_deliver A (multi_index_new v) bs r' q = (Ok (q, [SendBool r' False]) :: ('e, 'h, 'r) sync_result)) \<and>
         (\<forall>d. v = Digest d \<and> \<not> names_value env p v \<longrightarrow>
            (\<exists>i n. held (sy_notarized p) i = Some (d, n) \<and> bs = encode_notarized A n))"
proof -
  have "(\<exists>q' es. handle_deliver A (multi_index_new v) bs r' q
      = (Ok (q', SendBool r' True # es) :: ('e, 'h, 'r) sync_result)) \<longleftrightarrow> answers A q v bs"
    using deliver_answers [OF assms(1), where r = r'] answer_taken [OF assms(1,8-10)] by fastforce
  moreover have read: "finalized_read (wire A) bs
      = Err (InvalidData ''types::Finalized'' ''Proof payload does not match block digest'')"
    if "v = Finalized h" "\<not> names_value env p v" for h
    using produce_finalized_mismatch [OF assms(1,2,4)] that assms(7) by (simp add: handle_produce_def to_value_of_new)
  moreover have "answers A q v bs \<longleftrightarrow> names_value env p v \<or>
      (\<exists>d b. v = Digest d \<and> block_read (wire A) bs = Ok (b, []) \<and> b_digest b = d)"
  proof (cases "names_value env p v")
    case False
    then show ?thesis using read by (cases v) (simp_all add: answers_def)
  qed (simp add: produced_answers [OF assms(1-7)])
  moreover have "handle_deliver A (multi_index_new v) bs r' q = (Ok (q, [SendBool r' False]) :: ('e, 'h, 'r) sync_result)"
    if "v = Finalized h" "\<not> names_value env p v" for h
    using read [OF that] that(1) sync_lawsD(9,12) [OF assms(1), of bs]
    by (cases "decode_finalized A bs") (auto simp: handle_deliver_def to_value_of_new deliver_finalized_def)
  moreover have "\<exists>i n. held (sy_notarized p) i = Some (d, n) \<and> bs = encode_notarized A n"
    if "v = Digest d" "\<not> names_value env p v" for d
    using produce_digest_notarized [OF assms(1)] that assms(7) by (simp add: handle_produce_def to_value_of_new)
  ultimately show ?thesis by blast
qed

lemma sample_nodes_fit [simp]:
  "all_fit sample_api quiet node_after_finalize" "all_fit sample_api quiet node_with_notarized"
  by (simp_all add: all_fit_def quiet_def all_held_def node_after_finalize_def node_with_notarized_def
      sample_notarized_def fresh_node_def syncer_new_def held_def empty_archive_def)

lemma node_after_finalize_produces:
  "handle_produce sample_api quiet (multi_index_new (Finalized 1)) 7 node_after_finalize
     = (Ok (node_after_finalize,
         [SendBytes 7 (finalized_write inline_api \<lparr>f_proof = sample_cert, f_block = sample_block\<rparr>)])
        :: (unit, u64, nat) sync_result)"
  by (simp add: handle_produce_def to_value_of_new produce_finalized_def node_after_finalize_def node_simps)

theorem produced_accepted_iff_witness:
  "\<exists>q' es. handle_deliver sample_api (multi_index_new (Finalized 1))
      (finalized_write inline_api \<lparr>f_proof = sample_cert, f_block = sample_block\<rparr>) 9 fresh_node
      = (Ok (q', SendBool 9 True # es) :: (unit, u64, nat) sync_result)"
proof -
  have cfg: "sy_namespace fresh_node = sy_namespace node_after_finalize"
    "sy_identity fresh_node = sy_identity node_after_finalize"
    by (simp_all add: node_after_finalize_def)
  have "names_value quiet node_after_finalize (Finalized 1)"
    by (simp add: node_after_finalize_def held_def)
  with produced_accepted_iff [OF sample_api_laws node_after_finalize_inv quiet_ok(1)
      sample_nodes_fit(1) cfg node_after_finalize_produces, where 'e = unit and r' = 9]
  show ?thesis by simp
qed

text \<open>
  The exception in the previous property is real: a node whose only copy of a block is in its
  notarized archive answers a request for the block's digest with the certificate and the block,
  and an honest node that asked for the digest rejects the answer.
\<close>

lemma notarized_answer_rejected:
  "\<exists>p q bs. sync_inv sample_api p \<and> sync_inv sample_api q \<and>
     held (sy_notarized p) 3 = Some (b_digest sample_block, sample_notarized) \<and>
     handle_produce sample_api quiet (multi_index_new (Digest (b_digest sample_block))) 7 p
       = (Ok (p, [SendBytes 7 bs]) :: (unit, u64, nat) sync_result) \<and>
     handle_deliver sample_api (multi_index_new (Digest (b_digest sample_block))) bs 9 q
       = (Ok (q, [SendBool 9 False]) :: (unit, u64, nat) sync_result)"
proof -
  let ?bs = "notarized_write inline_api sample_notarized"
  have p: "handle_produce sample_api quiet (multi_index_new (Digest (b_digest sample_block))) 7
      node_with_notarized = (Ok (node_with_notarized, [SendBytes 7 ?bs]) :: (unit, u64, nat) sync_result)"
    by (simp add: handle_produce_def to_value_of_new produce_digest_def node_with_notarized_def node_simps)
  have "u64_bytes 3 = [0, 0, 0, 0, 0, 0, 0, 3]" by code_simp
  then obtain rest where "?bs = 0 # 0 # 0 # 0 # rest"
    by (simp add: notarized_write_def sample_notarized_def inline_api_def cert_bytes_def)
  moreover have "block_from_ssz inline_api [] = None" by code_simp
  moreover have "take 4 (0 # 0 # 0 # 0 # rest) = [0, 0, 0, 0]" "drop 4 (0 # 0 # 0 # 0 # rest) = rest"
    for rest :: bytes by (simp_all add: numeral_nat)
  moreover have "(of_be [0, 0, 0, 0] :: u32) = 0" by code_simp
  ultimately have "block_read inline_api ?bs
      = Err (InvalidData ''Block'' ''Unable to decode bytes for block'')"
    using block_laws_items(14) [OF inline_api_laws] by (simp add: block_read_eq Let_def)
  then have q: "handle_deliver sample_api (multi_index_new (Digest (b_digest sample_block))) ?bs 9 fresh_node
      = (Ok (fresh_node, [SendBool 9 False]) :: (unit, u64, nat) sync_result)"
    by (simp add: handle_deliver_def to_value_of_new deliver_digest_def decode_whole_def)
  have "held (sy_notarized node_with_notarized) 3 = Some (b_digest sample_block, sample_notarized)"
    by (simp add: node_with_notarized_def held_def)
  with p q show ?thesis
    using node_with_notarized_inv fresh_node_inv by blast
qed

section \<open>Inputs that stop the actor\<close>

text \<open>
  C36. A peer answers a request for a digest with the encoding of a block cut short anywhere, down to
  no bytes at all: decoding panics instead of failing, and the syncer stops instead of telling the
  resolver \<open>false\<close>.
\<close>

theorem truncated_answer_stops_syncer:
  assumes "sync_laws A" and "fits (wire A) b" and "n < length (block_write (wire A) b)"
  shows "handle_deliver A (multi_index_new (Digest d)) (take n (block_write (wire A) b)) r s
           = (Panic BufferUnderflow :: ('e, 'h, 'r) sync_result)"
  using block_read_truncated [OF sync_lawsD(5) [OF assms(1)] assms(2,3)]
  by (simp add: handle_deliver_def to_value_of_new deliver_digest_def sync_lawsD(10) [OF assms(1), symmetric])

theorem truncated_answer_stops_syncer_witness:
  "handle_deliver sample_api (multi_index_new (Digest 5)) [] 7 fresh_node
     = (Panic BufferUnderflow :: (unit, u64, nat) sync_result)"
proof -
  have "0 < length (block_write (wire sample_api) sample_block)"
    by (simp add: block_write_def Let_def)
  from truncated_answer_stops_syncer [OF sample_api_laws _ this, of 5 7 fresh_node, where 'e = unit]
  show ?thesis by simp
qed

text \<open>
  C37. A peer sends a key with an unknown kind: the key is accepted by its codec, and both handlers
  panic on it, so asking a node for such a key stops its syncer.
\<close>

theorem unknown_key_stops_syncer:
  assumes "buf_laws B" and "INDEX_SIZE \<le> length bs" and "2 < bs ! 0"
  shows "\<exists>k. index_read B bs = Ok (k, drop INDEX_SIZE bs) \<and>
             handle_produce A env k r s = (Panic EnteredUnreachable :: ('e, 'h, 'r) sync_result) \<and>
             handle_deliver A k v r s = (Panic EnteredUnreachable :: ('e, 'h, 'r) sync_result)"
proof (intro exI conjI)
  let ?k = "MultiIndex (take INDEX_SIZE bs)"
  show "index_read B bs = Ok (?k, drop INDEX_SIZE bs)"
    using assms(1,2) by (simp add: index_read_eq)
  have "2 < index_bytes ?k ! 0" using assms(3) by (simp add: INDEX_SIZE_def)
  then have "to_value ?k = (Panic EnteredUnreachable :: ('e, index_value) outcome)"
    using to_value_kind(1) by blast
  then show "handle_produce A env ?k r s = (Panic EnteredUnreachable :: ('e, 'h, 'r) sync_result)"
    "handle_deliver A ?k v r s = (Panic EnteredUnreachable :: ('e, 'h, 'r) sync_result)"
    by (simp_all only: handle_produce_def handle_deliver_def and_then.simps)
qed

theorem unknown_key_stops_syncer_witness:
  "\<exists>k. index_read slice_buf (replicate 33 3) = Ok (k, []) \<and>
       handle_produce sample_api quiet k 7 fresh_node
         = (Panic EnteredUnreachable :: (unit, u64, nat) sync_result)"
proof -
  have "INDEX_SIZE \<le> length (replicate 33 (3 :: byte))" "2 < replicate 33 (3 :: byte) ! 0"
    by (simp_all add: INDEX_SIZE_def)
  from unknown_key_stops_syncer [OF slice_buf_laws this, of sample_api quiet 7 fresh_node, where 'e = unit]
  show ?thesis by (auto simp: INDEX_SIZE_def)
qed

end
