(* ===== verification/Syncer_Repair.thy ===== *)
theory Syncer_Repair
  imports Sample_Node
begin

text \<open>
  Repairing a gap in the finalized chain (\<open>Orchestration::Repair\<close>): what is asked of other nodes,
  and that a repair from the node's own archives makes progress towards the height the finalizer
  waits for.
\<close>

section \<open>Requests\<close>

lemma new_inj [simp]: "multi_index_new v = multi_index_new w \<longleftrightarrow> v = w"
proof
  assume "multi_index_new v = multi_index_new w"
  then have "(Ok v :: (unit, _) outcome) = Ok w"
    using to_value_of_new [of v] to_value_of_new [of w] by metis
  then show "v = w" by simp
qed simp

definition height_fetch :: "u64 \<Rightarrow> 'r sync_effect" where
  "height_fetch h = Fetch (multi_index_new (Finalized h))"

lemma height_fetch_simps [simp]:
  "height_fetch h = height_fetch h' \<longleftrightarrow> h = h'" "height_fetch h \<noteq> SendBool r v"
  "height_fetch h \<noteq> Fetch (multi_index_new (Digest d))"
  by (simp_all add: height_fetch_def)

lemma request_heights_eq:
  "distinct gap \<Longrightarrow> request_heights gap requested =
     (fold set_add (filter (\<lambda>h. h \<notin> set requested) gap) requested,
      map height_fetch (filter (\<lambda>h. h \<notin> set requested) gap))"
proof (induction gap arbitrary: requested)
  case (Cons height gap)
  have "filter (\<lambda>h. h \<notin> set (set_add height requested)) gap = filter (\<lambda>h. h \<notin> set requested) gap"
    using Cons.prems by (intro filter_cong) auto
  with Cons show ?case by (simp add: height_fetch_def)
qed simp

lemma set_fold_set_add: "set (fold set_add xs ys) = set xs \<union> set ys"
  by (induction xs arbitrary: ys) auto

lemma distinct_u64_range [simp]: "distinct (u64_range a b)"
proof -
  have "inj_on (word_of_nat :: nat \<Rightarrow> u64) {unat a ..< unat b}"
  proof (rule inj_onI)
    fix m n
    assume "m \<in> {unat a ..< unat b}" "n \<in> {unat a ..< unat b}"
      and eq: "(word_of_nat m :: u64) = word_of_nat n"
    moreover have "unat b < 2 ^ 64" using unsigned_less [of b] by simp
    ultimately have "m < 2 ^ 64" "n < 2 ^ 64" by auto
    then have "unat (word_of_nat m :: u64) = m" "unat (word_of_nat n :: u64) = n"
      by (simp_all add: unat_of_nat)
    with eq show "m = n" by metis
  qed
  then show ?thesis by (simp add: u64_range_def distinct_map)
qed

text \<open>The heights a repair may ask for: up to twenty from the next one on, below the gap's end.\<close>

definition wanted :: "u64 \<Rightarrow> u64 \<Rightarrow> 'h syncer \<Rightarrow> u64 list" where
  "wanted next start s = filter (\<lambda>h. h \<notin> set (sy_requested_blocks s)) (u64_range next (min start (next + 20)))"

lemma wanted_props:
  assumes "unat next + 20 < 2 ^ 64"
  shows "length (wanted next start s) \<le> 20" and "distinct (wanted next start s)"
    and "h \<in> set (wanted next start s) \<longleftrightarrow>
           h \<notin> set (sy_requested_blocks s) \<and> next \<le> h \<and> h < start \<and> unat h < unat next + 20"
proof -
  have n20: "unat (next + 20) = unat next + 20"
    using assms by (subst unat_plus_small) auto
  have "length (wanted next start s) \<le> unat (min start (next + 20)) - unat next"
    unfolding wanted_def by (rule order_trans [OF length_filter_le]) simp
  also have "\<dots> \<le> 20" using n20 by (simp add: min_def word_le_nat_alt) arith
  finally show "length (wanted next start s) \<le> 20" .
  show "distinct (wanted next start s)" by (simp add: wanted_def)
  have "h < next + 20 \<longleftrightarrow> unat h < unat next + 20" by (simp only: word_less_nat_alt n20)
  then show "h \<in> set (wanted next start s) \<longleftrightarrow>
      h \<notin> set (sy_requested_blocks s) \<and> next \<le> h \<and> h < start \<and> unat h < unat next + 20"
    by (auto simp: wanted_def set_u64_range)
qed

lemma request_gap_wanted:
  assumes "unat next + 20 < 2 ^ 64"
    and "request_gap pr env next start r s = (Ok (s', es) :: ('e, 'h, 'r) sync_result)"
  shows "s' = s\<lparr>sy_requested_blocks := fold set_add (wanted next start s) (sy_requested_blocks s)\<rparr> \<and>
         es = map height_fetch (wanted next start s) @ [SendBool r False]"
  using assms(2)
proof (rule request_gap_Ok)
  fix limit requested fetches
  assume "add_ovf pr next 20 = (Ok limit :: ('e, _) outcome)"
  then have "limit = next + 20" by (rule add_ovf_Ok)
  moreover assume "request_heights (u64_range next (min start limit)) (sy_requested_blocks s)
      = (requested, fetches)"
    "s' = s\<lparr>sy_requested_blocks := requested\<rparr>" "es = fetches @ [SendBool r False]"
  ultimately show ?thesis by (simp add: request_heights_eq wanted_def)
qed

text \<open>
  C26. A repair asks other nodes for at most twenty heights, each once: only heights from the next one
  on, inside the gap, not asked for before, and exactly those become outstanding; when it copies a
  block of its own it asks for none.
\<close>

theorem repair_requests:
  assumes "unat next + 20 < 2 ^ 64"
    and "orchestrator_repair pr A env next r s = (Ok (s', es) :: ('e, 'h, 'r) sync_result)"
  shows "\<exists>hs. filter (\<lambda>e. \<exists>h. e = Fetch (multi_index_new (Finalized h))) es
                = map (\<lambda>h. Fetch (multi_index_new (Finalized h))) hs \<and>
              length hs \<le> 20 \<and> distinct hs \<and>
              set (sy_requested_blocks s') = set (sy_requested_blocks s) \<union> set hs \<and>
              (\<forall>h \<in> set hs. h \<notin> set (sy_requested_blocks s) \<and> next \<le> h \<and> unat h < unat next + 20 \<and>
                 (\<exists>start. snd (ar_next_gap (blocks_ar A) (sy_blocks s) next) = Some start \<and> h < start)) \<and>
              (SendBool r True \<in> set es \<longrightarrow> hs = [])"
proof -
  let ?P = "\<lambda>e :: 'r sync_effect. \<exists>h. e = height_fetch h"
  have goal: ?thesis
    if "filter ?P es = map height_fetch hs" "length hs \<le> 20" "distinct hs"
      "set (sy_requested_blocks s') = set (sy_requested_blocks s) \<union> set hs"
      "\<forall>h \<in> set hs. h \<notin> set (sy_requested_blocks s) \<and> next \<le> h \<and> unat h < unat next + 20 \<and>
         (\<exists>start. snd (ar_next_gap (blocks_ar A) (sy_blocks s) next) = Some start \<and> h < start)"
      "SendBool r True \<in> set es \<longrightarrow> hs = []" for hs
    using that unfolding height_fetch_def [abs_def] by blast
  have gap: ?thesis
    if g: "snd (ar_next_gap (blocks_ar A) (sy_blocks s) next) = Some start"
      "request_gap pr env next start r s = (Ok (s', es') :: ('e, 'h, 'r) sync_result)"
      "es = pre @ es'" "filter ?P pre = []" "SendBool r True \<notin> set pre" for start es' pre
  proof -
    note w = wanted_props [OF assms(1), where start = start and s = s]
    have rg: "s' = s\<lparr>sy_requested_blocks := fold set_add (wanted next start s) (sy_requested_blocks s)\<rparr>"
      "es' = map height_fetch (wanted next start s) @ [SendBool r False]"
      using request_gap_wanted [OF assms(1) g(2)] by simp_all
    have "filter ?P (map height_fetch hs) = map (height_fetch :: _ \<Rightarrow> 'r sync_effect) hs" for hs
      by (induction hs) auto
    moreover have "\<not> ?P (SendBool r False)" by (auto simp: height_fetch_def)
    ultimately have f: "filter ?P es = map height_fetch (wanted next start s)"
      using g(4) by (simp add: g(3) rg(2))
    have t: "SendBool r True \<notin> set es"
      using g(5) by (auto simp: g(3) rg(2) height_fetch_def)
    show ?thesis
      using g(1) w f t by (intro goal [of "wanted next start s"]) (auto simp: rg(1) set_fold_set_add)
  qed
  from assms(2) show ?thesis
  proof (cases rule: orchestrator_repair_cases)
    case no_gap
    then show ?thesis by (intro goal [of "[]"]) (auto simp: height_fetch_def)
  next
    case (copied start g b)
    then show ?thesis by (intro goal [of "[]"]) (auto simp: repair_with_Ok height_fetch_def)
  next
    case (asked start g es')
    then show ?thesis
      by (intro gap [of start es' "[Fetch (multi_index_new (Digest (b_parent g)))]"])
        (auto simp: height_fetch_def)
  next
    case (at_genesis start)
    then show ?thesis by (intro gap [of start es "[]"]) simp_all
  qed
qed

section \<open>A chain with a gap\<close>

text \<open>
  For the witnesses: the block at height 5 is finalized, its parent at height 4 is only verified, and
  heights 2 and 3 are missing.
\<close>

definition block4 :: block where
  "block4 = compute_digest inline_api 33 4 400 sample_payload [] 0"

definition block5 :: block where
  "block5 = compute_digest inline_api (b_digest block4) 5 500 sample_payload [] 0"

definition gapped_node :: "(u64 \<times> digest \<times> block) list \<Rightarrow> u64 syncer" where
  "gapped_node vs = fresh_node
     \<lparr>sy_verified := \<lparr>ar_entries = vs, ar_hidden = 0\<rparr>,
      sy_blocks := \<lparr>ar_entries = [(5, b_digest block5, block5)], ar_hidden = 0\<rparr>\<rparr>"

lemma sample_chain [simp]:
  "b_height block4 = 4" "b_height block5 = 5" "b_parent block5 = b_digest block4"
  "authentic inline_api block4" "authentic inline_api block5"
  by (simp_all add: block4_def block5_def compute_digest_def authentic_def rehash_def)

lemma gapped_node_gap [simp]: "snd (ar_next_gap fixed_archive (sy_blocks (gapped_node vs)) 2) = Some 5"
  by (simp add: gapped_node_def fixed_archive_def list_archive_def list_archive_gap_def held_def)

lemma gapped_node_simps [simp]:
  "sy_requested_blocks (gapped_node vs) = []"
  "ar_get_index fixed_archive (sy_blocks (gapped_node vs)) 5 = Some (Some block5)"
  "find_verified sample_api msg (gapped_node []) (b_digest block4) = Ok None"
  "find_notarized sample_api (gapped_node vs) (b_digest block4) = Ok None"
  by (simp_all add: gapped_node_def node_simps)

lemma gapped_node_wants:
  "request_gap Debug quiet 2 5 7 (gapped_node vs)
     = (Ok ((gapped_node vs)\<lparr>sy_requested_blocks := [2, 3, 4]\<rparr>,
         [Fetch (multi_index_new (Finalized 2)), Fetch (multi_index_new (Finalized 3)),
          Fetch (multi_index_new (Finalized 4)), SendBool 7 False]) :: (unit, u64, nat) sync_result)"
proof -
  have "add_ovf Debug (2 :: u64) 20 = (Ok (2 + 20) :: (unit, u64) outcome)"
    by (rule add_ovf_small) simp
  then have "add_ovf Debug (2 :: u64) 20 = (Ok 22 :: (unit, u64) outcome)" by simp
  moreover have "u64_range 2 (min 5 22) = [2, 3, 4]" by code_simp
  moreover have "request_heights [2, 3, 4] [] = ([2, 3, 4],
      [Fetch (multi_index_new (Finalized 2)), Fetch (multi_index_new (Finalized 3)),
       Fetch (multi_index_new (Finalized 4)) :: nat sync_effect])"
    by (simp add: set_add_def insort_insert_key_def)
  ultimately show ?thesis by (simp add: request_gap_def send_expect_def del: request_heights.simps)
qed

lemma gapped_node_repair:
  "orchestrator_repair Debug sample_api quiet 2 7 (gapped_node [])
     = (Ok ((gapped_node [])\<lparr>sy_requested_blocks := [2, 3, 4]\<rparr>,
         [Fetch (multi_index_new (Digest (b_digest block4))),
          Fetch (multi_index_new (Finalized 2)), Fetch (multi_index_new (Finalized 3)),
          Fetch (multi_index_new (Finalized 4)), SendBool 7 False]) :: (unit, u64, nat) sync_result)"
  by (simp add: orchestrator_repair_def gapped_node_wants)

theorem repair_requests_witness:
  "\<exists>s' es hs. orchestrator_repair Debug sample_api quiet 2 7 (gapped_node [])
       = (Ok (s', es) :: (unit, u64, nat) sync_result) \<and>
     filter (\<lambda>e. \<exists>h. e = Fetch (multi_index_new (Finalized h))) es
        = map (\<lambda>h. Fetch (multi_index_new (Finalized h))) hs \<and> length hs \<le> 20 \<and> distinct hs"
proof -
  have "unat (2 :: u64) + 20 < 2 ^ 64" by simp
  from repair_requests [OF this gapped_node_repair] gapped_node_repair show ?thesis by blast
qed

section \<open>Progress\<close>

text \<open>
  What consensus guarantees of the blocks a node has seen: a block another block names as its parent
  is one lower.
\<close>

definition linked :: "'h syncer \<Rightarrow> bool" where
  "linked s \<longleftrightarrow>
     (\<forall>h d b v. held (sy_blocks s) h = Some (d, b) \<longrightarrow> b_digest v = b_parent b \<longrightarrow>
        (\<exists>i e. held (sy_verified s) i = Some (e, v)) \<or> (\<exists>i e n. held (sy_notarized s) i = Some (e, n) \<and> v = n_block n)
        \<longrightarrow> b_height v = b_height b - 1)"

lemma run_start_below:
  assumes "held a j \<noteq> None" and "held a i = None" and "i < j"
  shows "\<exists>s. run_start a i s \<and> s \<le> j"
  using assms(1,3)
proof (induction "unat j" arbitrary: j)
  case 0
  then show ?case by (simp add: word_less_nat_alt)
next
  case (Suc n)
  have "j \<noteq> 0" using Suc.hyps(2) by auto
  then have n: "unat (j - 1) = n" using Suc.hyps(2) by (simp add: unat_minus_one)
  then have lt: "j - 1 < j" using Suc.hyps(2) by (simp add: word_less_nat_alt)
  show ?case
  proof (cases "held a (j - 1) = None")
    case True
    with Suc.prems show ?thesis by (auto simp: run_start_def)
  next
    case False
    with assms(2) have "i \<noteq> j - 1" by auto
    moreover have "i \<le> j - 1"
      using Suc.prems(2) n Suc.hyps(2) by (simp add: word_le_nat_alt word_less_nat_alt)
    ultimately have "i < j - 1" by simp
    from Suc.hyps(1) [OF n [symmetric] False this] obtain s where "run_start a i s" "s \<le> j - 1"
      by blast
    with lt show ?thesis by (intro exI [of _ s]) simp
  qed
qed

text \<open>The repair put the parent of the block above the gap right below it.\<close>

lemma repair_copies:
  assumes "sync_laws A" and "sync_inv A s" and "linked s"
    and "orchestrator_repair pr A env next r s = (Ok (s', es) :: ('e, 'h, 'r) sync_result)"
    and "SendBool r True \<in> set es"
  obtains start g b where "snd (ar_next_gap (blocks_ar A) (sy_blocks s) next) = Some start" "0 < next"
    "held (sy_blocks s) start = Some (b_digest g, g)" "held (sy_blocks s) (start - 1) = None"
    "b_digest b = b_parent g" "es = [SendBool r True]"
    "s' = s\<lparr>sy_blocks := sy_blocks s'\<rparr>"
    "held (sy_blocks s') = (held (sy_blocks s))(start - 1 \<mapsto> (b_parent g, b))"
  using assms(4)
proof (cases rule: orchestrator_repair_cases)
  case (copied start g b)
  from copied(5) obtain a where
    put: "ar_put (blocks_ar A) (b_height b) (b_parent g) b (sy_blocks s) = Inr a" and
    s': "s' = s\<lparr>sy_blocks := a\<rparr>" and es: "es = [SendBool r True]"
    by (auto simp: repair_with_Ok)
  from all_held_index [OF sync_lawsD(4) [OF assms(1)] sync_invD(4) [OF assms(2)] copied(3)]
  have g: "held (sy_blocks s) start = Some (b_digest g, g)" "b_height g = start"
    by (auto simp: block_entry_def)
  have entry: "block_entry A (b_height b) (b_parent g) b"
    by (rule repair_source_ok [OF assms(1,2) copied(4)])
  have free: "held (sy_blocks s) (start - 1) = None"
    using next_gap_Some(1) [OF sync_lawsD(4) [OF assms(1)] copied(1)] by (simp add: run_start_def)
  have "(\<exists>i e. held (sy_verified s) i = Some (e, b)) \<or>
        (\<exists>i e n. held (sy_notarized s) i = Some (e, n) \<and> b = n_block n)"
    using copied(4) get_key_held [OF sync_lawsD(1) [OF assms(1)]] get_key_held [OF sync_lawsD(2) [OF assms(1)]]
    by (simp add: find_verified_def find_notarized_def outcome_simps) blast
  then have "b_height b = start - 1"
    using assms(3) g entry unfolding linked_def block_entry_def by blast
  with put_held [OF sync_lawsD(4) [OF assms(1)] put] free
  have "held a = (held (sy_blocks s))(start - 1 \<mapsto> (b_parent g, b))" by simp
  with s' have "held (sy_blocks s') = (held (sy_blocks s))(start - 1 \<mapsto> (b_parent g, b))" by simp
  moreover have "s' = s\<lparr>sy_blocks := sy_blocks s'\<rparr>" using s' by simp
  moreover have "b_digest b = b_parent g" using entry by (simp add: block_entry_def)
  ultimately show thesis using that [OF copied(1,2) g(1) free _ es] by blast
next
  case no_gap
  with assms(5) show thesis by simp
next
  case (asked start g es')
  from asked(6) have "SendBool r True \<notin> set es'"
  proof (rule request_gap_Ok)
    fix limit requested and fetches :: "'r sync_effect list"
    assume "request_heights (u64_range next (min start limit)) (sy_requested_blocks s) = (requested, fetches)"
      "es' = fetches @ [SendBool r False]"
    then show ?thesis by (auto simp: request_heights_eq height_fetch_def)
  qed
  with asked(7) assms(5) show thesis by simp
next
  case (at_genesis start)
  from at_genesis(3) have "SendBool r True \<notin> set es"
  proof (rule request_gap_Ok)
    fix limit requested and fetches :: "'r sync_effect list"
    assume "request_heights (u64_range next (min start limit)) (sy_requested_blocks s) = (requested, fetches)"
      "es = fetches @ [SendBool r False]"
    then show ?thesis by (auto simp: request_heights_eq height_fetch_def)
  qed
  with assms(5) show thesis by simp
qed

text \<open>
  A repair answered \<open>true\<close> makes progress: where blocks link up by height, it stores exactly one
  block, under the digest its child names, at the free height right below the gap's end, and so
  the number of missing heights before the next stored one shrinks.
\<close>

definition gap_size :: "'h sync_api \<Rightarrow> u64 \<Rightarrow> 'h syncer \<Rightarrow> nat" where
  "gap_size A next s =
     (if held (sy_blocks s) next \<noteq> None then 0
      else case snd (ar_next_gap (blocks_ar A) (sy_blocks s) next) of
          None \<Rightarrow> 0 | Some start \<Rightarrow> unat start - unat next)"

lemma repair_shrinks_gap:
  assumes "sync_laws A" and "sync_inv A s" and "linked s" and "held (sy_blocks s) next = None"
    and "orchestrator_repair pr A env next r s = (Ok (s', es) :: ('e, 'h, 'r) sync_result)"
    and "SendBool r True \<in> set es"
  shows "gap_size A next s' < gap_size A next s"
  using assms(1-3,5,6)
proof (rule repair_copies)
  fix start g b
  assume gap: "snd (ar_next_gap (blocks_ar A) (sy_blocks s) next) = Some start"
    and upd: "held (sy_blocks s') = (held (sy_blocks s))(start - 1 \<mapsto> (b_parent g, b))"
  note laws = sync_lawsD(4) [OF assms(1)]
  have lt: "next < start" using next_gap_Some(1) [OF laws gap] by (simp add: run_start_def)
  then have pos: "0 < gap_size A next s"
    by (simp add: gap_size_def assms(4) gap word_less_nat_alt)
  have "start \<noteq> 0" using lt by auto
  then have u: "unat (start - 1) = unat start - 1" by (simp add: unat_minus_one)
  show ?thesis
  proof (cases "start - 1 = next")
    case True
    with pos upd show ?thesis by (simp add: gap_size_def)
  next
    case False
    with upd assms(4) have free: "held (sy_blocks s') next = None" by simp
    have "next \<le> start - 1" using lt u by (simp add: word_le_nat_alt word_less_nat_alt)
    with False have "next < start - 1" by simp
    from run_start_below [OF _ free this] upd obtain t where
      t: "run_start (sy_blocks s') next t" "t \<le> start - 1" by auto
    then obtain t' where t': "snd (ar_next_gap (blocks_ar A) (sy_blocks s') next) = Some t'"
      using next_gap_None [OF laws] by (cases "snd (ar_next_gap (blocks_ar A) (sy_blocks s') next)") auto
    have "t' \<le> start - 1" using next_gap_Some(2) [OF laws t' t(1)] t(2) by simp
    then have "unat t' \<le> unat start - 1" using u by (simp add: word_le_nat_alt)
    moreover have "unat next < unat start" using lt by (simp add: word_less_nat_alt)
    ultimately show ?thesis
      by (simp add: gap_size_def assms(4) free gap t')
  qed
qed

lemma repair_progress:
  assumes "sync_laws A" and "sync_inv A s" and "linked s" and "held (sy_blocks s) next = None"
    and "orchestrator_repair pr A env next r s = (Ok (s', es) :: ('e, 'h, 'r) sync_result)"
    and "SendBool r True \<in> set es"
  shows "gap_size A next s' < gap_size A next s \<and>
         (\<exists>start g b. held (sy_blocks s) start = Some (b_digest g, g) \<and>
            held (sy_blocks s) (start - 1) = None \<and> b_digest b = b_parent g \<and>
            held (sy_blocks s') = (held (sy_blocks s))(start - 1 \<mapsto> (b_parent g, b)))"
proof
  show "gap_size A next s' < gap_size A next s" by (rule repair_shrinks_gap [OF assms])
  from assms(1-3,5,6) show "\<exists>start g b. held (sy_blocks s) start = Some (b_digest g, g) \<and>
      held (sy_blocks s) (start - 1) = None \<and> b_digest b = b_parent g \<and>
      held (sy_blocks s') = (held (sy_blocks s))(start - 1 \<mapsto> (b_parent g, b))"
    by (rule repair_copies) blast
qed

abbreviation repairable_node :: "u64 syncer" where
  "repairable_node \<equiv> gapped_node [(9, b_digest block4, block4)]"

lemma repairable_ok [simp]:
  "sync_inv sample_api repairable_node" "linked repairable_node"
  "held (sy_blocks repairable_node) 2 = None"
  by (auto simp: gapped_node_def sync_inv_def all_held_def linked_def held_def fresh_node_def
      syncer_new_def empty_archive_def entry_defs split: if_splits)

lemma repairable_repair:
  "orchestrator_repair Debug sample_api quiet 2 7 repairable_node
     = (Ok (repairable_node\<lparr>sy_blocks :=
              \<lparr>ar_entries = [(4, b_digest block4, block4), (5, b_digest block5, block5)], ar_hidden = 0\<rparr>\<rparr>,
            [SendBool 7 True]) :: (unit, u64, nat) sync_result)"
proof -
  have v: "find_verified sample_api msg repairable_node (b_digest block4) = (Ok (Some block4) :: (unit, _) outcome)"
    for msg by (simp add: gapped_node_def node_simps)
  have p: "ar_put fixed_archive 4 (b_digest block4) block4 (sy_blocks repairable_node)
      = Inr \<lparr>ar_entries = [(4, b_digest block4, block4), (5, b_digest block5, block5)], ar_hidden = 0\<rparr>"
    by (simp add: gapped_node_def fixed_archive_def held_def)
  show ?thesis
    by (simp add: orchestrator_repair_def v repair_with_def p send_expect_def Let_def)
qed

end
