(* ===== verification/Syncer_Total.thy ===== *)
theory Syncer_Total
  imports Syncer_Repair
begin

text \<open>
  When the syncer cannot stop: with storage that works, a step ends in a new state for every event
  whose senders and receivers are alive, whatever certificates and blocks it carries, except for the
  two inputs of a peer on which decoding unwinds.
\<close>

definition reliable :: "'h sync_api \<Rightarrow> bool" where
  "reliable A \<longleftrightarrow>
     no_storage_error (verified_ar A) \<and> no_storage_error (notarized_ar A) \<and>
     no_storage_error (finalized_ar A) \<and> no_storage_error (blocks_ar A) \<and>
     never_refuses (finalized_ar A) \<and> never_refuses (blocks_ar A)"

text \<open>The key has a known kind, and the bytes do not make the reader of that kind unwind.\<close>

definition decodes_safely :: "'h sync_api \<Rightarrow> multi_index \<Rightarrow> bytes \<Rightarrow> bool" where
  "decodes_safely A key bs \<longleftrightarrow>
     (case to_value key :: (unit, index_value) outcome of
        Ok (Notarized _) \<Rightarrow> \<forall>p. notarized_read (wire A) bs \<noteq> Panic p
      | Ok (Finalized _) \<Rightarrow> \<forall>p. finalized_read (wire A) bs \<noteq> Panic p
      | Ok (Digest _) \<Rightarrow> \<forall>p. block_read (wire A) bs \<noteq> Panic p
      | _ \<Rightarrow> False)"

fun event_safe :: "'h sync_api \<Rightarrow> 'r sync_env \<Rightarrow> 'r sync_event \<Rightarrow> bool" where
  "event_safe A env (FromMailbox m) = (m \<noteq> None)"
| "event_safe A env (FromOrchestrator (Some (OrchestrationGet n r))) = listening env r"
| "event_safe A env (FromOrchestrator (Some (OrchestrationProcessed n d))) = True"
| "event_safe A env (FromOrchestrator (Some (OrchestrationRepair n r))) =
     (listening env r \<and> unat n + 20 < 2 ^ 64)"
| "event_safe A env (FromHandler (Some (Deliver k bs r))) = decodes_safely A k bs"
| "event_safe A env (FromHandler (Some (Produce k r))) = (index_bytes k ! 0 \<le> 2)"
| "event_safe A env _ = False"

definition returns :: "('e, 'a) outcome \<Rightarrow> bool" where
  "returns m \<longleftrightarrow> (\<exists>x. m = Ok x)"

lemma returns_Ok [simp]: "returns (Ok x)"
  by (simp add: returns_def)

lemma returns_and_then: "returns m \<Longrightarrow> (\<And>x. m = Ok x \<Longrightarrow> returns (f x)) \<Longrightarrow> returns (and_then m f)"
  by (auto simp: returns_def)

lemma returns_or_else: "returns m \<Longrightarrow> returns m' \<Longrightarrow> returns (or_else m m')"
  unfolding returns_def by (metis (no_types, lifting) not_None_eq or_else.simps(1,2))

lemma returns_expect [simp]:
  "returns (expect_some msg x) \<longleftrightarrow> x \<noteq> None" "returns (expect_ok msg r) \<longleftrightarrow> (\<exists>y. r = Inr y)"
  by (auto simp: returns_def outcome_simps)

lemma returns_send [simp]: "returns (send_expect env msg r eff) \<longleftrightarrow> listening env r"
  by (simp add: returns_def send_expect_def)

lemma returns_put [simp]:
  "returns (put_unless_pruned msg R i d v a) \<longleftrightarrow> ar_put R i d v a \<noteq> Inl StorageError"
  by (auto simp: returns_def put_unless_pruned_def split: sum.splits put_error.splits)

lemma reliable_reads:
  assumes "reliable A"
  shows "ar_get_key (verified_ar A) va d \<noteq> None" "ar_get_key (notarized_ar A) na d \<noteq> None"
    "ar_get_key (blocks_ar A) ba d \<noteq> None" "ar_get_index (notarized_ar A) na i \<noteq> None"
    "ar_get_index (finalized_ar A) fa i \<noteq> None" "ar_get_index (blocks_ar A) ba i \<noteq> None"
    "ar_prune (verified_ar A) v va \<noteq> None" "ar_prune (notarized_ar A) v na \<noteq> None"
    "ar_put (verified_ar A) i d b va \<noteq> Inl StorageError"
    "ar_put (notarized_ar A) i d n na \<noteq> Inl StorageError"
    "\<exists>a'. ar_put (finalized_ar A) i d c fa = Inr a'" "\<exists>a'. ar_put (blocks_ar A) i d b ba = Inr a'"
  using assms by (simp_all add: reliable_def no_storage_error_def never_refuses_def)

lemma reliable_finds [simp]:
  assumes "reliable A"
  shows "returns (find_verified A msg s d)" "returns (find_notarized A s d)" "returns (find_block A s d)"
  using reliable_reads [OF assms] by (simp_all add: find_verified_def find_notarized_def find_block_def)

lemmas returns_intros = returns_and_then returns_or_else

lemma handle_message_returns:
  assumes "reliable A"
  shows "returns (handle_message A env m s)"
  using assms reliable_reads [OF assms]
  by (cases m)
     (auto simp: handle_get_def handle_broadcast_def handle_store_verified_def handle_finalize_def
        handle_notarize_def Let_def split: option.splits intro!: returns_intros)

lemma request_gap_returns:
  assumes "listening env r" and "unat n + 20 < 2 ^ 64"
  shows "returns (request_gap pr env n start r s)"
  using assms
  by (auto simp: request_gap_def add_ovf_small Let_def split: prod.splits intro!: returns_intros)

lemma repair_with_returns:
  "reliable A \<Longrightarrow> listening env r \<Longrightarrow> returns (repair_with A env d b r s)"
  using reliable_reads(12) [of A] by (auto simp: repair_with_def intro!: returns_intros)

lemma orchestrator_repair_returns:
  assumes "sync_laws A" and "reliable A" and "listening env r" and "unat n + 20 < 2 ^ 64"
  shows "returns (orchestrator_repair pr A env n r s)"
proof (cases "snd (ar_next_gap (blocks_ar A) (sy_blocks s) n)")
  case None
  with assms(3) show ?thesis by (auto simp: orchestrator_repair_def intro!: returns_intros)
next
  case (Some start)
  obtain g where get: "ar_get_index (blocks_ar A) (sy_blocks s) start = Some g"
    using reliable_reads(6) [OF assms(2)] by blast
  with get_index_held [OF sync_lawsD(4) [OF assms(1)] get]
    next_gap_Some(1) [OF sync_lawsD(4) [OF assms(1)] Some]
  obtain b where "ar_get_index (blocks_ar A) (sy_blocks s) start = Some (Some b)"
    by (auto simp: run_start_def)
  with Some show ?thesis
    using repair_with_returns [OF assms(2,3)] request_gap_returns [OF assms(3,4)] assms(2)
    by (auto simp: orchestrator_repair_def Let_def split: option.splits intro!: returns_intros)
qed

lemma handle_orchestration_returns:
  assumes "sync_laws A" and "reliable A" and "event_safe A env (FromOrchestrator (Some m))"
  shows "returns (handle_orchestration pr A env m s)"
  using assms(3) reliable_reads(5,6) [OF assms(2)] orchestrator_repair_returns [OF assms(1,2)]
  by (cases m) (auto simp: orchestrator_get_def orchestrator_processed_def intro!: returns_intros)

lemma handle_deliver_returns:
  assumes "sync_laws A" and "reliable A" and "decodes_safely A k bs"
  shows "returns (handle_deliver A k bs r s :: ('e, 'h, 'r) sync_result)"
proof -
  note puts = reliable_reads(10-12) [OF assms(2)]
  obtain v where v: "to_value k = (Ok v :: (unit, index_value) outcome)"
    using assms(3) by (auto simp: decodes_safely_def split: outcome.splits)
  then have v': "to_value k = (Ok v :: ('e, index_value) outcome)"
    by (cases k) (auto split: if_splits)
  show ?thesis
  proof (cases v)
    case (Notarized view)
    with assms(3) v have "decode_notarized A bs \<noteq> Panic p" for p
      by (simp add: decodes_safely_def sync_lawsD(11) [OF assms(1)])
    with Notarized v' puts show ?thesis
      by (auto simp: handle_deliver_def deliver_notarized_def split: outcome.splits intro!: returns_intros)
  next
    case (Finalized height)
    with assms(3) v have "decode_finalized A bs \<noteq> Panic p" for p
      by (simp add: decodes_safely_def sync_lawsD(12) [OF assms(1)])
    with Finalized v' puts show ?thesis
      by (auto simp: handle_deliver_def deliver_finalized_def split: outcome.splits intro!: returns_intros)
  next
    case (Digest d)
    with assms(3) v have "decode_block A bs \<noteq> Panic p" for p
      by (simp add: decodes_safely_def sync_lawsD(10) [OF assms(1)])
    with Digest v' puts show ?thesis
      by (auto simp: handle_deliver_def deliver_digest_def split: outcome.splits intro!: returns_intros)
  qed
qed

lemma handle_produce_returns:
  assumes "reliable A" and "index_bytes k ! 0 \<le> 2"
  shows "returns (handle_produce A env k r s :: ('e, 'h, 'r) sync_result)"
proof -
  have "\<exists>v. to_value k = (Ok v :: ('e, index_value) outcome)"
    using to_value_kind(2) assms(2) by (rule iffD2)
  then obtain v where v: "to_value k = (Ok v :: ('e, index_value) outcome)" by blast
  then show ?thesis
    using assms(1) reliable_reads [OF assms(1)]
    by (cases v)
       (auto simp: handle_produce_def produce_notarized_def produce_finalized_def produce_digest_def
          split: option.splits intro!: returns_intros)
qed

text \<open>
  C14. With storage that works the syncer takes a step for every event from live senders: no block, view
  or certificate makes it stop, and neither does another node whose key has a known kind and whose
  bytes the readers do not unwind on.
\<close>

theorem syncer_keeps_running:
  assumes "sync_laws A" and "reliable A" and "event_safe A env ev"
  shows "\<exists>s' es. sync_step pr A env ev s = (Ok (s', es) :: ('e, 'h, 'r) sync_result)"
proof -
  have "returns (handle_event pr A env ev t :: ('e, 'h, 'r) sync_result)" for t
  proof (cases ev)
    case (FromMailbox m)
    with assms(3) show ?thesis
      by (auto intro!: returns_intros handle_message_returns [OF assms(2)])
  next
    case (FromOrchestrator m)
    with assms(3) obtain msg where "m = Some msg" by (cases m) auto
    with assms(3) FromOrchestrator show ?thesis
      by (auto intro!: returns_intros handle_orchestration_returns [OF assms(1,2), where env = env])
  next
    case (FromHandler m)
    with assms(3) obtain msg where "m = Some msg" by (cases m) auto
    with assms(3) FromHandler show ?thesis
      by (cases msg) (auto intro!: returns_intros handle_deliver_returns [OF assms(1,2)]
          handle_produce_returns [OF assms(2)])
  qed
  then have "returns (sync_step pr A env ev s :: ('e, 'h, 'r) sync_result)"
    by (auto simp: sync_step_def split: prod.splits intro!: returns_intros)
  then show ?thesis by (auto simp: returns_def)
qed

definition sound_store :: "u64 sync_api" where
  "sound_store = sample_api\<lparr>verified_ar := fixed_archive, notarized_ar := fixed_archive\<rparr>"

lemma sound_store_ok: "sync_laws sound_store" "reliable sound_store"
  using sample_api_laws
  by (simp_all add: sound_store_def sync_laws_def codec_laws_def storage_laws_def reliable_def)

theorem syncer_keeps_running_witness:
  "\<exists>s' es. sync_step Debug sound_store with_sample (FromMailbox (Some (Finalize sample_cert))) fresh_node
     = (Ok (s', es) :: (unit, u64, nat) sync_result)"
  using syncer_keeps_running [OF sound_store_ok, of with_sample "FromMailbox (Some (Finalize sample_cert))"]
  by simp

end
