(* ===== verification/Channels.thy ===== *)
theory Channels
  imports Summit_Prelude
begin

text \<open>
  The mailboxes between the actors (\<open>futures::channel::mpsc\<close> with a one-shot channel per answer): the
  senders of the actors' \<open>Mailbox\<close> types all make a one-shot channel, send one message that carries
  its sender, and keep the receiver. A one-shot channel is a number, fresh for every message.
\<close>

record 'm channel =
  ch_open :: bool
  ch_queue :: "'m list"
  ch_next :: nat

definition send_message ::
  "string \<Rightarrow> (nat \<Rightarrow> 'm) \<Rightarrow> 'm channel \<Rightarrow> ('e, 'm channel \<times> nat) outcome" where
  "send_message msg mk c =
     (if ch_open c then
        Ok (c\<lparr>ch_queue := ch_queue c @ [mk (ch_next c)], ch_next := Suc (ch_next c)\<rparr>, ch_next c)
      else Panic (ExpectFailed msg))"

text \<open>A message without an answer: \<open>send(..).await.expect(..)\<close> and \<open>let _ = send(..).await\<close>.\<close>

definition post_message :: "string \<Rightarrow> 'm \<Rightarrow> 'm channel \<Rightarrow> ('e, 'm channel) outcome" where
  "post_message msg m c =
     (if ch_open c then Ok (c\<lparr>ch_queue := ch_queue c @ [m]\<rparr>) else Panic (ExpectFailed msg))"

definition try_post :: "'m \<Rightarrow> 'm channel \<Rightarrow> 'm channel" where
  "try_post m c = (if ch_open c then c\<lparr>ch_queue := ch_queue c @ [m]\<rparr> else c)"

text \<open>A call that waits for the answer; \<open>None\<close> is a sender that was dropped.\<close>

definition await_answer :: "string \<Rightarrow> 'a option \<Rightarrow> 'm channel \<times> nat \<Rightarrow> ('e, 'm channel \<times> 'a) outcome" where
  "await_answer msg answer cr = and_then (expect_some msg answer) (\<lambda>x. Ok (fst cr, x))"

lemma send_message_Ok [outcome_simps]:
  "send_message msg mk c = Ok (c', r) \<longleftrightarrow>
     ch_open c \<and> r = ch_next c \<and>
     c' = c\<lparr>ch_queue := ch_queue c @ [mk (ch_next c)], ch_next := Suc (ch_next c)\<rparr>"
  by (auto simp: send_message_def)

lemma post_message_Ok [outcome_simps]:
  "post_message msg m c = Ok c' \<longleftrightarrow> ch_open c \<and> c' = c\<lparr>ch_queue := ch_queue c @ [m]\<rparr>"
  by (auto simp: post_message_def)

text \<open>The response channels named in a queue are older than the next one, and all different.\<close>

definition fresh_responses :: "('m \<Rightarrow> nat option) \<Rightarrow> 'm channel \<Rightarrow> bool" where
  "fresh_responses rsp c \<longleftrightarrow>
     distinct (List.map_filter rsp (ch_queue c)) \<and>
     (\<forall>r \<in> set (List.map_filter rsp (ch_queue c)). r < ch_next c)"

lemma map_filter_snoc:
  "List.map_filter f (xs @ [x]) = List.map_filter f xs @ (case f x of None \<Rightarrow> [] | Some y \<Rightarrow> [y])"
  by (induction xs) (auto simp: List.map_filter_simps split: option.splits)

lemma send_message_fresh:
  assumes "fresh_responses rsp c" and "\<And>r. rsp (mk r) = Some r"
    and "send_message msg mk c = (Ok (c', r) :: ('e, _) outcome)"
  shows "fresh_responses rsp c'"
  using assms by (auto simp: fresh_responses_def outcome_simps map_filter_snoc)

lemma post_message_fresh:
  assumes "fresh_responses rsp c" and "rsp m = None"
  shows "fresh_responses rsp (c\<lparr>ch_queue := ch_queue c @ [m]\<rparr>)"
  using assms by (simp add: fresh_responses_def map_filter_snoc)

end
