(* ===== verification/Syncer_Ingress.thy ===== *)
theory Syncer_Ingress
  imports Sample_Node Channels
begin

text \<open>
  \<open>syncer/src/ingress.rs\<close>, \<open>handler.rs\<close> and \<open>coordinator.rs\<close>: the ends of the syncer's three mailboxes
  that the application, the finalizer and the resolver hold, and the reporter through which consensus
  hands over its certificates.
\<close>

section \<open>The mailbox of the application\<close>

definition mailbox_get ::
  "u64 option \<Rightarrow> digest \<Rightarrow> nat message channel \<Rightarrow> ('e, nat message channel \<times> nat) outcome" where
  "mailbox_get view payload c = send_message ''Failed to send get'' (Get view payload) c"

definition mailbox_broadcast_block ::
  "block \<Rightarrow> nat message channel \<Rightarrow> ('e, nat message channel) outcome" where
  "mailbox_broadcast_block payload c = post_message ''Failed to send broadcast'' (Broadcast payload) c"

definition mailbox_store_verified ::
  "u64 \<Rightarrow> block \<Rightarrow> nat message channel \<Rightarrow> ('e, nat message channel) outcome" where
  "mailbox_store_verified view payload c =
     post_message ''Failed to send lock'' (StoreVerified view payload) c"

section \<open>The reporter\<close>

text \<open>The activities of consensus; of the votes and the evidence only the view is read, for the log.\<close>

datatype activity =
    NotarizeVote u64
  | Notarization notarization
  | NullifyVote u64
  | Nullification u64
  | FinalizeVote u64
  | Finalization finalization
  | ConflictingNotarize u64
  | ConflictingFinalize u64
  | NullifyFinalize u64

fun report :: "activity \<Rightarrow> nat message channel \<Rightarrow> nat message channel" where
  "report (Notarization c) ch = try_post (Notarize c) ch"
| "report (Finalization c) ch = try_post (Finalize c) ch"
| "report (NotarizeVote v) ch = ch"
| "report (NullifyVote v) ch = ch"
| "report (Nullification v) ch = ch"
| "report (FinalizeVote v) ch = ch"
| "report (ConflictingNotarize v) ch = ch"
| "report (ConflictingFinalize v) ch = ch"
| "report (NullifyFinalize v) ch = ch"

section \<open>The orchestrator held by the finalizer\<close>

text \<open>\<open>get\<close> and \<open>repair\<close> wait for the actor's answer; it is the second argument.\<close>

definition call_get ::
  "u64 \<Rightarrow> block option option \<Rightarrow> nat orchestration channel
    \<Rightarrow> ('e, nat orchestration channel \<times> block option) outcome" where
  "call_get next answer c =
     and_then (send_message ''Failed to send get'' (OrchestrationGet next) c) (await_answer ''unwrap'' answer)"

definition call_processed ::
  "u64 \<Rightarrow> digest \<Rightarrow> nat orchestration channel \<Rightarrow> ('e, nat orchestration channel) outcome" where
  "call_processed next d c = post_message ''Failed to send processed'' (OrchestrationProcessed next d) c"

definition call_repair ::
  "u64 \<Rightarrow> bool option \<Rightarrow> nat orchestration channel \<Rightarrow> ('e, nat orchestration channel \<times> bool) outcome" where
  "call_repair next answer c =
     and_then (send_message ''Failed to send repair'' (OrchestrationRepair next) c)
       (await_answer ''unwrap'' answer)"

section \<open>The handler held by the resolver\<close>

definition handler_deliver ::
  "multi_index \<Rightarrow> bytes \<Rightarrow> bool option \<Rightarrow> nat handler_message channel
    \<Rightarrow> ('e, nat handler_message channel \<times> bool) outcome" where
  "handler_deliver key bs answer c =
     and_then (send_message ''Failed to send deliver'' (Deliver key bs) c)
       (await_answer ''Failed to receive deliver'' answer)"

definition handler_failed :: "multi_index \<Rightarrow> nat handler_message channel \<Rightarrow> nat handler_message channel" where
  "handler_failed key c = c"

definition handler_produce ::
  "multi_index \<Rightarrow> nat handler_message channel \<Rightarrow> ('e, nat handler_message channel \<times> nat) outcome" where
  "handler_produce key c = send_message ''Failed to send produce'' (Produce key) c"

section \<open>The static coordinator\<close>

record 'k coordinator =
  co_participants :: "'k list"

definition coordinator_new :: "'k list \<Rightarrow> 'k coordinator" where
  "coordinator_new ks = \<lparr>co_participants = ks\<rparr>"

definition coordinator_peers :: "'k coordinator \<Rightarrow> 'k list" where
  "coordinator_peers c = co_participants c"

definition coordinator_peer_set_id :: "'k coordinator \<Rightarrow> u64" where
  "coordinator_peer_set_id c = 0"

section \<open>What reaches the syncer\<close>

text \<open>The message a certificate turns into.\<close>

fun certified :: "activity \<Rightarrow> nat message option" where
  "certified (Notarization c) = Some (Notarize c)"
| "certified (Finalization c) = Some (Finalize c)"
| "certified _ = None"

text \<open>
  Over any sequence of activities an open mailbox receives exactly the notarizations and
  finalizations, in the order consensus reported them, behind what was queued; votes, nullifications
  and evidence leave no trace, and a closed mailbox receives nothing without stopping consensus.
\<close>

lemma report_step:
  "report a ch = (if ch_open ch then ch\<lparr>ch_queue := ch_queue ch @ List.map_filter certified [a]\<rparr> else ch)"
  by (cases a) (simp_all add: try_post_def List.map_filter_simps)

lemma report_forwards:
  "fold report as ch =
     (if ch_open ch then ch\<lparr>ch_queue := ch_queue ch @ List.map_filter certified as\<rparr> else ch)"
proof (induction "as" arbitrary: ch)
  case Nil
  then show ?case by (simp add: List.map_filter_simps)
next
  case (Cons a "as")
  have "List.map_filter certified (a # as) = List.map_filter certified [a] @ List.map_filter certified as"
    by (simp add: List.map_filter_simps split: option.splits)
  with Cons.IH [of "report a ch"] show ?case by (simp add: report_step)
qed

fun response_of :: "nat message \<Rightarrow> nat option" where
  "response_of (Get view payload r) = Some r"
| "response_of _ = None"

datatype mailbox_call = CallGet "u64 option" digest | CallBroadcast block | CallStore u64 block | CallReport activity

fun mailbox_step :: "mailbox_call \<Rightarrow> nat message channel \<Rightarrow> ('e, nat message channel) outcome" where
  "mailbox_step (CallGet view payload) c = and_then (mailbox_get view payload c) (\<lambda>(c', _). Ok c')"
| "mailbox_step (CallBroadcast b) c = mailbox_broadcast_block b c"
| "mailbox_step (CallStore view b) c = mailbox_store_verified view b c"
| "mailbox_step (CallReport a) c = Ok (report a c)"

fun mailbox_calls :: "mailbox_call list \<Rightarrow> nat message channel \<Rightarrow> ('e, nat message channel) outcome" where
  "mailbox_calls [] c = Ok c"
| "mailbox_calls (x # xs) c = and_then (mailbox_step x c) (mailbox_calls xs)"

lemma mailbox_step_fresh:
  assumes "fresh_responses response_of c" and "mailbox_step x c = (Ok c' :: ('e, _) outcome)"
  shows "fresh_responses response_of c' \<and> (\<exists>ms. ch_queue c' = ch_queue c @ ms) \<and> ch_open c' = ch_open c"
proof (cases x)
  case (CallGet view payload)
  with assms(2) obtain r where
    s: "send_message ''Failed to send get'' (Get view payload) c = (Ok (c', r) :: ('e, _) outcome)"
    by (auto simp: mailbox_get_def outcome_simps)
  from send_message_fresh [OF assms(1) _ s] s show ?thesis by (auto simp: outcome_simps)
next
  case (CallReport a)
  with assms show ?thesis
    by (cases a) (auto simp: try_post_def post_message_fresh split: if_splits)
qed (use assms in \<open>auto simp: mailbox_broadcast_block_def mailbox_store_verified_def outcome_simps
       post_message_fresh\<close>)

text \<open>
  The answers cannot be mixed up: after any calls on the mailbox the queue holds what it held,
  followed by the new messages in the order of the calls, and no two queued requests share a
  response channel.
\<close>

lemma responses_distinct:
  assumes "fresh_responses response_of c" and "mailbox_calls xs c = (Ok c' :: ('e, _) outcome)"
  shows "(\<exists>ms. ch_queue c' = ch_queue c @ ms) \<and> distinct (List.map_filter response_of (ch_queue c')) \<and>
         (\<forall>r \<in> set (List.map_filter response_of (ch_queue c')). r < ch_next c')"
proof -
  have "fresh_responses response_of c' \<and> (\<exists>ms. ch_queue c' = ch_queue c @ ms)"
    using assms
  proof (induction xs arbitrary: c)
    case (Cons x xs)
    then obtain c1 where "mailbox_step x c = (Ok c1 :: ('e, _) outcome)"
      "mailbox_calls xs c1 = (Ok c' :: ('e, _) outcome)" by (auto simp: outcome_simps)
    with Cons.IH [of c1] mailbox_step_fresh [OF Cons.prems(1) this(1)] show ?case by auto
  qed simp
  then show ?thesis by (simp add: fresh_responses_def)
qed

end
