(* ===== verification/Application.thy ===== *)
theory Application
  imports Engine_Client Channels
begin

text \<open>
  \<open>application/src/actor.rs\<close> and \<open>ingress.rs\<close>: the actor consensus asks for the genesis digest, for a
  proposal, for a verdict on a proposal, and to broadcast what it proposed. One definition per
  message and per awaited task; what a task awaits is an argument, what it sends is a list of effects.
\<close>

section \<open>Messages, state and effects\<close>

datatype 'r app_message =
    AppGenesis 'r
  | AppPropose u64 "u64 \<times> digest" 'r
  | AppBroadcast digest
  | AppVerify u64 "u64 \<times> digest" digest 'r

text \<open>
  A verification runs in a task of its own: what it waits for is the parent, unless that is the
  genesis block, and the block.
\<close>

record 'r verify_task =
  vt_view :: u64
  vt_parent :: "u64 \<times> digest"
  vt_payload :: digest
  vt_response :: 'r

record 'r application =
  ap_genesis_hash :: digest
  ap_built_block :: "block option"
  ap_tasks :: "'r verify_task list"

datatype 'r app_effect =
    RespondDigest 'r digest
  | RespondVerdict 'r bool
  | GetBlock "u64 option" digest
  | AwaitHeight u64
  | BroadcastBuilt block
  | StoreValid u64 block

definition application_new :: "digest \<Rightarrow> 'r application" where
  "application_new genesis_hash =
     \<lparr>ap_genesis_hash = genesis_hash, ap_built_block = None, ap_tasks = []\<rparr>"

text \<open>The forkchoice the actor starts with, shared with the finalizer.\<close>

definition initial_forkchoice :: "digest \<Rightarrow> forkchoice" where
  "initial_forkchoice genesis_hash = forkchoice_at genesis_hash"

section \<open>Proposing\<close>

text \<open>
  What a proposal meets: the syncer's answer for the parent (\<open>None\<close> when its sender is dropped),
  whether the finalizer takes the height request and answers it, the clock in milliseconds, the
  shared forkchoice at that moment and the execution client.
\<close>

record propose_env =
  pv_parent :: "block option"
  pv_notify_taken :: bool
  pv_notified :: bool
  pv_now :: u64
  pv_forkchoice :: forkchoice
  pv_engine :: engine_api

datatype propose_error = UnableToBuildPayload

text \<open>The parent: built in place for the genesis digest, asked of the syncer otherwise.\<close>

definition parent_requests :: "digest \<Rightarrow> u64 \<times> digest \<Rightarrow> 'r app_effect list" where
  "parent_requests genesis_hash parent =
     (if snd parent = genesis_hash then [] else [GetBlock (Some (fst parent)) (snd parent)])"

definition await_parent ::
  "block_api \<Rightarrow> digest \<Rightarrow> u64 \<times> digest \<Rightarrow> block option \<Rightarrow> ('e, block) outcome" where
  "await_parent A genesis_hash parent answer =
     (if snd parent = genesis_hash then Ok (genesis A genesis_hash)
      else expect_some ''unwrap'' answer)"

text \<open>The clock, moved past the parent's timestamp if need be.\<close>

definition proposal_time :: "profile \<Rightarrow> u64 \<Rightarrow> block \<Rightarrow> ('e, u64) outcome" where
  "proposal_time pr now parent =
     (if now \<le> b_timestamp parent then add_ovf pr (b_timestamp parent) 1 else Ok now)"

definition proposal_requests ::
  "block_api \<Rightarrow> propose_env \<Rightarrow> digest \<Rightarrow> u64 \<times> digest \<Rightarrow> 'r app_effect list" where
  "proposal_requests A env genesis_hash parent_id =
     parent_requests genesis_hash parent_id @
     (case await_parent A genesis_hash parent_id (pv_parent env) of
        Ok parent \<Rightarrow> [AwaitHeight (b_height parent)]
      | Err (e :: unit) \<Rightarrow> []
      | Panic p \<Rightarrow> [])"

definition handle_proposal ::
  "profile \<Rightarrow> block_api \<Rightarrow> propose_env \<Rightarrow> digest \<Rightarrow> u64 \<times> digest \<Rightarrow> (propose_error, block) outcome"
  where
  "handle_proposal pr A env genesis_hash parent_id =
     and_then (await_parent A genesis_hash parent_id (pv_parent env)) (\<lambda>parent.
     if \<not> pv_notify_taken env then Panic (ExpectFailed ''finalizer dropped'')
     else if \<not> pv_notified env then Panic (ExpectFailed ''Finalizer dropped'')
     else
       and_then (proposal_time pr (pv_now env) parent) (\<lambda>current.
       and_then (start_building_block (pv_engine env) (pv_forkchoice env) current) (\<lambda>started.
       and_then (ok_or UnableToBuildPayload started) (\<lambda>payload_id.
       and_then (get_payload (pv_engine env) payload_id) (\<lambda>envelope.
       and_then (add_ovf pr (b_height parent) 1) (\<lambda>height.
         Ok (compute_digest A (b_digest parent) height current (pe_execution_payload envelope)
               (pe_execution_requests envelope) (pe_block_value envelope))))))))"

text \<open>
  The arm of the loop. Consensus may drop its receiver at any moment before the proposal is done:
  \<open>Some n\<close> is an abort after the first \<open>n\<close> requests have gone out.
\<close>

definition handle_propose ::
  "profile \<Rightarrow> block_api \<Rightarrow> propose_env \<Rightarrow> nat option \<Rightarrow> u64 \<times> digest \<Rightarrow> 'r \<Rightarrow> 'r application
    \<Rightarrow> ('e, 'r application \<times> 'r app_effect list) outcome" where
  "handle_propose pr A env aborted parent response a =
     (let requests = proposal_requests A env (ap_genesis_hash a) parent in
      case aborted of
        Some n \<Rightarrow> Ok (a, take n requests)
      | None \<Rightarrow>
          (case handle_proposal pr A env (ap_genesis_hash a) parent of
             Ok block \<Rightarrow>
               Ok (a\<lparr>ap_built_block := Some block\<rparr>,
                   requests @ [RespondDigest response (b_digest block)])
           | Err e \<Rightarrow> Ok (a, requests)
           | Panic p \<Rightarrow> Panic p))"

section \<open>Broadcasting\<close>

text \<open>A payload other than the built one is only logged.\<close>

definition handle_broadcast_request ::
  "digest \<Rightarrow> 'r application \<Rightarrow> 'r application \<times> 'r app_effect list" where
  "handle_broadcast_request payload a =
     (case ap_built_block a of
        None \<Rightarrow> (a, [])
      | Some built \<Rightarrow> (a, [BroadcastBuilt built]))"

section \<open>Verifying\<close>

definition handle_verify :: "profile \<Rightarrow> block \<Rightarrow> block \<Rightarrow> ('e, bool) outcome" where
  "handle_verify pr block parent =
     (if eth_parent_hash block \<noteq> eth_block_hash parent then Ok False
      else if b_parent block \<noteq> b_digest parent then Ok False
      else
        and_then (add_ovf pr (b_height parent) 1) (\<lambda>height.
          if b_height block \<noteq> height then Ok False
          else if b_timestamp block \<le> b_timestamp parent then Ok False
          else Ok True))"

text \<open>The two requests go out before the task is spawned; the loop goes on.\<close>

definition start_verify ::
  "u64 \<Rightarrow> u64 \<times> digest \<Rightarrow> digest \<Rightarrow> 'r \<Rightarrow> 'r application \<Rightarrow> 'r application \<times> 'r app_effect list" where
  "start_verify view parent payload response a =
     (a\<lparr>ap_tasks := ap_tasks a @
          [\<lparr>vt_view = view, vt_parent = parent, vt_payload = payload, vt_response = response\<rparr>]\<rparr>,
      parent_requests (ap_genesis_hash a) parent @ [GetBlock None payload])"

text \<open>
  The task: \<open>None\<close> for the abort when consensus drops its receiver, otherwise the two answers of the
  syncer.
\<close>

definition run_verify ::
  "profile \<Rightarrow> block_api \<Rightarrow> digest \<Rightarrow> 'r verify_task \<Rightarrow> (block option \<times> block option) option
    \<Rightarrow> ('e, 'r app_effect list) outcome" where
  "run_verify pr A genesis_hash t answers =
     (case answers of
        None \<Rightarrow> Ok []
      | Some (parent_answer, block_answer) \<Rightarrow>
          and_then (await_parent A genesis_hash (vt_parent t) parent_answer) (\<lambda>parent.
          and_then (expect_some ''unwrap'' block_answer) (\<lambda>block.
          and_then (handle_verify pr block parent) (\<lambda>valid.
            if valid then Ok [StoreValid (vt_view t) block, RespondVerdict (vt_response t) True]
            else Ok [RespondVerdict (vt_response t) False]))))"

section \<open>The loop\<close>

text \<open>
  A message from the mailbox, with what a proposal meets, or the end of the task at a position. A
  task that panics dies alone: the loop and the other tasks go on.
\<close>

datatype 'r app_event =
    AppMail propose_env "nat option" "'r app_message"
  | TaskDone nat "(block option \<times> block option) option"

fun handle_app_message ::
  "profile \<Rightarrow> block_api \<Rightarrow> propose_env \<Rightarrow> nat option \<Rightarrow> 'r app_message \<Rightarrow> 'r application
    \<Rightarrow> ('e, 'r application \<times> 'r app_effect list) outcome" where
  "handle_app_message pr A env aborted (AppGenesis response) a =
     Ok (a, [RespondDigest response (ap_genesis_hash a)])"
| "handle_app_message pr A env aborted (AppPropose view parent response) a =
     handle_propose pr A env aborted parent response a"
| "handle_app_message pr A env aborted (AppBroadcast payload) a = Ok (handle_broadcast_request payload a)"
| "handle_app_message pr A env aborted (AppVerify view parent payload response) a =
     Ok (start_verify view parent payload response a)"

definition task_done ::
  "profile \<Rightarrow> block_api \<Rightarrow> nat \<Rightarrow> (block option \<times> block option) option \<Rightarrow> 'r application
    \<Rightarrow> 'r application \<times> 'r app_effect list" where
  "task_done pr A i answers a =
     (if i < length (ap_tasks a) then
        (a\<lparr>ap_tasks := take i (ap_tasks a) @ drop (Suc i) (ap_tasks a)\<rparr>,
         case run_verify pr A (ap_genesis_hash a) (ap_tasks a ! i) answers of
           Ok es \<Rightarrow> es
         | Err (e :: unit) \<Rightarrow> []
         | Panic p \<Rightarrow> [])
      else (a, []))"

fun app_step ::
  "profile \<Rightarrow> block_api \<Rightarrow> 'r app_event \<Rightarrow> 'r application
    \<Rightarrow> ('e, 'r application \<times> 'r app_effect list) outcome" where
  "app_step pr A (AppMail env aborted m) a = handle_app_message pr A env aborted m a"
| "app_step pr A (TaskDone i answers) a = Ok (task_done pr A i answers a)"

fun app_run ::
  "profile \<Rightarrow> block_api \<Rightarrow> 'r app_event list \<Rightarrow> 'r application
    \<Rightarrow> ('e, 'r application \<times> 'r app_effect list) outcome" where
  "app_run pr A [] a = Ok (a, [])"
| "app_run pr A (ev # evs) a =
     and_then (app_step pr A ev a) (\<lambda>(a', es).
     and_then (app_run pr A evs a') (\<lambda>(a'', es'). Ok (a'', es @ es')))"

section \<open>The mailbox\<close>

text \<open>
  \<open>Mailbox\<close> of \<open>ingress.rs\<close> as consensus uses it: every call makes a one-shot channel, sends one
  message with its sender and returns the receiver, or unwinds when the actor is gone.
\<close>

definition mailbox_genesis ::
  "digest option \<Rightarrow> nat app_message channel \<Rightarrow> ('e, nat app_message channel \<times> digest) outcome" where
  "mailbox_genesis answer c =
     and_then (send_message ''Failed to send genesis'' AppGenesis c)
       (await_answer ''Failed to receive genesis'' answer)"

record context_of_view =
  cx_view :: u64
  cx_parent :: "u64 \<times> digest"

definition mailbox_propose ::
  "context_of_view \<Rightarrow> nat app_message channel \<Rightarrow> ('e, nat app_message channel \<times> nat) outcome" where
  "mailbox_propose cx c =
     send_message ''Failed to send propose'' (AppPropose (cx_view cx) (cx_parent cx)) c"

definition mailbox_verify ::
  "context_of_view \<Rightarrow> digest \<Rightarrow> nat app_message channel
    \<Rightarrow> ('e, nat app_message channel \<times> nat) outcome" where
  "mailbox_verify cx payload c =
     send_message ''Failed to send verify'' (AppVerify (cx_view cx) (cx_parent cx) payload) c"

definition mailbox_broadcast ::
  "digest \<Rightarrow> nat app_message channel \<Rightarrow> ('e, nat app_message channel) outcome" where
  "mailbox_broadcast d c =
     post_message ''Failed to send broadcast'' (AppBroadcast d) c"

end
