(* ===== verification/Application_Properties.thy ===== *)
theory Application_Properties
  imports Application Finalizer_Properties
begin

text \<open>
  What the application guarantees consensus: which proposals it accepts and that its own are among
  them, what a chain of accepted blocks looks like, that a vote follows the hand-over of the block,
  that only proposed blocks are broadcast, and the proposal that fails after a restart.
\<close>

section \<open>Verdicts\<close>

lemma handle_verify_small:
  assumes "unat (b_height p) < 2 ^ 64 - 1"
  shows "handle_verify pr b p = Ok (eth_parent_hash b = eth_block_hash p \<and> b_parent b = b_digest p \<and>
           unat (b_height b) = Suc (unat (b_height p)) \<and> b_timestamp p < b_timestamp b)"
  using unat_Suc_u64 [OF assms]
  by (auto simp: handle_verify_def add_ovf_Suc_u64 [OF assms] word_unat_eq_iff [of "b_height b"] not_le)

text \<open>
  \<open>handle_verify\<close> accepts a block on a parent exactly when its payload builds on the parent's
  execution block, it names the parent's digest, its height is the next one and its timestamp is
  later. It always answers below the maximal height.
\<close>

lemma handle_verify_iff:
  assumes "unat (b_height p) < 2 ^ 64 - 1"
  shows "handle_verify pr b p = Ok v \<longleftrightarrow>
           v = (pl_parent_hash (b_payload b) = eth_block_hash p \<and> b_parent b = b_digest p \<and>
                unat (b_height b) = Suc (unat (b_height p)) \<and> b_timestamp p < b_timestamp b)"
  by (simp only: handle_verify_small [OF assms] eth_parent_hash_def outcome.inject eq_commute)

definition sample_child :: block where
  "sample_child = compute_digest inline_api (b_digest sample_block) 2 101
     (sample_payload\<lparr>pl_parent_hash := 11\<rparr>) [] 0"

lemma sample_block_fields [simp]:
  "b_height sample_block = 1" "b_timestamp sample_block = 100" "eth_block_hash sample_block = 11"
  by (simp_all add: sample_block_def compute_digest_def eth_block_hash_def sample_payload_def)

lemma sample_child_fields [simp]:
  "b_height sample_child = 2" "b_timestamp sample_child = 101"
  "b_parent sample_child = b_digest sample_block" "pl_parent_hash (b_payload sample_child) = 11"
  by (simp_all add: sample_child_def compute_digest_def)

section \<open>Chains of accepted blocks\<close>

text \<open>Every block was accepted on the one before it, in a build with overflow checks.\<close>

fun accepted_chain :: "block list \<Rightarrow> bool" where
  "accepted_chain (p # b # bs) \<longleftrightarrow>
     handle_verify Debug b p = (Ok True :: (unit, bool) outcome) \<and> accepted_chain (b # bs)"
| "accepted_chain bs \<longleftrightarrow> True"

lemma handle_verify_Debug:
  assumes "handle_verify Debug b p = (Ok True :: ('e, bool) outcome)"
  shows "eth_parent_hash b = eth_block_hash p" and "b_parent b = b_digest p"
    and "unat (b_height b) = Suc (unat (b_height p))" and "b_timestamp p < b_timestamp b"
proof -
  from assms have *: "eth_parent_hash b = eth_block_hash p" "b_parent b = b_digest p"
    "add_ovf Debug (b_height p) 1 = (Ok (b_height b) :: ('e, _) outcome)" "\<not> b_timestamp b \<le> b_timestamp p"
    by (auto simp: handle_verify_def outcome_simps split: if_splits)
  then show "eth_parent_hash b = eth_block_hash p" "b_parent b = b_digest p" "b_timestamp p < b_timestamp b"
    by simp_all
  show "unat (b_height b) = Suc (unat (b_height p))"
    using add_ovf_Debug_Ok [OF *(3)] by simp
qed

lemma accepted_chain_heights:
  "accepted_chain (p # bs) \<Longrightarrow>
     map (unat \<circ> b_height) (p # bs) = [unat (b_height p) ..< unat (b_height p) + Suc (length bs)]"
proof (induction bs arbitrary: p)
  case (Cons b bs)
  then have h: "unat (b_height b) = Suc (unat (b_height p))"
    using handle_verify_Debug(3) by simp blast
  have "map (unat \<circ> b_height) (b # bs) = [Suc (unat (b_height p)) ..< Suc (unat (b_height p)) + Suc (length bs)]"
    using Cons.IH [of b] Cons.prems by (simp only: h accepted_chain.simps)
  moreover have "[unat (b_height p) ..< unat (b_height p) + Suc (length (b # bs))]
      = unat (b_height p) # [Suc (unat (b_height p)) ..< Suc (unat (b_height p)) + Suc (length bs)]"
    by (simp add: upt_conv_Cons del: upt_Suc)
  ultimately show ?case by (simp only: list.map comp_def)
qed simp

lemma accepted_chain_times:
  "accepted_chain (p # bs) \<Longrightarrow> sorted_wrt (<) (map b_timestamp (p # bs))"
proof (induction bs arbitrary: p)
  case (Cons b bs)
  then have "b_timestamp p < b_timestamp b" using handle_verify_Debug(4) by simp blast
  moreover have "sorted_wrt (<) (map b_timestamp (b # bs))" using Cons by (simp only: accepted_chain.simps)
  ultimately show ?case
    by (simp only: list.map sorted_wrt2 [OF transp_on_less] simp_thms)
qed simp

lemma accepted_chain_links:
  "accepted_chain (p # bs) \<Longrightarrow> i < length bs \<Longrightarrow>
     b_parent (bs ! i) = b_digest ((p # bs) ! i) \<and>
     pl_parent_hash (b_payload (bs ! i)) = eth_block_hash ((p # bs) ! i)"
proof (induction bs arbitrary: p i)
  case (Cons b bs)
  then show ?case
    using handle_verify_Debug(1,2) [of b p, where 'e = unit] by (cases i) (auto simp: eth_parent_hash_def)
qed simp

text \<open>
  C12. Along a chain of accepted blocks from genesis the heights count up from zero one by one, the
  timestamps strictly increase, and every block names its predecessor by digest and by execution hash.
\<close>

theorem accepted_chain_from_genesis:
  assumes "accepted_chain (genesis A h # bs)"
  shows "map (unat \<circ> b_height) (genesis A h # bs) = [0 ..< Suc (length bs)] \<and>
         sorted_wrt (<) (map b_timestamp (genesis A h # bs)) \<and>
         (\<forall>i < length bs. b_parent (bs ! i) = b_digest ((genesis A h # bs) ! i) \<and>
            pl_parent_hash (b_payload (bs ! i)) = eth_block_hash ((genesis A h # bs) ! i))"
proof -
  have "unat (b_height (genesis A h)) = 0" by (simp add: genesis_def)
  then show ?thesis
    using accepted_chain_heights [OF assms] accepted_chain_times [OF assms] accepted_chain_links [OF assms]
    by simp
qed

lemma genesis_7 [simp]:
  "b_height (genesis A h) = 0" "b_timestamp (genesis A h) = 0" "b_digest (genesis A h) = h"
  "eth_block_hash (genesis A h) = h"
  by (simp_all add: genesis_def eth_block_hash_def)

lemma sample_block_links [simp]:
  "b_parent sample_block = 7" "pl_parent_hash (b_payload sample_block) = 7"
  by (simp_all add: sample_block_def compute_digest_def sample_payload_def)

theorem accepted_chain_from_genesis_witness:
  "map (unat \<circ> b_height) [genesis inline_api 7, sample_block, sample_child] = [0 ..< 3]"
proof -
  have "accepted_chain [genesis inline_api 7, sample_block, sample_child]"
    by (simp add: handle_verify_small eth_parent_hash_def)
  from conjunct1 [OF accepted_chain_from_genesis [OF this]] show ?thesis
    by (simp add: numeral_3_eq_3)
qed

section \<open>Own proposals\<close>

text \<open>The engine API's contract: a payload is built on the head of the forkchoice it was asked with.\<close>

definition builds_on_head :: "engine_api \<Rightarrow> bool" where
  "builds_on_head E \<longleftrightarrow>
     (\<forall>fc pa i env. fork_choice_updated_v3 E fc (Some pa) = Some (Some i) \<longrightarrow> get_payload_v4 E i = Some env \<longrightarrow>
        pl_parent_hash (pe_execution_payload env) = head_block_hash fc)"

lemma proposal_time_Ok:
  assumes "proposal_time pr now p = (Ok t :: ('e, _) outcome)" and "unat (b_timestamp p) < 2 ^ 64 - 1"
  shows "b_timestamp p < t \<and> now \<le> t"
  using assms unat_Suc_u64 [OF assms(2)]
  by (auto simp: proposal_time_def add_ovf_Suc_u64 word_less_nat_alt word_le_nat_alt split: if_splits)

lemma handle_proposal_Ok:
  assumes "handle_proposal pr A env gh pid = Ok b"
  obtains p i pl t where "await_parent A gh pid (pv_parent env) = (Ok p :: (propose_error, _) outcome)"
    "fork_choice_updated_v3 (pv_engine env) (pv_forkchoice env) (Some (build_attributes t)) = Some (Some i)"
    "get_payload_v4 (pv_engine env) i = Some pl" "pv_notified env"
    "proposal_time pr (pv_now env) p = (Ok t :: (propose_error, _) outcome)"
    "b = compute_digest A (b_digest p) (b_height p + 1) t (pe_execution_payload pl)
           (pe_execution_requests pl) (pe_block_value pl)"
  using assms
  by (auto simp: handle_proposal_def start_building_block_def get_payload_def outcome_simps
      dest: add_ovf_Ok split: if_splits)

lemma own_proposal:
  assumes "builds_on_head (pv_engine env)"
    and "handle_proposal pr A env gh pid = Ok b"
    and "await_parent A gh pid (pv_parent env) = (Ok p :: (propose_error, _) outcome)"
    and "unat (b_height p) < 2 ^ 64 - 1" and "unat (b_timestamp p) < 2 ^ 64 - 1"
  shows "handle_verify pr' b p = Ok (head_block_hash (pv_forkchoice env) = eth_block_hash p) \<and>
         pv_now env \<le> b_timestamp b \<and> authentic A b"
  using assms(2)
proof (rule handle_proposal_Ok)
  fix p' i pl t
  assume p': "await_parent A gh pid (pv_parent env) = (Ok p' :: (propose_error, _) outcome)"
    and e: "fork_choice_updated_v3 (pv_engine env) (pv_forkchoice env) (Some (build_attributes t)) = Some (Some i)"
      "get_payload_v4 (pv_engine env) i = Some pl"
    and t: "proposal_time pr (pv_now env) p' = (Ok t :: (propose_error, _) outcome)"
    and b: "b = compute_digest A (b_digest p') (b_height p' + 1) t (pe_execution_payload pl)
           (pe_execution_requests pl) (pe_block_value pl)"
  have [simp]: "p' = p" using p' assms(3) by simp
  have hd: "pl_parent_hash (pe_execution_payload pl) = head_block_hash (pv_forkchoice env)"
    using assms(1) e unfolding builds_on_head_def by blast
  have "b_timestamp p < t \<and> pv_now env \<le> t"
    using proposal_time_Ok [OF t] assms(5) by simp
  then show ?thesis
    using hd unat_Suc_u64 [OF assms(4)] unfolding handle_verify_small [OF assms(4)] b
    by (simp add: compute_digest_def eth_parent_hash_def) (simp flip: compute_digest_def)
qed

text \<open>
  C19. A node's own proposal passes its own verification on the parent exactly when the shared
  forkchoice stood at the parent's execution block, whatever the clock says; the proposal is never
  stamped before the clock and carries the hash of its contents.
\<close>

theorem own_proposal_verifies:
  assumes "builds_on_head (pv_engine env)"
    and "handle_proposal pr A env gh pid = Ok b"
    and "await_parent A gh pid (pv_parent env) = (Ok p :: (propose_error, _) outcome)"
    and "unat (b_height p) < 2 ^ 64 - 1" and "unat (b_timestamp p) < 2 ^ 64 - 1"
  shows "handle_verify pr' b p = Ok (head_block_hash (pv_forkchoice env) = eth_block_hash p) \<and>
         pv_now env \<le> b_timestamp b \<and> authentic A b"
  by (rule own_proposal [OF assms])

text \<open>An execution client that builds on the head it is given, as long as the hash fits a payload id.\<close>

definition building_engine :: engine_api where
  "building_engine =
     \<lparr>fork_choice_updated_v3 = (\<lambda>fc pa.
        Some (if ucast (ucast (head_block_hash fc) :: u64) = head_block_hash fc
              then Some (ucast (head_block_hash fc)) else None)),
      get_payload_v4 = (\<lambda>i. Some \<lparr>pe_execution_payload = sample_payload\<lparr>pl_parent_hash := ucast i\<rparr>,
                                   pe_execution_requests = [], pe_block_value = 0\<rparr>),
      new_payload_v4 = (\<lambda>_ _ _ _. Some True)\<rparr>"

lemma building_engine_builds [simp]: "builds_on_head building_engine"
  by (auto simp: builds_on_head_def building_engine_def split: if_splits)

definition sample_env :: "forkchoice \<Rightarrow> propose_env" where
  "sample_env fc = \<lparr>pv_parent = Some sample_block, pv_notify_taken = True, pv_notified = True,
                    pv_now = 50, pv_forkchoice = fc, pv_engine = building_engine\<rparr>"

lemma sample_env_proposes:
  assumes "ucast (ucast h :: u64) = (h :: digest)" and "gh \<noteq> b_digest sample_block"
  shows "\<exists>b. handle_proposal Debug inline_api (sample_env (forkchoice_at h)) gh (3, b_digest sample_block) = Ok b"
  using assms
  by (simp add: handle_proposal_def sample_env_def await_parent_def proposal_time_def engine_call_defs
      building_engine_def forkchoice_at_def add_ovf_small)

lemma sample_env_parent:
  "gh \<noteq> b_digest sample_block \<Longrightarrow>
     await_parent A gh (3, b_digest sample_block) (pv_parent (sample_env fc))
       = (Ok sample_block :: ('e, _) outcome)"
  by (simp add: await_parent_def sample_env_def)

theorem own_proposal_verifies_witness:
  "\<exists>b. handle_proposal Debug inline_api (sample_env (forkchoice_at 11)) (b_digest sample_block + 1)
          (3, b_digest sample_block) = Ok b \<and>
       handle_verify Debug b sample_block = (Ok True :: (unit, bool) outcome)"
proof -
  have "ucast (ucast (11 :: digest) :: u64) = (11 :: digest)" "b_digest sample_block + 1 \<noteq> b_digest sample_block"
    by simp_all
  from sample_env_proposes [OF this] obtain b where
    b: "handle_proposal Debug inline_api (sample_env (forkchoice_at 11)) (b_digest sample_block + 1)
          (3, b_digest sample_block) = Ok b" by blast
  have e: "builds_on_head (pv_engine (sample_env (forkchoice_at 11)))" by (simp add: sample_env_def)
  have "handle_verify Debug b sample_block = (Ok (head_block_hash (pv_forkchoice (sample_env (forkchoice_at 11)))
      = eth_block_hash sample_block) :: (unit, bool) outcome)"
    by (rule conjunct1 [OF own_proposal_verifies [OF e b sample_env_parent]]) simp_all
  with b show ?thesis by (auto simp: sample_env_def forkchoice_at_def)
qed

text \<open>
  With the parent at hand, a finalizer that answers and an execution client that responds, a
  proposal never panics below the maximal height and timestamp: it ends in a block, or in the one
  error when the client starts no payload.
\<close>

lemma proposal_returns:
  assumes "responsive (pv_engine env)" and "pv_notify_taken env" and "pv_notified env"
    and "await_parent A gh pid (pv_parent env) = (Ok p :: (propose_error, _) outcome)"
    and "unat (b_height p) < 2 ^ 64 - 1" and "unat (b_timestamp p) < 2 ^ 64 - 1"
  shows "(\<exists>b. handle_proposal pr A env gh pid = Ok b) \<or>
         handle_proposal pr A env gh pid = Err UnableToBuildPayload"
proof -
  have "\<exists>t. proposal_time pr (pv_now env) p = (Ok t :: (propose_error, _) outcome)"
    by (simp add: proposal_time_def add_ovf_Suc_u64 [OF assms(6)])
  then obtain t where t: "proposal_time pr (pv_now env) p = (Ok t :: (propose_error, _) outcome)" by blast
  have "\<exists>i. start_building_block (pv_engine env) (pv_forkchoice env) t = (Ok i :: (propose_error, _) outcome)"
    by (rule responsive_calls(3) [OF assms(1)])
  then obtain i where
    i: "start_building_block (pv_engine env) (pv_forkchoice env) t = (Ok i :: (propose_error, _) outcome)"
    by blast
  show ?thesis
  proof (cases i)
    case None
    with assms(2-4) t i show ?thesis by (simp add: handle_proposal_def)
  next
    case (Some x)
    have "\<exists>pl. get_payload (pv_engine env) x = (Ok pl :: (propose_error, _) outcome)"
      by (rule responsive_calls(4) [OF assms(1)])
    with Some assms(2-4) t i show ?thesis
      by (auto simp: handle_proposal_def add_ovf_Suc_u64 [OF assms(5)])
  qed
qed

section \<open>Voting\<close>

text \<open>
  C18. A verification task votes for a block only after handing that very block to the syncer under the
  view voted in, and only if the block was accepted on the parent; in every other case nothing is
  stored.
\<close>

theorem vote_follows_store:
  assumes "run_verify pr A gh t answers = (Ok es :: ('e, 'r app_effect list) outcome)"
  shows "(RespondVerdict (vt_response t) True \<in> set es \<longleftrightarrow>
            (\<exists>b p. es = [StoreValid (vt_view t) b, RespondVerdict (vt_response t) True] \<and>
                   answers = Some (fst (the answers), Some b) \<and>
                   await_parent A gh (vt_parent t) (fst (the answers)) = (Ok p :: ('e, _) outcome) \<and>
                   handle_verify pr b p = (Ok True :: ('e, _) outcome))) \<and>
         (RespondVerdict (vt_response t) True \<notin> set es \<longrightarrow>
            es = [] \<or> es = [RespondVerdict (vt_response t) False])"
  using assms
  by (auto simp: run_verify_def outcome_simps split: option.splits if_splits)

lemma sample_task_run:
  "run_verify Debug inline_api 7 \<lparr>vt_view = 4, vt_parent = (0, 7), vt_payload = b_digest sample_block, vt_response = 1\<rparr>
     (Some (None, Some sample_block))
     = (Ok [StoreValid 4 sample_block, RespondVerdict (1 :: nat) True] :: (unit, _) outcome)"
  by (simp add: run_verify_def await_parent_def handle_verify_small eth_parent_hash_def)

theorem vote_follows_store_witness:
  "\<exists>p. handle_verify Debug sample_block p = (Ok True :: (unit, bool) outcome) \<and>
       await_parent inline_api 7 (0, 7) None = (Ok p :: (unit, block) outcome)"
  using vote_follows_store [OF sample_task_run] by auto

section \<open>Broadcasting\<close>

lemma handle_propose_cases:
  assumes "handle_propose pr A env aborted parent r a = (Ok (a', es) :: ('e, _) outcome)"
  obtains (built) b where "handle_proposal pr A env (ap_genesis_hash a) parent = Ok b"
      "a' = a\<lparr>ap_built_block := Some b\<rparr>" "RespondDigest r (b_digest b) \<in> set es"
      "\<And>b'. BroadcastBuilt b' \<notin> set es"
  | (nothing) "a' = a" "\<And>b'. BroadcastBuilt b' \<notin> set es"
proof -
  have no: "BroadcastBuilt b' \<notin> set (proposal_requests A env gh parent)" for b' gh
    by (auto simp: proposal_requests_def parent_requests_def split: outcome.splits)
  show thesis
  proof (cases aborted)
    case (Some n)
    with assms have "a' = a" and "es = take n (proposal_requests A env (ap_genesis_hash a) parent)"
      by (auto simp: handle_propose_def)
    moreover from this no have "BroadcastBuilt b' \<notin> set es" for b'
      by (auto dest: in_set_takeD)
    ultimately show thesis by (intro that(2))
  next
    case None
    show thesis
    proof (cases "handle_proposal pr A env (ap_genesis_hash a) parent")
      case (Ok b)
      with assms None have "a' = a\<lparr>ap_built_block := Some b\<rparr>"
        "es = proposal_requests A env (ap_genesis_hash a) parent @ [RespondDigest r (b_digest b)]"
        by (simp_all add: handle_propose_def Let_def)
      with Ok no show thesis by (intro that(1) [of b]) simp_all
    next
      case (Err e)
      with assms None have "a' = a" "es = proposal_requests A env (ap_genesis_hash a) parent"
        by (auto simp: handle_propose_def Let_def)
      with no show thesis by (intro that(2)) simp_all
    qed (use assms None in \<open>simp add: handle_propose_def\<close>)
  qed
qed

lemma run_verify_no_broadcast:
  "run_verify pr A gh t answers = (Ok es :: ('e, _) outcome) \<Longrightarrow> BroadcastBuilt b \<notin> set es"
  by (auto simp: run_verify_def outcome_simps split: option.splits if_splits)

lemma task_effects_no_broadcast: "BroadcastBuilt b \<notin> set (snd (task_done pr A i answers a))"
  by (cases "run_verify pr A (ap_genesis_hash a) (ap_tasks a ! i) answers :: (unit, _) outcome")
     (simp_all add: task_done_def run_verify_no_broadcast)

text \<open>What a step broadcasts is the block kept; what it keeps it kept before or has just answered.\<close>

lemma app_step_built:
  assumes "app_step pr A ev a = (Ok (a', es) :: ('e, _) outcome)"
  shows "BroadcastBuilt b \<in> set es \<longrightarrow> ap_built_block a = Some b \<and> ap_built_block a' = Some b \<and> es = [BroadcastBuilt b]"
    and "ap_built_block a' = Some b \<longrightarrow> ap_built_block a = Some b \<or>
           ((\<exists>r. RespondDigest r (b_digest b) \<in> set es) \<and> authentic A b)"
proof -
  have "(BroadcastBuilt b \<in> set es \<longrightarrow> ap_built_block a = Some b \<and> ap_built_block a' = Some b \<and> es = [BroadcastBuilt b]) \<and>
    (ap_built_block a' = Some b \<longrightarrow> ap_built_block a = Some b \<or>
           ((\<exists>r. RespondDigest r (b_digest b) \<in> set es) \<and> authentic A b))"
  proof (cases ev)
    case (TaskDone i answers)
    have "ap_built_block (fst (task_done pr A i answers a)) = ap_built_block a"
      by (simp add: task_done_def)
    with assms TaskDone task_effects_no_broadcast [of b pr A i answers a] show ?thesis
      by (cases "task_done pr A i answers a") auto
  next
    case (AppMail env aborted m)
    show ?thesis
    proof (cases m)
      case (AppPropose view parent r)
      with assms AppMail have "handle_propose pr A env aborted parent r a = (Ok (a', es) :: ('e, _) outcome)"
        by simp
      then show ?thesis
      proof (cases rule: handle_propose_cases)
        case (built b')
        have "authentic A b'" using built(1) by (rule handle_proposal_Ok) simp
        with built show ?thesis by auto
      qed auto
    qed (use assms AppMail in \<open>auto simp: handle_broadcast_request_def start_verify_def parent_requests_def
           split: option.splits if_splits\<close>)
  qed
  then show "BroadcastBuilt b \<in> set es \<longrightarrow> ap_built_block a = Some b \<and> ap_built_block a' = Some b \<and> es = [BroadcastBuilt b]"
    "ap_built_block a' = Some b \<longrightarrow> ap_built_block a = Some b \<or>
           ((\<exists>r. RespondDigest r (b_digest b) \<in> set es) \<and> authentic A b)" by blast+
qed

definition was_proposed :: "block_api \<Rightarrow> 'r app_effect list \<Rightarrow> block \<Rightarrow> bool" where
  "was_proposed A es b \<longleftrightarrow> (\<exists>r. RespondDigest r (b_digest b) \<in> set es) \<and> authentic A b"

lemma app_run_broadcasts:
  assumes "app_run pr A evs a = (Ok (a', es) :: ('e, _) outcome)"
    and "\<And>b. ap_built_block a = Some b \<Longrightarrow> was_proposed A past b"
    and "es = pre @ BroadcastBuilt b # post"
  shows "was_proposed A (past @ pre) b"
  using assms
proof (induction evs arbitrary: a es past pre)
  case (Cons ev evs)
  from Cons.prems(1) obtain a1 es1 es2 where
    s: "app_step pr A ev a = (Ok (a1, es1) :: ('e, _) outcome)" and
    r: "app_run pr A evs a1 = (Ok (a', es2) :: ('e, _) outcome)" and es: "es = es1 @ es2"
    by (auto simp: outcome_simps)
  note st = app_step_built [OF s]
  have kept: "was_proposed A (past @ es1) b'" if "ap_built_block a1 = Some b'" for b'
    using st(2) [of b'] that Cons.prems(2) [of b'] by (auto simp: was_proposed_def)
  from es Cons.prems(3) consider
      (first) us where "es1 = pre @ BroadcastBuilt b # us"
    | (later) us where "pre = es1 @ us" "es2 = us @ BroadcastBuilt b # post"
    by (auto simp: append_eq_append_conv2 Cons_eq_append_conv append_eq_Cons_conv)
  then show ?case
  proof cases
    case first
    then have "BroadcastBuilt b \<in> set es1" by simp
    with st(1) [of b] have "ap_built_block a = Some b" "es1 = [BroadcastBuilt b]" by simp_all
    with Cons.prems(2) [of b] show ?thesis by (auto simp: was_proposed_def)
  next
    case later
    from Cons.IH [OF r kept later(2)] show ?thesis by (simp add: later(1))
  qed
qed simp

text \<open>
  C27. Whatever digest consensus asks to broadcast, the block that goes out is one the actor proposed
  earlier in the run, with its digest already given to consensus, and it carries the hash of its
  contents.
\<close>

theorem broadcast_was_proposed:
  assumes "app_run pr A evs (application_new gh) = (Ok (a', es) :: ('e, _) outcome)"
    and "es = pre @ BroadcastBuilt b # post"
  shows "(\<exists>r. RespondDigest r (b_digest b) \<in> set pre) \<and> authentic A b"
proof -
  have none: "ap_built_block (application_new gh) \<noteq> Some c" for c by (simp add: application_new_def)
  from app_run_broadcasts [OF assms(1) _ assms(2), of "[]"] show ?thesis
    by (simp add: none was_proposed_def)
qed

theorem broadcast_was_proposed_witness:
  "\<exists>a es b post. app_run Debug inline_api
      [AppMail (sample_env (forkchoice_at 11)) None (AppPropose 4 (3, b_digest sample_block) 1),
       AppMail (sample_env (forkchoice_at 11)) None (AppBroadcast 99)]
      (application_new (b_digest sample_block + 1)) = (Ok (a, es) :: (unit, _) outcome) \<and>
     es = [GetBlock (Some 3) (b_digest sample_block), AwaitHeight 1, RespondDigest (1 :: nat) (b_digest b),
           BroadcastBuilt b] @ post \<and> authentic inline_api b"
proof -
  let ?gh = "b_digest sample_block + 1"
  have h: "ucast (ucast (11 :: digest) :: u64) = (11 :: digest)" "?gh \<noteq> b_digest sample_block"
    by simp_all
  from sample_env_proposes [OF h] obtain b where
    b: "handle_proposal Debug inline_api (sample_env (forkchoice_at 11)) ?gh (3, b_digest sample_block) = Ok b"
    by blast
  have rq: "proposal_requests inline_api (sample_env (forkchoice_at 11)) ?gh (3, b_digest sample_block)
      = [GetBlock (Some 3) (b_digest sample_block), AwaitHeight 1 :: nat app_effect]"
    by (simp add: proposal_requests_def parent_requests_def sample_env_parent)
  obtain a where run: "app_run Debug inline_api
      [AppMail (sample_env (forkchoice_at 11)) None (AppPropose 4 (3, b_digest sample_block) 1),
       AppMail (sample_env (forkchoice_at 11)) None (AppBroadcast 99)] (application_new ?gh)
      = (Ok (a, [GetBlock (Some 3) (b_digest sample_block), AwaitHeight 1, RespondDigest (1 :: nat) (b_digest b)]
               @ BroadcastBuilt b # []) :: (unit, _) outcome)"
    using b rq by (simp add: application_new_def handle_propose_def handle_broadcast_request_def Let_def)
  from broadcast_was_proposed [OF run refl] run show ?thesis by auto
qed

end
