(* ===== verification/Syncer_Ancestry.thy ===== *)
theory Syncer_Ancestry
  imports Syncer_Repair
begin

text \<open>
  Where the blocks of the finalized chain come from. A watched syncer records the certificates it was
  shown and the digests it asked other nodes for; every block it stores is named by such a certificate
  or is, by parent digests through stored blocks, an ancestor of one that is.
\<close>

section \<open>Vouched digests\<close>

inductive vouched :: "finalization list \<Rightarrow> (block, 'h) archive \<Rightarrow> digest \<Rightarrow> bool"
  for cs :: "finalization list" and a :: "(block, 'h) archive" where
  by_certificate: "c \<in> set cs \<Longrightarrow> vouched cs a (c_payload c)"
| by_child: "vouched cs a d \<Longrightarrow> held a h = Some (d, g) \<Longrightarrow> vouched cs a (b_parent g)"

lemma vouched_mono:
  "vouched cs a d \<Longrightarrow> set cs \<subseteq> set cs' \<Longrightarrow> grows a a' \<Longrightarrow> vouched cs' a' d"
proof (induction rule: vouched.induct)
  case (by_certificate c)
  then show ?case by (auto intro: vouched.by_certificate)
next
  case (by_child d h g)
  then show ?case by (auto intro: vouched.by_child dest: growsD)
qed

definition all_vouched :: "finalization list \<Rightarrow> (block, 'h) archive \<Rightarrow> bool" where
  "all_vouched cs a \<longleftrightarrow> all_held (\<lambda>h d b. vouched cs a d) a"

lemma all_vouched_empty: "held a = Map.empty \<Longrightarrow> all_vouched cs a"
  by (simp add: all_vouched_def all_held_def)

lemma all_vouched_mono: "all_vouched cs a \<Longrightarrow> set cs \<subseteq> set cs' \<Longrightarrow> all_vouched cs' a"
  unfolding all_vouched_def all_held_def using vouched_mono [where a' = a, OF _ _ grows_refl] by blast

lemma all_vouched_put:
  assumes "archive_laws R" and "all_vouched cs a" and "vouched cs a d" and "ar_put R h d b a = Inr a'"
  shows "all_vouched cs a'"
proof -
  have g: "grows a a'" by (rule grows_put [OF assms(1,4)])
  have "all_held (\<lambda>h d b. vouched cs a d) a'"
    using assms by (intro all_held_put [OF assms(1) _ _ assms(4)]) (simp_all add: all_vouched_def)
  then show ?thesis using vouched_mono [OF _ _ g, of cs _ cs] by (auto simp: all_vouched_def all_held_def)
qed

lemma vouched_parent:
  assumes "archive_laws R" and "all_vouched cs a" and "ar_get_index R a i = Some (Some g)"
  shows "vouched cs a (b_parent g)"
proof -
  from get_index_held [OF assms(1,3)] obtain d where d: "held a i = Some (d, g)"
    by (cases "held a i") auto
  with assms(2) have "vouched cs a d" by (auto simp: all_vouched_def dest: all_heldD)
  then show ?thesis by (rule by_child [OF _ d])
qed

section \<open>What a step adds\<close>

text \<open>The digests asked of other nodes.\<close>

fun asked_digest :: "'r sync_effect \<Rightarrow> digest option" where
  "asked_digest (Fetch k) =
     (case to_value k :: (unit, index_value) outcome of Ok (Digest d) \<Rightarrow> Some d | _ \<Rightarrow> None)"
| "asked_digest _ = None"

abbreviation asked_digests :: "'r sync_effect list \<Rightarrow> digest list" where
  "asked_digests es \<equiv> List.map_filter asked_digest es"

lemma asked_digests_Cons [simp]:
  "asked_digests (e # es) = (case asked_digest e of None \<Rightarrow> asked_digests es | Some d \<Rightarrow> d # asked_digests es)"
  by (simp add: List.map_filter_simps)

lemma asked_digests_append [simp]: "asked_digests (es @ es') = asked_digests es @ asked_digests es'"
  by (induction es) (simp_all add: List.map_filter_simps split: option.splits)

lemma asked_digests_Nil [simp]: "asked_digests [] = []"
  by (simp add: List.map_filter_simps)

lemma asked_digest_new [simp]:
  "asked_digest (Fetch (multi_index_new v)) = (case v of Digest d \<Rightarrow> Some d | _ \<Rightarrow> None)"
  by (simp add: to_value_of_new split: index_value.splits)

declare asked_digest.simps(1) [simp del]

lemma asked_digests_heights [simp]: "asked_digests (map height_fetch hs) = []"
  by (induction hs) (simp_all add: height_fetch_def)

text \<open>The step keeps the stored blocks vouched, and asks only for vouched digests.\<close>

definition vouches :: "finalization list \<Rightarrow> 'h syncer \<Rightarrow> 'h syncer \<Rightarrow> 'r sync_effect list \<Rightarrow> bool" where
  "vouches cs s s' es \<longleftrightarrow>
     (all_vouched cs (sy_blocks s) \<longrightarrow>
        all_vouched cs (sy_blocks s') \<and> (\<forall>d \<in> set (asked_digests es). vouched cs (sy_blocks s') d))"

lemma vouches_same: "sy_blocks s' = sy_blocks s \<Longrightarrow> asked_digests es = [] \<Longrightarrow> vouches cs s s' es"
  by (simp add: vouches_def)

lemma vouches_put:
  "archive_laws R \<Longrightarrow> ar_put R h d b (sy_blocks s) = Inr (sy_blocks s') \<Longrightarrow>
     (all_vouched cs (sy_blocks s) \<Longrightarrow> vouched cs (sy_blocks s) d) \<Longrightarrow> asked_digests es = [] \<Longrightarrow>
     vouches cs s s' es"
  by (auto simp: vouches_def intro: all_vouched_put)

lemma handle_finalize_vouches:
  assumes "sync_laws A" and "c \<in> set cs"
    and "handle_finalize A env c s = (Ok (s', es) :: ('e, 'h, 'r) sync_result)"
  shows "vouches cs s s' es"
  using assms(3)
proof (cases rule: handle_finalize_cases)
  case (found b fin bl v n)
  then show ?thesis
    using assms(2)
    by (intro vouches_put [OF sync_lawsD(4) [OF assms(1)], where d = "c_payload c"])
      (auto intro: by_certificate)
next
  case missing
  with assms(2) show ?thesis by (auto simp: vouches_def intro: by_certificate)
qed

lemma handle_message_vouches:
  assumes "sync_laws A" and "\<And>c. m = Finalize c \<Longrightarrow> c \<in> set cs"
    and "handle_message A env m s = (Ok (s', es) :: ('e, 'h, 'r) sync_result)"
  shows "vouches cs s s' es"
proof (cases m)
  case (Get view payload r)
  with assms(3) have "handle_get A env view payload r s = (Ok (s', es) :: ('e, 'h, 'r) sync_result)" by simp
  then show ?thesis
    by (intro vouches_same)
      (auto simp: handle_get_def and_then_eq_Ok_iff split: option.splits)
next
  case (Finalize c)
  with assms show ?thesis by (intro handle_finalize_vouches [OF assms(1)]) simp_all
next
  case (Notarize c)
  with assms(3) show ?thesis
    by (intro vouches_same)
      (auto simp: handle_notarize_def Let_def and_then_eq_Ok_iff split: option.splits)
qed (use assms(3) in \<open>auto intro!: vouches_same simp: handle_broadcast_def handle_store_verified_def
       outcome_simps\<close>)

lemma request_gap_vouches:
  assumes "request_gap pr env next start r s = (Ok (s', es) :: ('e, 'h, 'r) sync_result)"
  shows "sy_blocks s' = sy_blocks s \<and> asked_digests es = []"
  using assms
proof (rule request_gap_Ok)
  fix limit requested and fetches :: "'r sync_effect list"
  assume "request_heights (u64_range next (min start limit)) (sy_requested_blocks s) = (requested, fetches)"
    "s' = s\<lparr>sy_requested_blocks := requested\<rparr>" "es = fetches @ [SendBool r False]"
  then show ?thesis by (auto simp: request_heights_eq)
qed

lemma orchestrator_repair_vouches:
  assumes "sync_laws A"
    and "orchestrator_repair pr A env next r s = (Ok (s', es) :: ('e, 'h, 'r) sync_result)"
  shows "vouches cs s s' es"
  using assms(2)
proof (cases rule: orchestrator_repair_cases)
  case no_gap
  then show ?thesis by (intro vouches_same) simp_all
next
  case (copied start g b)
  then show ?thesis
    using vouched_parent [OF sync_lawsD(4) [OF assms(1)] _ copied(3)]
    by (intro vouches_put [OF sync_lawsD(4) [OF assms(1)], where d = "b_parent g"])
      (auto simp: repair_with_Ok)
next
  case (asked start g es')
  then show ?thesis
    using vouched_parent [OF sync_lawsD(4) [OF assms(1)] _ asked(3), of cs] request_gap_vouches [OF asked(6)]
    by (auto simp: vouches_def)
next
  case (at_genesis start)
  from request_gap_vouches [OF this(3)] show ?thesis by (intro vouches_same) simp_all
qed

lemma handle_orchestration_vouches:
  assumes "sync_laws A"
    and "handle_orchestration pr A env m s = (Ok (s', es) :: ('e, 'h, 'r) sync_result)"
  shows "vouches cs s s' es"
proof (cases m)
  case (OrchestrationRepair n r)
  with assms(2) show ?thesis by (intro orchestrator_repair_vouches [OF assms(1)]) simp_all
qed (use assms(2) in \<open>auto intro!: vouches_same simp: orchestrator_get_def orchestrator_processed_def
       outcome_simps send_expect_def split: if_splits\<close>)

section \<open>What is delivered\<close>

text \<open>The finalization in an answer for a height, if it verifies.\<close>

definition delivered_certificates :: "'h sync_api \<Rightarrow> 'h syncer \<Rightarrow> bytes \<Rightarrow> finalization list" where
  "delivered_certificates A s value =
     (case decode_finalized A value of
        Ok f \<Rightarrow> if verify_finalization A (sy_namespace s) (sy_identity s) (f_proof f) then [f_proof f] else []
      | _ \<Rightarrow> [])"

fun shown_certificates :: "'h sync_api \<Rightarrow> 'h syncer \<Rightarrow> 'r sync_event \<Rightarrow> finalization list" where
  "shown_certificates A s (FromMailbox (Some (Finalize c))) = [c]"
| "shown_certificates A s (FromHandler (Some (Deliver key value r))) = delivered_certificates A s value"
| "shown_certificates A s _ = []"

text \<open>The resolver hands over only what was asked of it.\<close>

fun answers_request :: "digest list \<Rightarrow> 'r sync_event \<Rightarrow> bool" where
  "answers_request ds (FromHandler (Some (Deliver key value r))) =
     (case to_value key :: (unit, index_value) outcome of Ok (Digest d) \<Rightarrow> d \<in> set ds | _ \<Rightarrow> True)"
| "answers_request ds _ = True"

lemma handle_deliver_vouches:
  assumes "sync_laws A" and "set (delivered_certificates A s value) \<subseteq> set cs"
    and "\<And>d. to_value key = (Ok (Digest d) :: (unit, _) outcome) \<Longrightarrow> vouched cs (sy_blocks s) d"
    and "handle_deliver A key value r s = (Ok (s', es) :: ('e, 'h, 'r) sync_result)"
  shows "vouches cs s s' es"
proof -
  note laws = sync_lawsD(4) [OF assms(1)]
  from assms(4) obtain v where v: "to_value key = (Ok v :: ('e, _) outcome)"
    unfolding handle_deliver_def and_then_eq_Ok_iff by blast
  then have v': "to_value key = (Ok v :: (unit, _) outcome)"
    by (cases key) (auto simp: Let_def split: if_splits)
  show ?thesis
  proof (cases v)
    case (Notarized view)
    with assms(4) v have "deliver_notarized A view value r s = (Ok (s', es) :: ('e, 'h, 'r) sync_result)"
      by (simp add: handle_deliver_def)
    then show ?thesis by (cases rule: deliver_notarized_cases) (auto intro: vouches_same)
  next
    case (Finalized height)
    with assms(4) v have "deliver_finalized A height value r s = (Ok (s', es) :: ('e, 'h, 'r) sync_result)"
      by (simp add: handle_deliver_def)
    then show ?thesis
    proof (cases rule: deliver_finalized_cases)
      case (accepted f fin bl)
      have "finalized_ok (wire A) f" by (rule decoded_ok(3) [OF assms(1) accepted(1)])
      then have "c_payload (f_proof f) = b_digest (f_block f)" by (simp add: finalized_ok_def)
      moreover have "f_proof f \<in> set cs"
        using assms(2) accepted(1,2) by (simp add: delivered_certificates_def)
      ultimately have "vouched cs (sy_blocks s) (b_digest (f_block f))"
        using by_certificate by metis
      with accepted show ?thesis by (intro vouches_put [OF laws, where d = "b_digest (f_block f)"]) auto
    qed (auto intro: vouches_same)
  next
    case (Digest d)
    with assms(4) v have "deliver_digest A d value r s = (Ok (s', es) :: ('e, 'h, 'r) sync_result)"
      by (simp add: handle_deliver_def)
    then show ?thesis
    proof (cases rule: deliver_digest_cases)
      case (accepted b bl)
      with assms(3) v' Digest show ?thesis by (intro vouches_put [OF laws, where d = d]) auto
    qed (auto intro: vouches_same)
  qed
qed

section \<open>The watched syncer\<close>

text \<open>A syncer together with the certificates it was shown and the digests it asked for so far.\<close>

record 'h watched =
  w_node :: "'h syncer"
  w_certificates :: "finalization list"
  w_asked :: "digest list"

definition watched_new :: "'h syncer \<Rightarrow> 'h watched" where
  "watched_new s = \<lparr>w_node = s, w_certificates = [], w_asked = []\<rparr>"

definition watch :: "'h sync_api \<Rightarrow> nat sync_event \<Rightarrow> 'h syncer \<Rightarrow> nat sync_effect list \<Rightarrow> 'h watched \<Rightarrow> 'h watched" where
  "watch A ev s' es w =
     \<lparr>w_node = s', w_certificates = w_certificates w @ shown_certificates A (w_node w) ev,
      w_asked = w_asked w @ asked_digests es\<rparr>"

text \<open>A step in surroundings that keep to their contract, with its event and its effects.\<close>

inductive watched_step ::
  "profile \<Rightarrow> 'h sync_api \<Rightarrow> nat sync_event \<Rightarrow> nat sync_effect list \<Rightarrow> 'h watched \<Rightarrow> 'h watched \<Rightarrow> bool"
  for pr :: profile and A :: "'h sync_api" where
  watched_step: "watched_step pr A ev es w (watch A ev s' es w)"
    if "env_ok A (env :: nat sync_env)" and "event_ok A (w_node w) ev" and "answers_request (w_asked w) ev"
      and "sync_step pr A env ev (w_node w) = (Ok (s', es) :: (unit, 'h, nat) sync_result)"

inductive_cases watched_stepE: "watched_step pr A ev es w w'"

definition watched_inv :: "'h sync_api \<Rightarrow> 'h watched \<Rightarrow> bool" where
  "watched_inv A w \<longleftrightarrow>
     sync_inv A (w_node w) \<and> all_vouched (w_certificates w) (sy_blocks (w_node w)) \<and>
     (\<forall>d \<in> set (w_asked w). vouched (w_certificates w) (sy_blocks (w_node w)) d) \<and>
     (\<forall>c \<in> set (w_certificates w). verify_finalization A (sy_namespace (w_node w)) (sy_identity (w_node w)) c)"

lemma shown_certificates_verify:
  "event_ok A s ev \<Longrightarrow> c \<in> set (shown_certificates A s ev) \<Longrightarrow>
     verify_finalization A (sy_namespace s) (sy_identity s) c"
  by (induction A s ev rule: shown_certificates.induct)
    (auto simp: delivered_certificates_def split: outcome.splits if_splits)

lemma shown_certificates_cong:
  "sy_namespace s' = sy_namespace s \<Longrightarrow> sy_identity s' = sy_identity s \<Longrightarrow>
     shown_certificates A s' ev = shown_certificates A s ev"
  by (induction A s ev rule: shown_certificates.induct) (simp_all add: delivered_certificates_def split: outcome.split)

lemma produce_asks:
  "produce_notarized A v r s = (Ok (s', es) :: ('e, 'h, 'r) sync_result) \<Longrightarrow> asked_digests es = []"
  "produce_finalized A h r s = (Ok (s', es) :: ('e, 'h, 'r) sync_result) \<Longrightarrow> asked_digests es = []"
  "produce_digest A env d r s = (Ok (s', es) :: ('e, 'h, 'r) sync_result) \<Longrightarrow> asked_digests es = []"
  by (auto simp: produce_notarized_def produce_finalized_def produce_digest_def and_then_eq_Ok_iff
      split: option.splits)

lemma handle_produce_asks:
  "handle_produce A env key r s = (Ok (s', es) :: ('e, 'h, 'r) sync_result) \<Longrightarrow> asked_digests es = []"
  unfolding handle_produce_def and_then_eq_Ok_iff
  by (elim exE conjE) (auto dest: produce_asks split: index_value.split_asm)

lemma handle_event_vouches:
  assumes "sync_laws A" and "set (shown_certificates A s ev) \<subseteq> set cs"
    and "answers_request ds ev" and "\<And>d. d \<in> set ds \<Longrightarrow> vouched cs (sy_blocks s) d"
    and "handle_event pr A env ev s = (Ok (s', es) :: ('e, 'h, 'r) sync_result)"
  shows "vouches cs s s' es"
proof (cases ev)
  case (FromMailbox m)
  with assms(5) obtain msg where m: "m = Some msg"
    "handle_message A env msg s = (Ok (s', es) :: ('e, 'h, 'r) sync_result)"
    by (auto simp: outcome_simps)
  with assms(2) FromMailbox show ?thesis
    by (intro handle_message_vouches [OF assms(1)]) auto
next
  case (FromOrchestrator m)
  with assms(5) obtain msg where
    "handle_orchestration pr A env msg s = (Ok (s', es) :: ('e, 'h, 'r) sync_result)"
    by (auto simp: outcome_simps)
  then show ?thesis by (rule handle_orchestration_vouches [OF assms(1)])
next
  case (FromHandler m)
  with assms(5) obtain msg where
    h: "m = Some msg" "handle_resolver A env msg s = (Ok (s', es) :: ('e, 'h, 'r) sync_result)"
    by (auto simp: outcome_simps)
  show ?thesis
  proof (cases msg)
    case (Deliver key bs r)
    with h FromHandler assms(2-4) show ?thesis
      by (intro handle_deliver_vouches [OF assms(1), of _ bs _ key r]) simp_all
  next
    case (Produce key r)
    with h have p: "handle_produce A env key r s = (Ok (s', es) :: ('e, 'h, 'r) sync_result)" by simp
    from handle_produce_asks [OF this] show ?thesis using handle_produce_state [OF p] by (intro vouches_same) simp_all
  qed
qed

lemma watched_step_inv:
  fixes w :: "'h watched"
  assumes "sync_laws A" and "watched_inv A w" and "watched_step pr A ev es w w'"
  shows "watched_inv A w' \<and> stable (w_node w) (w_node w') \<and>
         set (w_certificates w) \<subseteq> set (w_certificates w')"
  using assms(3)
proof (rule watched_stepE)
  fix env :: "nat sync_env" and s'
  assume w': "w' = watch A ev s' es w" and env: "env_ok A env" and ev: "event_ok A (w_node w) ev"
    and ans: "answers_request (w_asked w) ev"
    and step: "sync_step pr A env ev (w_node w) = (Ok (s', es) :: (unit, 'h, nat) sync_result)"
  let ?cs = "w_certificates w @ shown_certificates A (w_node w) ev"
  have inv: "sync_inv A (w_node w)" using assms(2) by (simp add: watched_inv_def)
  have k: "keeps A (w_node w) s'" by (rule sync_step_inv [OF assms(1) inv env ev step])
  then have cfg: "sy_namespace s' = sy_namespace (w_node w)" "sy_identity s' = sy_identity (w_node w)"
    and g: "grows (sy_blocks (w_node w)) (sy_blocks s')" by (simp_all add: stable_def)
  obtain s1 es1 where c: "cancel_stale (w_node w) = (s1, es1 :: nat sync_effect list)"
    by (cases "cancel_stale (w_node w) :: _ \<times> nat sync_effect list")
  then have s1: "sy_blocks s1 = sy_blocks (w_node w)" "sy_namespace s1 = sy_namespace (w_node w)"
    "sy_identity s1 = sy_identity (w_node w)" "asked_digests es1 = []"
    by (auto simp: cancel_stale_def List.map_filter_def)
  from step c obtain es2 where
    h: "handle_event pr A env ev s1 = (Ok (s', es2) :: (unit, 'h, nat) sync_result)" and es: "es = es1 @ es2"
    by (auto simp: sync_step_Ok)
  have old: "vouched ?cs (sy_blocks s1) d" if "d \<in> set (w_asked w)" for d
  proof -
    have "vouched (w_certificates w) (sy_blocks (w_node w)) d"
      using that assms(2) by (simp add: watched_inv_def)
    from vouched_mono [OF this, of ?cs "sy_blocks s1"] show ?thesis by (simp add: s1(1))
  qed
  have "vouches ?cs s1 s' es2"
    by (rule handle_event_vouches [OF assms(1) _ ans old h])
      (simp_all add: shown_certificates_cong [OF s1(2,3)])
  moreover have "all_vouched ?cs (sy_blocks s1)"
    using assms(2) all_vouched_mono [of "w_certificates w" "sy_blocks (w_node w)" ?cs]
    by (simp add: s1(1) watched_inv_def)
  ultimately have v: "all_vouched ?cs (sy_blocks s')"
    "\<forall>d \<in> set (asked_digests es). vouched ?cs (sy_blocks s') d"
    by (simp_all add: vouches_def es s1(4))
  have "vouched ?cs (sy_blocks s') d" if "d \<in> set (w_asked w)" for d
    using old [OF that] g unfolding s1(1) by (rule vouched_mono [OF _ subset_refl])
  moreover have "verify_finalization A (sy_namespace s') (sy_identity s') c'" if "c' \<in> set ?cs" for c'
    using that assms(2) shown_certificates_verify [OF ev] unfolding cfg watched_inv_def by auto
  ultimately show ?thesis
    using k v by (auto simp: w' watch_def watched_inv_def)
qed

text \<open>Any number of steps.\<close>

definition watched_run :: "profile \<Rightarrow> 'h sync_api \<Rightarrow> 'h watched \<Rightarrow> 'h watched \<Rightarrow> bool" where
  "watched_run pr A = (\<lambda>w w'. \<exists>ev es. watched_step pr A ev es w w')\<^sup>*\<^sup>*"

lemma watched_run_inv:
  assumes "sync_laws A" and "watched_inv A w" and "watched_run pr A w w'"
  shows "watched_inv A w' \<and> stable (w_node w) (w_node w') \<and>
         set (w_certificates w) \<subseteq> set (w_certificates w')"
  using assms(3) unfolding watched_run_def
proof (induction rule: rtranclp_induct)
  case base
  then show ?case using assms(2) by simp
next
  case (step w1 w2)
  then obtain ev es where "watched_step pr A ev es w1 w2" by blast
  from watched_step_inv [OF assms(1) _ this] step.IH show ?case using stable_trans by blast
qed

lemma watched_new_inv:
  "sync_inv A s \<Longrightarrow> held (sy_blocks s) = Map.empty \<Longrightarrow> watched_inv A (watched_new s)"
  by (simp add: watched_inv_def watched_new_def all_vouched_empty)

text \<open>
  C3. Every block in the finalized chain is vouched for: over any run from an empty block archive,
  whatever other nodes deliver for what was asked of them, each stored block is named by a
  finalization certificate that was shown to the node and verifies, or it is an ancestor of such a
  block by parent digests through blocks that are stored themselves.
\<close>

theorem stored_blocks_vouched:
  assumes "sync_laws A" and "sync_inv A s0" and "held (sy_blocks s0) = Map.empty"
    and "watched_run pr A (watched_new s0) w"
  shows "(\<forall>c \<in> set (w_certificates w). verify_finalization A (sy_namespace s0) (sy_identity s0) c) \<and>
         (\<forall>h d b. held (sy_blocks (w_node w)) h = Some (d, b) \<longrightarrow>
            d = b_digest b \<and> vouched (w_certificates w) (sy_blocks (w_node w)) (b_digest b))"
proof -
  have start: "watched_inv A (watched_new s0)" by (rule watched_new_inv [OF assms(2,3)])
  from watched_run_inv [OF assms(1) start assms(4)]
  have w: "watched_inv A w" and st: "stable (w_node (watched_new s0)) (w_node w)" by simp_all
  from w have inv: "sync_inv A (w_node w)" and v: "all_vouched (w_certificates w) (sy_blocks (w_node w))"
    by (simp_all add: watched_inv_def)
  have "d = b_digest b \<and> vouched (w_certificates w) (sy_blocks (w_node w)) (b_digest b)"
    if "held (sy_blocks (w_node w)) h = Some (d, b)" for h d b
    using that all_heldD [OF sync_invD(4) [OF inv] that] v
    by (auto simp: block_entry_def all_vouched_def all_held_def)
  with w st show ?thesis by (auto simp: watched_inv_def stable_def watched_new_def)
qed

lemma fresh_node_step:
  "sync_step Debug sample_api with_sample (FromMailbox (Some (Finalize sample_cert))) fresh_node
     = (Ok (node_after_finalize, [NotifyFinalizer]) :: (unit, u64, nat) sync_result)"
proof -
  have "cancel_stale fresh_node = (fresh_node, [] :: nat sync_effect list)"
    by (simp add: cancel_stale_def fresh_node_def syncer_new_def)
  then show ?thesis by (simp add: sync_step_def fresh_node_finalizes)
qed

text \<open>The watched node after finalizing the sample block.\<close>

definition watched_sample :: "u64 watched" where
  "watched_sample = \<lparr>w_node = node_after_finalize, w_certificates = [sample_cert], w_asked = []\<rparr>"

lemma watched_sample_step:
  "watched_step Debug sample_api (FromMailbox (Some (Finalize sample_cert))) [NotifyFinalizer]
     (watched_new fresh_node) watched_sample"
proof -
  let ?ev = "FromMailbox (Some (Finalize sample_cert)) :: nat sync_event"
  have "watched_step Debug sample_api ?ev [NotifyFinalizer] (watched_new fresh_node)
      (watch sample_api ?ev node_after_finalize [NotifyFinalizer] (watched_new fresh_node))"
    using fresh_node_step by (intro watched_step [where env = with_sample]) (simp_all add: watched_new_def)
  then show ?thesis by (simp add: watch_def watched_new_def watched_sample_def)
qed

lemma fresh_node_blocks [simp]: "held (sy_blocks fresh_node) = Map.empty"
  by (simp add: fresh_node_def syncer_new_def fun_eq_iff)

lemma watched_sample_run: "watched_run Debug sample_api (watched_new fresh_node) watched_sample"
  unfolding watched_run_def using watched_sample_step by (blast intro: r_into_rtranclp)

theorem stored_blocks_vouched_witness:
  "vouched [sample_cert] (sy_blocks node_after_finalize) (b_digest sample_block)"
proof -
  have "held (sy_blocks (w_node watched_sample)) 1 = Some (b_digest sample_block, sample_block)"
    by (simp add: watched_sample_def node_after_finalize_def held_def)
  from conjunct2 [OF stored_blocks_vouched [OF sample_api_laws fresh_node_inv fresh_node_blocks
        watched_sample_run], rule_format, OF this]
  show ?thesis by (simp add: watched_sample_def)
qed

end
