(* ===== verification/Block_Source.thy ===== *)
theory Block_Source
  imports Block_Types
begin

text \<open>
  The interface between the finalizer and whoever hands it blocks: what it asks for by height it gets
  as it is stored, and what is stored stays. The chain it has taken from such a source is then always
  made of the stored blocks of consecutive heights. The syncer provides it in \<open>Node_Run\<close>.
\<close>

locale block_source =
  fixes good :: "'s \<Rightarrow> bool"
    and stores :: "'s \<Rightarrow> u64 \<Rightarrow> block \<Rightarrow> bool"
    and gives :: "'s \<Rightarrow> u64 \<Rightarrow> block \<Rightarrow> bool"
    and moves :: "'s \<Rightarrow> 's \<Rightarrow> bool"
  assumes gives_stored: "good s \<Longrightarrow> gives s h b \<Longrightarrow> stores s h b \<and> b_height b = h"
    and moves_good: "good s \<Longrightarrow> moves s s' \<Longrightarrow> good s'"
    and moves_keeps: "good s \<Longrightarrow> moves s s' \<Longrightarrow> stores s h b \<Longrightarrow> stores s' h b"
begin

definition chain :: "u64 \<Rightarrow> u64 \<Rightarrow> block list \<Rightarrow> 's \<Rightarrow> bool" where
  "chain start reached bs s \<longleftrightarrow>
     unat start \<le> unat reached \<and>
     map (unat \<circ> b_height) bs = [Suc (unat start) ..< Suc (unat reached)] \<and>
     (\<forall>b \<in> set bs. stores s (b_height b) b)"

lemma chain_empty: "chain start start [] s"
  by (simp add: chain_def)

lemma chain_moves: "good s \<Longrightarrow> moves s s' \<Longrightarrow> chain start reached bs s \<Longrightarrow> chain start reached bs s'"
  using moves_keeps by (auto simp: chain_def)

text \<open>Taking the block of the next height and letting the source go on extends the chain by it.\<close>

lemma chain_take:
  assumes "good s" and "gives s (reached + 1) b" and "moves s s'" and "chain start reached bs s"
    and "unat reached < 2 ^ 64 - 1"
  shows "chain start (reached + 1) (bs @ [b]) s'"
proof -
  have b: "stores s' (b_height b) b" "b_height b = reached + 1"
    using gives_stored [OF assms(1,2)] moves_keeps [OF assms(1,3)] by auto
  have u: "unat (reached + 1) = Suc (unat reached)" by (rule unat_Suc_u64 [OF assms(5)])
  from chain_moves [OF assms(1,3,4)] show ?thesis
    using b u by (simp add: chain_def)
qed

lemma chain_height:
  assumes "chain start reached bs s" and "i < length bs"
  shows "b_height (bs ! i) = start + 1 + word_of_nat i"
proof -
  have m: "map (unat \<circ> b_height) bs = [Suc (unat start) ..< Suc (unat reached)]"
    using assms(1) by (simp add: chain_def)
  then have "length (map (unat \<circ> b_height) bs) = length [Suc (unat start) ..< Suc (unat reached)]"
    by (rule arg_cong)
  then have l: "length bs = unat reached - unat start"
    by (simp only: length_map length_upt diff_Suc_Suc)
  have "unat (b_height (bs ! i)) = map (unat \<circ> b_height) bs ! i" using assms(2) by simp
  also have "\<dots> = Suc (unat start) + i"
    unfolding m using assms(2) l by (subst nth_upt) auto
  finally have "(word_of_nat (unat (b_height (bs ! i))) :: u64) = word_of_nat (Suc (unat start) + i)" by simp
  then show ?thesis by simp
qed

end

end
