(* ===== verification/Node_Run.thy ===== *)
theory Node_Run
  imports Syncer_Ancestry Finalizer_Properties Block_Source
begin

text \<open>
  The finalizer and the syncer together: the calls a pass of the finalizer makes on its orchestrator
  are messages to the syncer, which takes any other steps in between. What the execution client is
  given is then a property of the whole node.
\<close>

section \<open>The finalizer's calls\<close>

text \<open>
  The messages behind the effects of a pass, with the response channel \<open>r\<close>; what goes to the
  execution client, to the disk and to waiters sends none.
\<close>

fun finalizer_call :: "nat \<Rightarrow> 'c fin_effect \<Rightarrow> nat orchestration option" where
  "finalizer_call r (AskBlock next) = Some (OrchestrationGet next r)"
| "finalizer_call r (Processed next d) = Some (OrchestrationProcessed next d)"
| "finalizer_call r (AskRepair next) = Some (OrchestrationRepair next r)"
| "finalizer_call r _ = None"

definition finalizer_calls :: "nat \<Rightarrow> 'c fin_effect list \<Rightarrow> nat orchestration list" where
  "finalizer_calls r es = List.map_filter (finalizer_call r) es"

lemma finalizer_calls_simps [simp]:
  "finalizer_calls r [] = []"
  "finalizer_calls r (e # es) =
     (case finalizer_call r e of None \<Rightarrow> finalizer_calls r es | Some m \<Rightarrow> m # finalizer_calls r es)"
  by (simp_all add: finalizer_calls_def List.map_filter_simps split: option.split)

fun from_finalizer :: "'r sync_event \<Rightarrow> bool" where
  "from_finalizer (FromOrchestrator m) = True"
| "from_finalizer _ = False"

section \<open>The node\<close>

record ('c, 'm, 'h) full_node =
  fn_finalizer :: "('c, 'm) finalizer"
  fn_syncer :: "'h watched"
  fn_executed :: "block list"

definition other_steps :: "profile \<Rightarrow> 'h sync_api \<Rightarrow> 'h watched \<Rightarrow> 'h watched \<Rightarrow> bool" where
  "other_steps pr A = (\<lambda>w w'. \<exists>ev es. watched_step pr A ev es w w' \<and> \<not> from_finalizer ev)\<^sup>*\<^sup>*"

text \<open>
  One pass: the syncer answers \<open>get\<close> from its state at that moment and handles the second call,
  \<open>processed\<close> or \<open>repair\<close>, after whatever it did meanwhile; its answers are the inputs of the pass.
  Heights stay below the last two of the integer type.
\<close>

inductive node_step ::
  "profile \<Rightarrow> 'm metadata_api \<Rightarrow> 'h sync_api \<Rightarrow> ('c, 'm, 'h) full_node \<Rightarrow> ('c, 'm, 'h) full_node \<Rightarrow> bool"
  for pr :: profile and M :: "'m metadata_api" and A :: "'h sync_api" where
  syncer_works: "node_step pr M A n (n\<lparr>fn_syncer := w\<rparr>)"
    if "other_steps pr A (fn_syncer n) w"
| finalizer_passes:
    "node_step pr M A n \<lparr>fn_finalizer = f, fn_syncer = w3, fn_executed = fn_executed n @ committed i\<rparr>"
    if "finalizer_pass pr M i (fn_finalizer n) = (Ok (f, es) :: (unit, _) outcome)"
      and "unat (fz_last_indexed (fn_finalizer n)) < 2 ^ 64 - 2"
      and "finalizer_calls r es = [m1, m2]"
      and "watched_step pr A (FromOrchestrator (Some m1)) es1 (fn_syncer n) w1"
      and "SendMaybeBlock r (fi_block i) \<in> set es1"
      and "other_steps pr A w1 w2"
      and "watched_step pr A (FromOrchestrator (Some m2)) es2 w2 w3"
      and "\<And>next. m2 = OrchestrationRepair next r \<Longrightarrow> SendBool r (fi_repaired i) \<in> set es2"

definition node_run ::
  "profile \<Rightarrow> 'm metadata_api \<Rightarrow> 'h sync_api \<Rightarrow> ('c, 'm, 'h) full_node \<Rightarrow> ('c, 'm, 'h) full_node \<Rightarrow> bool"
  where "node_run pr M A = (node_step pr M A)\<^sup>*\<^sup>*"

definition node_new :: "('c, 'm) finalizer \<Rightarrow> 'h syncer \<Rightarrow> ('c, 'm, 'h) full_node" where
  "node_new f s = \<lparr>fn_finalizer = f, fn_syncer = watched_new s, fn_executed = []\<rparr>"

section \<open>The syncer's side of a pass\<close>

lemma other_steps_run: "other_steps pr A w w' \<Longrightarrow> watched_run pr A w w'"
  unfolding other_steps_def watched_run_def by (rule rtranclp_mono [THEN predicate2D, rotated]) blast+

text \<open>A block that \<open>get\<close> hands out for a height is the one stored there.\<close>

lemma answered_block:
  assumes "sync_laws A" and "sync_inv A (w_node w)"
    and "watched_step pr A (FromOrchestrator (Some (OrchestrationGet next r))) es w w'"
    and "SendMaybeBlock r (Some b) \<in> set es"
  shows "held (sy_blocks (w_node w)) next = Some (b_digest b, b) \<and> b_height b = next"
  using assms(3)
proof (rule watched_stepE)
  fix env :: "nat sync_env" and s'
  assume "sync_step pr A env (FromOrchestrator (Some (OrchestrationGet next r))) (w_node w)
      = (Ok (s', es) :: (unit, _, nat) sync_result)"
  with assms(4) have "ar_get_index (blocks_ar A) (sy_blocks (w_node w)) next = Some (Some b)"
    by (auto simp: sync_step_Ok cancel_stale_def orchestrator_get_def send_expect_def outcome_simps
        split: if_splits)
  from all_held_index [OF sync_lawsD(4) [OF assms(1)] sync_invD(4) [OF assms(2)] this]
  show ?thesis by (auto simp: block_entry_def)
qed

text \<open>The syncer is a source of blocks for the finalizer.\<close>

definition syncer_good :: "'h sync_api \<Rightarrow> 'h watched \<Rightarrow> bool" where
  "syncer_good A w \<longleftrightarrow> sync_laws A \<and> watched_inv A w"

definition syncer_stores :: "'h watched \<Rightarrow> u64 \<Rightarrow> block \<Rightarrow> bool" where
  "syncer_stores w h b \<longleftrightarrow> held (sy_blocks (w_node w)) h = Some (b_digest b, b)"

definition syncer_gives :: "profile \<Rightarrow> 'h sync_api \<Rightarrow> 'h watched \<Rightarrow> u64 \<Rightarrow> block \<Rightarrow> bool" where
  "syncer_gives pr A w h b \<longleftrightarrow>
     (\<exists>r es w'. watched_step pr A (FromOrchestrator (Some (OrchestrationGet h r))) es w w' \<and>
        SendMaybeBlock r (Some b) \<in> set es)"

interpretation syncer_source: block_source "syncer_good A" syncer_stores "syncer_gives pr A" "watched_run pr A"
  for pr A
proof unfold_locales
  fix w h b
  assume "syncer_good A w" and "syncer_gives pr A w h b"
  then show "syncer_stores w h b \<and> b_height b = h"
    using answered_block by (fastforce simp: syncer_good_def syncer_gives_def syncer_stores_def watched_inv_def)
next
  fix w w' h b
  assume good: "syncer_good A w" and run: "watched_run pr A w w'"
  then have "watched_inv A w' \<and> stable (w_node w) (w_node w')"
    using watched_run_inv by (auto simp: syncer_good_def)
  with good show "syncer_good A w'" "syncer_stores w h b \<Longrightarrow> syncer_stores w' h b"
    by (auto simp: syncer_good_def syncer_stores_def stable_def dest: growsD)
qed

lemma watched_run_step: "watched_step pr A ev es w w' \<Longrightarrow> watched_run pr A w w'"
  unfolding watched_run_def by blast

lemma watched_run_trans: "watched_run pr A w w' \<Longrightarrow> watched_run pr A w' w'' \<Longrightarrow> watched_run pr A w w''"
  unfolding watched_run_def by (rule rtranclp_trans)

section \<open>The invariant of the node\<close>

definition node_inv :: "'m metadata_api \<Rightarrow> 'h sync_api \<Rightarrow> u64 \<Rightarrow> ('c, 'm, 'h) full_node \<Rightarrow> bool" where
  "node_inv M A start n \<longleftrightarrow>
     finalizer_inv M (fn_finalizer n) \<and> syncer_good A (fn_syncer n) \<and>
     syncer_source.chain start (fz_last_indexed (fn_finalizer n)) (fn_executed n) (fn_syncer n) \<and>
     (fn_executed n \<noteq> [] \<longrightarrow>
        fz_forkchoice (fn_finalizer n) = forkchoice_at (eth_block_hash (last (fn_executed n))))"

lemma node_inv_syncer:
  assumes "node_inv M A start n" and "watched_run pr A (fn_syncer n) w"
  shows "node_inv M A start (n\<lparr>fn_syncer := w\<rparr>)"
  using assms syncer_source.moves_good [OF _ assms(2)] syncer_source.chain_moves [OF _ assms(2)]
  by (auto simp: node_inv_def)

lemma pass_first_call:
  assumes "finalizer_pass pr M i s = (Ok (s', es) :: ('e, _) outcome)"
    and "unat (fz_last_indexed s) < 2 ^ 64 - 1"
  shows "\<exists>es'. es = AskBlock (fz_last_indexed s + 1) # es'"
  using assms
  by (auto simp: finalizer_pass_eq outcome_simps add_ovf_Suc_u64 split: option.splits if_splits)

lemma commits_block: "commits i \<Longrightarrow> \<exists>b. fi_block i = Some b"
  by (auto simp: commits_def split: option.splits)

lemma node_step_inv:
  assumes "metadata_laws M" and "node_inv M A start n" and "node_step pr M A n n'"
  shows "node_inv M A start n'"
  using assms(3)
proof cases
  case (syncer_works w)
  from node_inv_syncer [OF assms(2) other_steps_run [OF syncer_works(2)]] show ?thesis
    by (simp add: syncer_works(1))
next
  case (finalizer_passes i f es r m1 m2 es1 w1 w2 es2 w3)
  let ?f = "fn_finalizer n" and ?w = "fn_syncer n"
  have fin: "finalizer_inv M ?f" using assms(2) by (simp add: node_inv_def)
  have small: "unat (fz_last_indexed ?f) < 2 ^ 64 - 1" using finalizer_passes(3) by simp
  note pe = finalizer_pass_effect [OF assms(1) fin finalizer_passes(3,2)]
  have run: "watched_run pr A ?w w3"
    using finalizer_passes(5,7,8) watched_run_step other_steps_run watched_run_trans by metis
  have inv3: "node_inv M A start (n\<lparr>fn_syncer := w3\<rparr>)"
    by (rule node_inv_syncer [OF assms(2) run])
  show ?thesis
  proof (cases "commits i")
    case False
    then have "fz_last_indexed f = fz_last_indexed ?f" using pe(2) by (simp add: word_unat_eq_iff)
    with False show ?thesis
      using inv3 pe(1,4) by (simp add: finalizer_passes(1) committed_def node_inv_def)
  next
    case True
    then obtain b where b: "fi_block i = Some b" using commits_block by blast
    from pass_first_call [OF finalizer_passes(2) small] finalizer_passes(4)
    have m1: "m1 = OrchestrationGet (fz_last_indexed ?f + 1) r" by auto
    have "syncer_gives pr A ?w (fz_last_indexed ?f + 1) b"
      using finalizer_passes(5,6) unfolding syncer_gives_def m1 b by blast
    from syncer_source.chain_take [OF _ this run _ small] assms(2)
    have "syncer_source.chain start (fz_last_indexed ?f + 1) (fn_executed n @ [b]) w3"
      by (simp add: node_inv_def)
    moreover have "fz_last_indexed f = fz_last_indexed ?f + 1"
      using pe(2) True unat_Suc_u64 [OF small] by (simp add: word_unat_eq_iff)
    ultimately show ?thesis
      using inv3 pe(1,4) True b by (simp add: finalizer_passes(1) committed_def node_inv_def)
  qed
qed

lemma node_run_inv:
  assumes "metadata_laws M" and "node_inv M A start n" and "node_run pr M A n n'"
  shows "node_inv M A start n'"
  using assms(3) unfolding node_run_def
  by (induction rule: rtranclp_induct) (use assms node_step_inv in blast)+

lemma node_new_inv:
  assumes "finalizer_inv M f" and "sync_laws A" and "sync_inv A s" and "held (sy_blocks s) = Map.empty"
  shows "node_inv M A (fz_last_indexed f) (node_new f s)"
  using assms watched_new_inv [OF assms(3,4)]
  by (simp add: node_inv_def node_new_def syncer_good_def syncer_source.chain_empty)

text \<open>Until the first block is executed the fork choice stays what it was.\<close>

lemma step_keeps_forkchoice:
  assumes "metadata_laws M" and "node_inv M A start n" and "node_step pr M A n n'" and "fn_executed n' = []"
  shows "fn_executed n = [] \<and> fz_forkchoice (fn_finalizer n') = fz_forkchoice (fn_finalizer n)"
  using assms(3)
proof cases
  case (syncer_works w)
  with assms(4) show ?thesis by simp
next
  case (finalizer_passes i f es r m1 m2 es1 w1 w2 es2 w3)
  have "finalizer_inv M (fn_finalizer n)" using assms(2) by (simp add: node_inv_def)
  from finalizer_pass_effect(4) [OF assms(1) this finalizer_passes(3,2)] assms(4) finalizer_passes(1)
  show ?thesis by (auto simp: committed_def dest: commits_block)
qed

lemma run_keeps_forkchoice:
  assumes "metadata_laws M" and "node_inv M A start n" and "node_run pr M A n n'" and "fn_executed n' = []"
  shows "fz_forkchoice (fn_finalizer n') = fz_forkchoice (fn_finalizer n)"
  using assms(3,4) unfolding node_run_def
proof (induction rule: rtranclp_induct)
  case (step n1 n2)
  have "node_inv M A start n1"
    using step.hyps(1) by (intro node_run_inv [OF assms(1,2)]) (simp add: node_run_def)
  from step_keeps_forkchoice [OF assms(1) this step.hyps(2) step.prems] step.IH show ?case by simp
qed simp

section \<open>What the execution client is given\<close>

lemma node_run_fresh:
  assumes "metadata_laws M" and "sync_laws A" and "finalizer_inv M f" and "sync_inv A s"
    and "held (sy_blocks s) = Map.empty" and "node_run pr M A (node_new f s) n"
  shows "node_inv M A (fz_last_indexed f) n"
  by (rule node_run_inv [OF assms(1) node_new_inv [OF assms(3,2,4,5)] assms(6)])

lemma executed_vouched:
  assumes "node_inv M A start n" and "b \<in> set (fn_executed n)"
  defines "w \<equiv> fn_syncer n"
  shows "held (sy_blocks (w_node w)) (b_height b) = Some (b_digest b, b)"
    and "vouched (w_certificates w) (sy_blocks (w_node w)) (b_digest b)"
proof -
  show h: "held (sy_blocks (w_node w)) (b_height b) = Some (b_digest b, b)"
    using assms by (simp add: node_inv_def syncer_source.chain_def syncer_stores_def)
  have "all_vouched (w_certificates w) (sy_blocks (w_node w))"
    using assms(1) by (simp add: w_def node_inv_def syncer_good_def watched_inv_def)
  with h show "vouched (w_certificates w) (sy_blocks (w_node w)) (b_digest b)"
    by (auto simp: all_vouched_def dest: all_heldD)
qed

text \<open>
  C1. End to end: however the finalizer's passes interleave with everything else the syncer does, the
  blocks the execution client is told to make final have consecutive heights from the one after the
  durable height on, each is the block stored at its height, and each is certified or an ancestor of
  a certified block; the shared forkchoice is the last of them.
\<close>

theorem executes_finalized_chain:
  assumes "metadata_laws M" and "sync_laws A" and "finalizer_inv M f" and "sync_inv A s"
    and "held (sy_blocks s) = Map.empty" and "node_run pr M A (node_new f s) n"
  shows "map (unat \<circ> b_height) (fn_executed n)
           = [Suc (unat (fz_last_indexed f)) ..< Suc (unat (fz_last_indexed (fn_finalizer n)))] \<and>
         (\<forall>b \<in> set (fn_executed n).
            held (sy_blocks (w_node (fn_syncer n))) (b_height b) = Some (b_digest b, b) \<and>
            vouched (w_certificates (fn_syncer n)) (sy_blocks (w_node (fn_syncer n))) (b_digest b)) \<and>
         (fn_executed n \<noteq> [] \<longrightarrow>
            fz_forkchoice (fn_finalizer n) = forkchoice_at (eth_block_hash (last (fn_executed n))))"
proof -
  have inv: "node_inv M A (fz_last_indexed f) n" by (rule node_run_fresh [OF assms])
  then show ?thesis
    using executed_vouched [OF inv] by (simp add: node_inv_def syncer_source.chain_def)
qed

subsection \<open>A concrete run\<close>

text \<open>The syncer finalizes the sample block, then a pass of the finalizer commits it.\<close>

abbreviation "first_node \<equiv> node_new fresh_finalizer fresh_node"

definition committed_finalizer :: "(nat, two_copies) finalizer" where
  "committed_finalizer =
     \<lparr>fz_last_indexed = 1, fz_pending = [],
      fz_metadata = ([LATEST_KEY \<mapsto> 1], [LATEST_KEY \<mapsto> 1]),
      fz_forkchoice = forkchoice_at (eth_block_hash sample_block)\<rparr>"

definition watched_committed :: "u64 watched" where
  "watched_committed = watched_sample\<lparr>w_node := node_after_finalize\<lparr>sy_last_view_processed := 3\<rparr>\<rparr>"

definition second_node :: "(nat, two_copies, u64) full_node" where
  "second_node = \<lparr>fn_finalizer = committed_finalizer, fn_syncer = watched_committed,
                  fn_executed = [sample_block]\<rparr>"

lemma commit_input_commits [simp]: "commits commit_input" "fi_block commit_input = Some sample_block"
  by (simp_all add: commits_def commit_input_def accepting_engine_def)

lemma fresh_finalizer_commits:
  "finalizer_pass Debug two_copy_store commit_input fresh_finalizer
     = (Ok (committed_finalizer,
         [AskBlock 1, CheckPayload sample_block, CommitHash (forkchoice_at (eth_block_hash sample_block)),
          SyncMetadata, Processed 1 (b_digest sample_block)]) :: (unit, _) outcome)"
  by (simp add: finalizer_evals add_one_evals committed_finalizer_def fun_eq_iff)

lemma cancel_stale_finalized [simp]:
  "cancel_stale node_after_finalize = (node_after_finalize, [])"
  by (simp add: cancel_stale_def node_after_finalize_def fresh_node_def syncer_new_def)

lemma watched_quietI:
  assumes "sync_step pr sample_api quiet ev (w_node w) = (Ok (s', es) :: (unit, u64, nat) sync_result)"
    and "event_ok sample_api (w_node w) ev" and "answers_request (w_asked w) ev"
    and "watch sample_api ev s' es w = w'"
  shows "watched_step pr sample_api ev es w w'"
  using watched_step [where env = quiet, OF _ assms(2,3,1)] assms(4) by simp

lemma sample_get_step:
  "watched_step Debug sample_api (FromOrchestrator (Some (OrchestrationGet 1 7)))
     [SendMaybeBlock 7 (Some sample_block)] watched_sample watched_sample"
  by (rule watched_quietI [where s' = node_after_finalize])
    (simp_all add: sync_step_def orchestrator_get_def send_expect_def node_simps node_after_finalize_def
      cancel_stale_def watched_sample_def watch_def)

lemma sample_processed_step:
  "watched_step Debug sample_api (FromOrchestrator (Some (OrchestrationProcessed 1 (b_digest sample_block))))
     [Cancel (multi_index_new (Finalized 1)), Cancel (multi_index_new (Digest (b_digest sample_block)))]
     watched_sample watched_committed"
  by (rule watched_quietI [where s' = "node_after_finalize\<lparr>sy_last_view_processed := 3\<rparr>"])
    (simp_all add: sync_step_def orchestrator_processed_def node_simps node_after_finalize_def cancel_stale_def
      watched_sample_def watched_committed_def watch_def)

lemma second_node_run: "node_run Debug two_copy_store sample_api first_node second_node"
proof -
  let ?step = "node_step Debug two_copy_store sample_api"
  let ?n1 = "first_node\<lparr>fn_syncer := watched_sample\<rparr>"
  have "other_steps Debug sample_api (watched_new fresh_node) watched_sample"
    unfolding other_steps_def using watched_sample_step
    by (intro r_into_rtranclp exI [of _ "FromMailbox (Some (Finalize sample_cert))"]) auto
  then have "?step first_node ?n1"
    by (intro node_step.syncer_works) (simp add: node_new_def)
  moreover have "?step ?n1 \<lparr>fn_finalizer = committed_finalizer, fn_syncer = watched_committed,
      fn_executed = fn_executed ?n1 @ committed commit_input\<rparr>"
  proof (rule node_step.finalizer_passes [where r = 7])
    show "finalizer_pass Debug two_copy_store commit_input (fn_finalizer ?n1) = (Ok (committed_finalizer,
        [AskBlock 1, CheckPayload sample_block, CommitHash (forkchoice_at (eth_block_hash sample_block)),
          SyncMetadata, Processed 1 (b_digest sample_block)]) :: (unit, _) outcome)"
      using fresh_finalizer_commits by (simp add: node_new_def)
    show "other_steps Debug sample_api watched_sample watched_sample" by (simp add: other_steps_def)
    show "unat (fz_last_indexed (fn_finalizer ?n1)) < 2 ^ 64 - 2"
      by (simp add: node_new_def finalizer_new_def two_copy_store_def new_store_def)
    show "watched_step Debug sample_api (FromOrchestrator (Some (OrchestrationGet 1 7)))
        [SendMaybeBlock 7 (Some sample_block)] (fn_syncer ?n1) watched_sample"
      using sample_get_step by simp
    show "watched_step Debug sample_api
        (FromOrchestrator (Some (OrchestrationProcessed 1 (b_digest sample_block))))
        [Cancel (multi_index_new (Finalized 1)), Cancel (multi_index_new (Digest (b_digest sample_block)))]
        watched_sample watched_committed"
      by (rule sample_processed_step)
  qed simp_all
  moreover have "\<lparr>fn_finalizer = committed_finalizer, fn_syncer = watched_committed,
      fn_executed = fn_executed ?n1 @ committed commit_input\<rparr> = second_node"
    by (simp add: second_node_def node_new_def committed_def)
  ultimately show ?thesis unfolding node_run_def by (simp add: converse_rtranclp_into_rtranclp)
qed

theorem executes_finalized_chain_witness:
  "fn_executed second_node = [sample_block] \<and>
   vouched [sample_cert] (sy_blocks node_after_finalize) (b_digest sample_block)"
proof -
  from executes_finalized_chain [OF two_copy_laws sample_api_laws finalizer_inv_new [OF two_copy_laws]
      fresh_node_inv fresh_node_blocks second_node_run]
  show ?thesis by (simp add: second_node_def watched_committed_def watched_sample_def)
qed

end
