(* ===== verification/Node_Properties.thy ===== *)
theory Node_Properties
  imports Node_Run Application_Properties
begin

text \<open>
  What holds between nodes and between the parts of one node: two nodes that were shown certificates
  of one chain execute the same blocks at the same heights, and what a restart does to proposals.
\<close>

section \<open>Agreement\<close>

text \<open>
  The finalized chain: every certificate shown is for a digest of the chain above its start, and a
  stored block that has the digest of a height has that height and its parent is the one below. This
  is what consensus and the collision resistance of the hash provide.
\<close>

definition on_chain :: "(u64 \<Rightarrow> digest) \<Rightarrow> 'h watched \<Rightarrow> bool" where
  "on_chain H w \<longleftrightarrow>
     (\<forall>c \<in> set (w_certificates w). \<exists>h. c_payload c = H h) \<and>
     (\<forall>i d b h. held (sy_blocks (w_node w)) i = Some (d, b) \<longrightarrow> d = H h \<longrightarrow>
        b_height b = h \<and> b_parent b = H (h - 1))"

lemma vouched_on_chain:
  assumes "vouched (w_certificates w) (sy_blocks (w_node w)) d" and "on_chain H w"
  shows "\<exists>h. d = H h"
  using assms
proof (induction rule: vouched.induct)
  case (by_certificate c)
  then show ?case by (auto simp: on_chain_def)
next
  case (by_child d h g)
  then obtain k where "d = H k" by blast
  with by_child have "b_parent g = H (k - 1)" unfolding on_chain_def by blast
  then show ?case by blast
qed

lemma executed_on_chain:
  assumes "node_inv M A start n" and "on_chain H (fn_syncer n)" and "b \<in> set (fn_executed n)"
  shows "b_digest b = H (b_height b)"
proof -
  note v = executed_vouched [OF assms(1,3)]
  from vouched_on_chain [OF v(2) assms(2)] obtain h where h: "b_digest b = H h" by blast
  with v(1) assms(2) have "b_height b = h" unfolding on_chain_def by blast
  with h show ?thesis by simp
qed

lemma executed_height:
  assumes "node_inv M A start n" and "i < length (fn_executed n)"
  shows "b_height (fn_executed n ! i) = start + 1 + word_of_nat i"
proof -
  have "syncer_source.chain start (fz_last_indexed (fn_finalizer n)) (fn_executed n) (fn_syncer n)"
    using assms(1) by (simp add: node_inv_def)
  from syncer_source.chain_height [OF this assms(2)] show ?thesis .
qed

text \<open>
  C4. Two nodes agree: when both were shown only certificates of one chain, the blocks their execution
  clients were given at a height are the same block by digest, in the order of the chain, whatever
  other nodes sent to either and in whatever order things happened.
\<close>

theorem nodes_agree:
  assumes "metadata_laws M" and "metadata_laws M'" and "sync_laws A" and "sync_laws A'"
    and "finalizer_inv M f" and "finalizer_inv M' f'" and "fz_last_indexed f = fz_last_indexed f'"
    and "sync_inv A s" and "sync_inv A' s'" and "held (sy_blocks s) = Map.empty" and "held (sy_blocks s') = Map.empty"
    and "node_run pr M A (node_new f s) n" and "node_run pr' M' A' (node_new f' s') n'"
    and "on_chain H (fn_syncer n)" and "on_chain H (fn_syncer n')"
    and "i < length (fn_executed n)" and "i < length (fn_executed n')"
  shows "b_digest (fn_executed n ! i) = b_digest (fn_executed n' ! i) \<and>
         b_height (fn_executed n ! i) = b_height (fn_executed n' ! i)"
proof -
  have n: "node_inv M A (fz_last_indexed f) n"
    by (rule node_run_fresh [OF assms(1,3,5,8,10,12)])
  have n': "node_inv M' A' (fz_last_indexed f') n'"
    by (rule node_run_fresh [OF assms(2,4,6,9,11,13)])
  have h: "b_height (fn_executed n ! i) = b_height (fn_executed n' ! i)"
    using executed_height [OF n assms(16)] executed_height [OF n' assms(17)] assms(7) by simp
  then show ?thesis
    using executed_on_chain [OF n assms(14) nth_mem [OF assms(16)]]
      executed_on_chain [OF n' assms(15) nth_mem [OF assms(17)]] by simp
qed

text \<open>The chain that starts with the sample block over the genesis digest 7.\<close>

definition sample_chain_digest :: "u64 \<Rightarrow> digest" where
  "sample_chain_digest h = (if h = 1 then b_digest sample_block else 7)"

text \<open>
  A second node gets there by another path: its application had the block verified, so it holds the
  block in its verified archive when the certificate arrives, and nothing is in the buffer.
\<close>

definition node_verified :: "u64 syncer" where
  "node_verified = fresh_node
     \<lparr>sy_verified := \<lparr>ar_entries = [(3, b_digest sample_block, sample_block)], ar_hidden = 0\<rparr>\<rparr>"

definition node_verified_finalized :: "u64 syncer" where
  "node_verified_finalized = node_verified
     \<lparr>sy_finalized := \<lparr>ar_entries = [(1, b_digest sample_block, sample_cert)], ar_hidden = 0\<rparr>,
      sy_blocks := \<lparr>ar_entries = [(1, b_digest sample_block, sample_block)], ar_hidden = 0\<rparr>,
      sy_latest_view := 3\<rparr>"

abbreviation "watched_verified \<equiv> watched_new node_verified"

definition watched_verified_finalized :: "u64 watched" where
  "watched_verified_finalized =
     \<lparr>w_node = node_verified_finalized, w_certificates = [sample_cert], w_asked = []\<rparr>"

definition watched_verified_committed :: "u64 watched" where
  "watched_verified_committed =
     watched_verified_finalized\<lparr>w_node := node_verified_finalized\<lparr>sy_last_view_processed := 3\<rparr>\<rparr>"

definition verified_node :: "(nat, two_copies, u64) full_node" where
  "verified_node = \<lparr>fn_finalizer = committed_finalizer, fn_syncer = watched_verified_committed,
                    fn_executed = [sample_block]\<rparr>"

lemmas verified_simps = node_verified_finalized_def node_verified_def node_simps cancel_stale_def
  watched_verified_finalized_def watched_new_def watch_def

lemma verified_steps:
  "watched_step Release sample_api (FromMailbox (Some (StoreVerified 3 sample_block))) []
     (watched_new fresh_node) watched_verified"
  "watched_step Release sample_api (FromMailbox (Some (Finalize sample_cert))) [NotifyFinalizer]
     watched_verified watched_verified_finalized"
  "watched_step Release sample_api (FromOrchestrator (Some (OrchestrationGet 1 7)))
     [SendMaybeBlock 7 (Some sample_block)] watched_verified_finalized watched_verified_finalized"
  "watched_step Release sample_api (FromOrchestrator (Some (OrchestrationProcessed 1 (b_digest sample_block))))
     [Cancel (multi_index_new (Finalized 1)), Cancel (multi_index_new (Digest (b_digest sample_block)))]
     watched_verified_finalized watched_verified_committed"
proof -
  show "watched_step Release sample_api (FromMailbox (Some (StoreVerified 3 sample_block))) []
     (watched_new fresh_node) watched_verified"
    by (rule watched_quietI [where s' = node_verified])
      (simp_all add: verified_simps sync_step_def handle_store_verified_def put_unless_pruned_def)
  show "watched_step Release sample_api (FromMailbox (Some (Finalize sample_cert))) [NotifyFinalizer]
     watched_verified watched_verified_finalized"
    by (rule watched_quietI [where s' = node_verified_finalized])
      (simp_all add: verified_simps sync_step_def handle_finalize_def Let_def saturating_sub_def)
  show "watched_step Release sample_api (FromOrchestrator (Some (OrchestrationGet 1 7)))
     [SendMaybeBlock 7 (Some sample_block)] watched_verified_finalized watched_verified_finalized"
    by (rule watched_quietI [where s' = node_verified_finalized])
      (simp_all add: verified_simps sync_step_def orchestrator_get_def send_expect_def)
  show "watched_step Release sample_api (FromOrchestrator (Some (OrchestrationProcessed 1 (b_digest sample_block))))
     [Cancel (multi_index_new (Finalized 1)), Cancel (multi_index_new (Digest (b_digest sample_block)))]
     watched_verified_finalized watched_verified_committed"
    by (rule watched_quietI [where s' = "node_verified_finalized\<lparr>sy_last_view_processed := 3\<rparr>"])
      (simp_all add: verified_simps sync_step_def orchestrator_processed_def watched_verified_committed_def)
qed

lemma verified_node_run: "node_run Release two_copy_store sample_api first_node verified_node"
proof -
  let ?step = "node_step Release two_copy_store sample_api"
  let ?n1 = "first_node\<lparr>fn_syncer := watched_verified_finalized\<rparr>"
  have "other_steps Release sample_api (watched_new fresh_node) watched_verified_finalized"
    unfolding other_steps_def
    by (rule rtranclp.rtrancl_into_rtrancl [OF r_into_rtranclp]) (use verified_steps(1,2) in fastforce)+
  then have "?step first_node ?n1"
    by (intro node_step.syncer_works) (simp add: node_new_def)
  moreover have "?step ?n1 \<lparr>fn_finalizer = committed_finalizer, fn_syncer = watched_verified_committed,
      fn_executed = fn_executed ?n1 @ committed commit_input\<rparr>"
  proof (rule node_step.finalizer_passes [where r = 7])
    show "finalizer_pass Release two_copy_store commit_input (fn_finalizer ?n1) = (Ok (committed_finalizer,
        [AskBlock 1, CheckPayload sample_block, CommitHash (forkchoice_at (eth_block_hash sample_block)),
          SyncMetadata, Processed 1 (b_digest sample_block)]) :: (unit, _) outcome)"
      by (simp add: node_new_def finalizer_evals add_one_evals committed_finalizer_def fun_eq_iff)
    show "other_steps Release sample_api watched_verified_finalized watched_verified_finalized"
      by (simp add: other_steps_def)
    show "unat (fz_last_indexed (fn_finalizer ?n1)) < 2 ^ 64 - 2"
      by (simp add: node_new_def finalizer_new_def two_copy_store_def new_store_def)
    show "watched_step Release sample_api (FromOrchestrator (Some (OrchestrationGet 1 7)))
        [SendMaybeBlock 7 (Some sample_block)] (fn_syncer ?n1) watched_verified_finalized"
      using verified_steps(3) by simp
    show "watched_step Release sample_api
        (FromOrchestrator (Some (OrchestrationProcessed 1 (b_digest sample_block))))
        [Cancel (multi_index_new (Finalized 1)), Cancel (multi_index_new (Digest (b_digest sample_block)))]
        watched_verified_finalized watched_verified_committed"
      by (rule verified_steps(4))
  qed simp_all
  moreover have "\<lparr>fn_finalizer = committed_finalizer, fn_syncer = watched_verified_committed,
      fn_executed = fn_executed ?n1 @ committed commit_input\<rparr> = verified_node"
    by (simp add: verified_node_def node_new_def committed_def)
  ultimately show ?thesis unfolding node_run_def by (simp add: converse_rtranclp_into_rtranclp)
qed

lemma sample_on_chain:
  "on_chain sample_chain_digest (fn_syncer second_node)"
  "on_chain sample_chain_digest (fn_syncer verified_node)"
proof -
  have "(ucast (b_digest sample_block) :: u64) = 100"
    unfolding sample_block_def by (rule digest_timestamp)
  then have "b_digest sample_block \<noteq> 7" by auto
  moreover have "b_parent sample_block = 7" by (simp add: sample_block_def compute_digest_def)
  ultimately show "on_chain sample_chain_digest (fn_syncer second_node)"
    "on_chain sample_chain_digest (fn_syncer verified_node)"
    by (auto simp: on_chain_def second_node_def watched_committed_def watched_sample_def
        node_after_finalize_def held_def sample_chain_digest_def verified_node_def
        watched_verified_committed_def watched_verified_finalized_def node_verified_finalized_def
        split: if_splits)
qed

theorem nodes_agree_witness:
  "b_digest (fn_executed second_node ! 0) = b_digest (fn_executed verified_node ! 0) \<and>
   fn_executed second_node = [sample_block] \<and>
   sy_verified (w_node (fn_syncer second_node)) \<noteq> sy_verified (w_node (fn_syncer verified_node))"
proof -
  have l: "0 < length (fn_executed second_node)" "0 < length (fn_executed verified_node)"
    by (simp_all add: second_node_def verified_node_def)
  note fin = finalizer_inv_new [OF two_copy_laws, of new_store "forkchoice_at 7"]
  have "sy_verified (w_node (fn_syncer second_node)) \<noteq> sy_verified (w_node (fn_syncer verified_node))"
    by (simp add: second_node_def watched_committed_def watched_sample_def node_after_finalize_def
        verified_node_def watched_verified_committed_def watched_verified_finalized_def
        node_verified_finalized_def node_verified_def fresh_node_def syncer_new_def empty_archive_def)
  then show ?thesis
    using nodes_agree [OF two_copy_laws two_copy_laws sample_api_laws sample_api_laws fin fin refl
      fresh_node_inv fresh_node_inv fresh_node_blocks fresh_node_blocks second_node_run verified_node_run
      sample_on_chain l]
    by (simp add: second_node_def)
qed

section \<open>Restart\<close>

lemma height_request_answered:
  assumes "finalizer_pass pr M i g = (Ok (f, es) :: ('e, _) outcome)" and "unat (fz_last_indexed g) < 2 ^ 64 - 1"
    and "fi_block i = None" and "\<not> fi_repaired i" and "fi_event i = HeightRequest h c"
    and "h \<le> fz_last_indexed g"
  shows "f = g \<and> Wake c \<in> set es"
  using assms by (auto simp: finalizer_pass_eq repair_or_wait_eq add_ovf_Suc_u64 [OF assms(2)])

text \<open>
  C20. After a restart a node's proposals fail: the shared forkchoice starts at the genesis hash while
  the finalizer takes up its durable height, so a height request for an executed parent is answered
  at once, the payload is built on the genesis block, and the proposal on any later parent does not
  pass the verification the other nodes apply.
\<close>

theorem restart_proposal_rejected:
  assumes "builds_on_head (pv_engine env)"
    and "finalizer_pass pr M i (finalizer_new M (md_reopen M m) (initial_forkchoice gh))
           = (Ok (f, es) :: ('e, _) outcome)"
    and "unat (stored_height M (md_reopen M m)) < 2 ^ 64 - 1"
    and "fi_block i = None" and "\<not> fi_repaired i" and "fi_event i = HeightRequest (b_height p) c"
    and "b_height p \<le> stored_height M (md_reopen M m)"
    and "pv_forkchoice env = fz_forkchoice f" and "handle_proposal pr A env gh pid = Ok b"
    and "await_parent A gh pid (pv_parent env) = (Ok p :: (propose_error, _) outcome)"
    and "unat (b_height p) < 2 ^ 64 - 1" and "unat (b_timestamp p) < 2 ^ 64 - 1"
    and "eth_block_hash p \<noteq> gh"
  shows "Wake c \<in> set es \<and> handle_verify pr' b p = Ok False"
proof -
  let ?f = "finalizer_new M (md_reopen M m) (initial_forkchoice gh)"
  have last: "fz_last_indexed ?f = stored_height M (md_reopen M m)"
    "fz_forkchoice ?f = forkchoice_at gh"
    by (simp_all add: finalizer_new_def stored_height_def initial_forkchoice_def)
  have f: "f = ?f \<and> Wake c \<in> set es"
    using assms(3,7) by (intro height_request_answered [OF assms(2) _ assms(4-6)]) (simp_all add: last)
  then have "head_block_hash (pv_forkchoice env) = gh"
    by (simp add: assms(8) last(2) forkchoice_at_def)
  with own_proposal [OF assms(1,9-12), of pr'] assms(13) f show ?thesis by auto
qed

text \<open>A store in which height 1 is durable.\<close>

definition height_one_store :: two_copies where
  "height_one_store = (Map.empty, [LATEST_KEY \<mapsto> 1])"

theorem restart_proposal_rejected_witness:
  "\<exists>b. handle_proposal Debug inline_api (sample_env (forkchoice_at 13)) 13 (3, b_digest sample_block) = Ok b \<and>
       handle_verify Debug b sample_block = (Ok False :: (unit, bool) outcome)"
proof -
  let ?env = "sample_env (forkchoice_at 13)"
  have "(ucast (b_digest sample_block) :: u64) = 100"
    unfolding sample_block_def by (rule digest_timestamp)
  then have gh: "(13 :: digest) \<noteq> b_digest sample_block" by auto
  have "ucast (ucast (13 :: digest) :: u64) = (13 :: digest)" by simp
  from sample_env_proposes [OF this gh] obtain b where
    b: "handle_proposal Debug inline_api ?env 13 (3, b_digest sample_block) = Ok b" by blast
  let ?f = "finalizer_new two_copy_store (md_reopen two_copy_store height_one_store) (initial_forkchoice 13)"
  have st: "stored_height two_copy_store (md_reopen two_copy_store height_one_store) = 1"
    by (simp add: stored_height_def two_copy_store_def height_one_store_def)
  have pass: "finalizer_pass Debug two_copy_store (request_input 1 5) ?f
      = (Ok (?f, [AskBlock 2, AskRepair 2, Wake 5]) :: (unit, _) outcome)"
    by (simp add: finalizer_evals height_one_store_def add_one_evals)
  have fc: "fz_forkchoice ?f = forkchoice_at 13" by (simp add: finalizer_new_def initial_forkchoice_def)
  have "handle_verify Debug b sample_block = (Ok False :: (unit, bool) outcome)"
    by (rule conjunct2 [OF restart_proposal_rejected [OF _ pass _ _ _ _ _ _ b sample_env_parent [OF gh]]])
      (simp_all add: st fc, simp_all add: sample_env_def request_input_def eth_block_hash_def sample_block_def
        compute_digest_def sample_payload_def)
  with b show ?thesis by blast
qed

end
