(* ===== verification/Repair_Loop.thy ===== *)
theory Repair_Loop
  imports Syncer_Total
begin

text \<open>
  The finalizer's loop while the block it waits for is missing: ask for the block, ask for a repair,
  start over as long as the repair made a change. The loop ends, and if the node has seen the chain
  between the height and the next stored block, it ends with the block in place.
\<close>

section \<open>The loop\<close>

text \<open>
  One round is the finalizer's \<open>get\<close> and \<open>repair\<close>, as the syncer answers them; \<open>True\<close> when the block
  is there, \<open>False\<close> when the loop goes on to wait for a message, \<open>None\<close> when the fuel was too short.
\<close>

fun repair_rounds ::
  "profile \<Rightarrow> 'h sync_api \<Rightarrow> 'r sync_env \<Rightarrow> u64 \<Rightarrow> 'r \<Rightarrow> nat \<Rightarrow> 'h syncer
    \<Rightarrow> ('e, ('h syncer \<times> bool) option) outcome" where
  "repair_rounds pr A env next r 0 s = Ok None"
| "repair_rounds pr A env next r (Suc fuel) s =
     and_then (orchestrator_get A env next r s) (\<lambda>(s1, es1).
       if SendMaybeBlock r None \<notin> set es1 then Ok (Some (s1, True))
       else
         and_then (orchestrator_repair pr A env next r s1) (\<lambda>(s2, es2).
           if SendBool r True \<in> set es2 then repair_rounds pr A env next r fuel s2
           else Ok (Some (s2, False))))"

section \<open>The blocks a node knows\<close>

definition seen :: "'h syncer \<Rightarrow> block \<Rightarrow> bool" where
  "seen s v \<longleftrightarrow> (\<exists>i d. held (sy_verified s) i = Some (d, v)) \<or>
     (\<exists>i d n. held (sy_notarized s) i = Some (d, n) \<and> n_block n = v)"

definition known :: "'h syncer \<Rightarrow> block \<Rightarrow> bool" where
  "known s v \<longleftrightarrow> seen s v \<or> (\<exists>i d. held (sy_blocks s) i = Some (d, v))"

text \<open>
  The parent of a known block is one lower; and down to the height asked for, the node has seen the
  parent of every block it knows.
\<close>

definition chain_linked :: "'h syncer \<Rightarrow> bool" where
  "chain_linked s \<longleftrightarrow>
     (\<forall>g v. known s g \<longrightarrow> known s v \<longrightarrow> b_digest v = b_parent g \<longrightarrow> b_height v = b_height g - 1)"

definition parents_seen :: "u64 \<Rightarrow> 'h syncer \<Rightarrow> bool" where
  "parents_seen next s \<longleftrightarrow>
     (\<forall>g. known s g \<longrightarrow> next < b_height g \<longrightarrow> (\<exists>v. seen s v \<and> b_digest v = b_parent g))"

lemma chain_linked_linked:
  assumes "sync_laws A" and "sync_inv A s" and "chain_linked s"
  shows "linked s"
proof -
  have "b_height v = b_height b - 1"
    if "held (sy_blocks s) h = Some (d, b)" "b_digest v = b_parent b"
      "(\<exists>i e. held (sy_verified s) i = Some (e, v)) \<or>
       (\<exists>i e n. held (sy_notarized s) i = Some (e, n) \<and> v = n_block n)" for h d b v
    using that assms(3) unfolding chain_linked_def known_def seen_def by blast
  then show ?thesis unfolding linked_def by blast
qed

lemma find_verified_seen:
  assumes "sync_laws A" and "find_verified A msg s d = (Ok (Some b) :: ('e, _) outcome)"
  shows "seen s b"
proof -
  from assms(2) have "ar_get_key (verified_ar A) (sy_verified s) d = Some (Some b)"
    by (simp add: find_verified_def outcome_simps)
  from get_key_held [OF sync_lawsD(1) [OF assms(1)] this] show ?thesis by (auto simp: seen_def)
qed

lemma find_notarized_seen:
  assumes "sync_laws A" and "find_notarized A s d = (Ok (Some n) :: ('e, _) outcome)"
  shows "seen s (n_block n)"
proof -
  from assms(2) have "ar_get_key (notarized_ar A) (sy_notarized s) d = Some (Some n)"
    by (simp add: find_notarized_def outcome_simps)
  from get_key_held [OF sync_lawsD(2) [OF assms(1)] this] show ?thesis unfolding seen_def by blast
qed

text \<open>A block that was seen is found under its digest.\<close>

lemma seen_found:
  assumes "sync_laws A" and "sync_inv A s" and "seen s v"
    and "find_verified A msg s (b_digest v) = (Ok None :: ('e, _) outcome)"
    and "find_notarized A s (b_digest v) = (Ok None :: ('e, _) outcome)"
  shows False
proof -
  have nv: "held (sy_verified s) i \<noteq> Some (b_digest v, x)" for i x
    using assms(4) by (intro get_key_missing [OF sync_lawsD(1) [OF assms(1)]])
      (simp add: find_verified_def outcome_simps)
  have nn: "held (sy_notarized s) i \<noteq> Some (b_digest v, x)" for i x
    using assms(5) by (intro get_key_missing [OF sync_lawsD(2) [OF assms(1)]])
      (simp add: find_notarized_def outcome_simps)
  from assms(3) show False
    unfolding seen_def
  proof (elim disjE exE conjE)
    fix i d assume "held (sy_verified s) i = Some (d, v)"
    with all_heldD [OF sync_invD(1) [OF assms(2)] this] nv show False by (simp add: verified_entry_def)
  next
    fix i d n assume "held (sy_notarized s) i = Some (d, n)" "n_block n = v"
    with all_heldD [OF sync_invD(2) [OF assms(2)] this(1)] nn show False by (auto simp: notarized_entry_def)
  qed
qed

text \<open>A repair adds no block the node does not know.\<close>

lemma repair_known:
  assumes "sync_laws A"
    and "orchestrator_repair pr A env next r s = (Ok (s', es) :: ('e, 'h, 'r) sync_result)"
  shows "seen s' = seen s" and "known s' v \<Longrightarrow> known s v"
proof -
  have gap: "sy_verified s' = sy_verified s" "sy_notarized s' = sy_notarized s" "sy_blocks s' = sy_blocks s"
    if "request_gap pr env next start r s = (Ok (s', es') :: ('e, 'h, 'r) sync_result)" for start es'
    by (rule request_gap_Ok [OF that], simp)+
  from assms(2) have "seen s' = seen s \<and> (known s' v \<longrightarrow> known s v)"
  proof (cases rule: orchestrator_repair_cases)
    case (copied start g b)
    from copied(5) obtain a where put: "ar_put (blocks_ar A) (b_height b) (b_parent g) b (sy_blocks s) = Inr a"
      and s': "s' = s\<lparr>sy_blocks := a\<rparr>" by (auto simp: repair_with_Ok)
    have b: "seen s b"
      using copied(4) find_verified_seen [OF assms(1)] find_notarized_seen [OF assms(1)] by blast
    have same: "seen s' = seen s" by (simp add: s' seen_def fun_eq_iff)
    moreover have "known s v" if "known s' v"
      using that b put_held [OF sync_lawsD(4) [OF assms(1)] put]
      by (auto simp: known_def same) (auto simp: s' split: if_splits)
    ultimately show ?thesis by blast
  next
    case (asked start g es')
    from gap [OF asked(6)] show ?thesis by (simp add: seen_def known_def fun_eq_iff)
  next
    case (at_genesis start)
    from gap [OF at_genesis(3)] show ?thesis by (simp add: seen_def known_def fun_eq_iff)
  qed simp
  then show "seen s' = seen s" "known s' v \<Longrightarrow> known s v" by blast+
qed

lemma repair_keeps_links:
  assumes "sync_laws A"
    and "orchestrator_repair pr A env next r s = (Ok (s', es) :: ('e, 'h, 'r) sync_result)"
  shows "chain_linked s \<Longrightarrow> chain_linked s'" and "parents_seen next s \<Longrightarrow> parents_seen next s'"
  using repair_known [OF assms] unfolding chain_linked_def parents_seen_def by (blast, auto)

section \<open>The loop ends with the block\<close>

lemma orchestrator_get_answer:
  assumes "sync_laws A" and "reliable A" and "listening env r"
  shows "orchestrator_get A env next r s
    = (Ok (s, [SendMaybeBlock r (map_option snd (held (sy_blocks s) next))]) :: ('e, 'h, 'r) sync_result)"
proof -
  obtain g where g: "ar_get_index (blocks_ar A) (sy_blocks s) next = Some g"
    using reliable_reads(6) [OF assms(2)] by blast
  with get_index_held [OF sync_lawsD(4) [OF assms(1)] g] assms(3) show ?thesis
    by (simp add: orchestrator_get_def send_expect_def)
qed

text \<open>With a block above, the gap's end exists, and a seen parent is copied.\<close>

lemma repair_answers_true:
  assumes "sync_laws A" and "reliable A" and "sync_inv A s" and "parents_seen next s"
    and "held (sy_blocks s) next = None" and "held (sy_blocks s) upper \<noteq> None" and "next < upper" and "0 < next"
    and "orchestrator_repair pr A env next r s = (Ok (s', es) :: ('e, 'h, 'r) sync_result)"
  shows "SendBool r True \<in> set es"
  using assms(9)
proof (cases rule: orchestrator_repair_cases)
  case no_gap
  from run_start_below [OF assms(6,5,7)] next_gap_None [OF sync_lawsD(4) [OF assms(1)] no_gap(1)]
  show ?thesis by blast
next
  case (copied start g b)
  then show ?thesis by (simp add: repair_with_Ok)
next
  case (asked start g es')
  from all_held_index [OF sync_lawsD(4) [OF assms(1)] sync_invD(4) [OF assms(3)] asked(3)]
  have g: "known s g" "b_height g = start" by (auto simp: known_def block_entry_def)
  have "next < start" using next_gap_Some(1) [OF sync_lawsD(4) [OF assms(1)] asked(1)]
    by (simp add: run_start_def)
  with assms(4) g obtain v where v: "seen s v" "b_digest v = b_parent g"
    unfolding parents_seen_def by blast
  from seen_found [OF assms(1,3) v(1)] asked(4,5) v(2) show ?thesis by metis
next
  case (at_genesis start)
  with assms(8) show ?thesis by simp
qed

lemma repair_rounds_reach:
  fixes s :: "'h syncer" and r :: 'r
  assumes "sync_laws A" and "reliable A" and "listening env r" and "0 < next" and "unat next + 20 < 2 ^ 64"
    and "sync_inv A s" and "chain_linked s" and "parents_seen next s"
    and "held (sy_blocks s) upper \<noteq> None" and "next < upper" and "gap_size A next s < fuel"
  shows "\<exists>s'. repair_rounds pr A env next r fuel s = (Ok (Some (s', True)) :: ('e, _) outcome) \<and>
              held (sy_blocks s') next \<noteq> None \<and> stable s s'"
  using assms(6-11)
proof (induction fuel arbitrary: s)
  case (Suc fuel)
  note get = orchestrator_get_answer [OF assms(1-3), of "next" s, where 'e = 'e]
  show ?case
  proof (cases "held (sy_blocks s) next")
    case (Some x)
    then show ?thesis by (auto simp: get)
  next
    case None
    have "returns (orchestrator_repair pr A env next r s :: ('e, 'h, 'r) sync_result)"
      by (rule orchestrator_repair_returns [OF assms(1-3,5)])
    then obtain s2 es2 where
      rep: "orchestrator_repair pr A env next r s = (Ok (s2, es2) :: ('e, 'h, 'r) sync_result)"
      by (auto simp: returns_def)
    have t: "SendBool r True \<in> set es2"
      by (rule repair_answers_true [OF assms(1,2) Suc.prems(1,3) None Suc.prems(4,5) assms(4) rep])
    note k = orchestrator_repair_inv [OF assms(1) Suc.prems(1) rep]
    have "gap_size A next s2 < gap_size A next s"
      by (rule repair_shrinks_gap [OF assms(1) Suc.prems(1)
            chain_linked_linked [OF assms(1) Suc.prems(1,2)] None rep t])
    then have small: "gap_size A next s2 < fuel" using Suc.prems(6) by simp
    have upper: "held (sy_blocks s2) upper \<noteq> None"
      using k Suc.prems(4) by (auto simp: stable_def dest: growsD)
    note links = repair_keeps_links [OF assms(1) rep]
    from Suc.IH [OF conjunct1 [OF k] links(1) [OF Suc.prems(2)] links(2) [OF Suc.prems(3)] upper
        Suc.prems(5) small] k
    show ?thesis using t by (auto simp: get None rep intro: stable_trans)
  qed
qed simp

text \<open>
  C11. The finalizer's repair loop ends and closes the gap: with storage that works and a finalized block
  stored above the height it waits for, if known blocks are linked by consecutive heights and the parent
  of every known block above that height has been seen, more rounds than heights are missing always end with the block of that height in place, and every block stored before is kept.
\<close>

theorem repair_closes_gap:
  assumes "sync_laws A" and "reliable A" and "listening env r" and "0 < next" and "unat next + 20 < 2 ^ 64"
    and "sync_inv A s" and "chain_linked s" and "parents_seen next s"
    and "held (sy_blocks s) upper \<noteq> None" and "next < upper" and "gap_size A next s < fuel"
  shows "\<exists>s'. repair_rounds pr A env next r fuel s = (Ok (Some (s', True)) :: ('e, _) outcome) \<and>
              (\<exists>d b. held (sy_blocks s') next = Some (d, b)) \<and>
              held (sy_blocks s) \<subseteq>\<^sub>m held (sy_blocks s')"
  using repair_rounds_reach [OF assms, of pr, where 'e = 'e] by (auto simp: stable_def grows_def)

lemma sample_digests [simp]:
  "b_digest block4 \<noteq> 33" "b_digest block5 \<noteq> 33" "b_digest block5 \<noteq> b_digest block4"
proof -
  have t: "(ucast (b_digest block4) :: u64) = 400" "(ucast (b_digest block5) :: u64) = 500"
    unfolding block4_def block5_def by (rule digest_timestamp)+
  show "b_digest block4 \<noteq> 33" "b_digest block5 \<noteq> 33" "b_digest block5 \<noteq> b_digest block4"
    using t by auto
qed

lemma repairable_seen: "seen repairable_node v \<longleftrightarrow> v = block4"
  by (auto simp: seen_def gapped_node_def held_def fresh_node_def syncer_new_def empty_archive_def)

lemma repairable_known: "known repairable_node v \<longleftrightarrow> v = block4 \<or> v = block5"
  by (auto simp: known_def repairable_seen) (auto simp: gapped_node_def held_def split: if_splits)

lemma repairable_links: "chain_linked repairable_node" "parents_seen 4 repairable_node"
  using sample_digests by (auto simp: chain_linked_def parents_seen_def repairable_known repairable_seen block4_def
      [THEN arg_cong [where f = b_parent]] compute_digest_def)

lemma repairable_node_sound: "sync_inv sound_store repairable_node"
proof -
  have "wire sound_store = wire sample_api" "verify_notarization sound_store = verify_notarization sample_api"
    "verify_finalization sound_store = verify_finalization sample_api"
    by (simp_all add: sound_store_def)
  then have "verified_entry sound_store = verified_entry sample_api"
    "notarized_entry sound_store = (notarized_entry sample_api :: u64 syncer \<Rightarrow> _)"
    "finalized_entry sound_store = (finalized_entry sample_api :: u64 syncer \<Rightarrow> _)"
    "block_entry sound_store = block_entry sample_api"
    by (simp_all add: fun_eq_iff entry_defs del: sample_api_simps)
  moreover have "sync_inv sample_api repairable_node" by simp
  ultimately show ?thesis unfolding sync_inv_def by (simp only:)
qed

theorem repair_closes_gap_witness:
  "\<exists>s' d b. repair_rounds Debug sound_store quiet 4 7 2 repairable_node
       = (Ok (Some (s', True)) :: (unit, _) outcome) \<and> held (sy_blocks s') 4 = Some (d, b)"
proof -
  have held: "held (sy_blocks repairable_node) 4 = None" "held (sy_blocks repairable_node) 5 \<noteq> None"
    by (simp_all add: gapped_node_def held_def)
  have "gap_size sound_store 4 repairable_node < 2"
    by (simp add: gap_size_def held sound_store_def gapped_node_def fixed_archive_def list_archive_def
        list_archive_gap_def held_def)
  moreover have "unat (4 :: u64) + 20 < 2 ^ 64" "(4 :: u64) < 5" "(0 :: u64) < 4" by simp_all
  ultimately show ?thesis
    using repair_closes_gap [OF sound_store_ok quiet_ok(2) _ _ repairable_node_sound repairable_links held(2),
        where fuel = 2 and r = 7 and pr = Debug and 'e = unit] by auto
qed

end
