(* ===== verification/Voted_Blocks.thy ===== *)
theory Voted_Blocks
  imports Syncer_Total Application_Properties
begin

text \<open>
  Application and syncer together: a block the node voted for is there when its finalization comes.
  The application hands the block to the syncer before it votes; the syncer keeps it among the
  verified blocks until it prunes the block's view, whatever happens in between.
\<close>

section \<open>What touches the verified blocks\<close>

text \<open>The bound below which a finalization prunes.\<close>

definition pruned_to :: "'h syncer \<Rightarrow> u64" where
  "pruned_to s = saturating_sub (sy_last_view_processed s) (sy_activity_timeout s)"

lemma kept_by_prune:
  assumes "archive_laws R" and "ar_prune R m a = Some a'" and "m \<le> v"
  shows "held a' v = held a v"
  using prune_held [OF assms(1,2), of v] assms(3) by auto

lemma put_unless_pruned_keeps:
  assumes "archive_laws R" and "put_unless_pruned msg R i d x a = (Ok a' :: ('e, _) outcome)"
    and "held a v = Some e"
  shows "held a' v = Some e"
  using assms by (auto simp: put_unless_pruned_def dest!: put_held split: sum.splits put_error.splits if_splits)

lemma handle_message_verified:
  assumes "sync_laws A" and "handle_message A env m s = (Ok (s', es) :: ('e, 'h, 'r) sync_result)"
    and "pruned_to s \<le> v" and "held (sy_verified s) v = Some e"
  shows "held (sy_verified s') v = Some e"
proof (cases m)
  case (StoreVerified view b)
  with assms(2) obtain a where "put_unless_pruned ''Failed to insert verified block'' (verified_ar A) view
      (b_digest b) b (sy_verified s) = (Ok a :: ('e, _) outcome)" "s' = s\<lparr>sy_verified := a\<rparr>"
    by (auto simp: handle_store_verified_def outcome_simps)
  with put_unless_pruned_keeps [OF sync_lawsD(1) [OF assms(1)] this(1) assms(4)] show ?thesis by simp
next
  case (Finalize c)
  with assms(2) have "handle_finalize A env c s = (Ok (s', es) :: ('e, 'h, 'r) sync_result)" by simp
  then show ?thesis
  proof (cases rule: handle_finalize_cases)
    case (found b fin bl v' n)
    with kept_by_prune [OF sync_lawsD(1) [OF assms(1)] found(4)] assms(3,4) show ?thesis
      by (simp add: pruned_to_def)
  qed (use assms(4) in simp)
next
  case (Get view payload r)
  with assms(2,4) show ?thesis using handle_get_state by fastforce
qed (use assms(2,4) in \<open>auto simp: handle_broadcast_def handle_notarize_def Let_def outcome_simps split: option.splits\<close>)

lemma handle_orchestration_verified:
  assumes "handle_orchestration pr A env m s = (Ok (s', es) :: ('e, 'h, 'r) sync_result)"
  shows "sy_verified s' = sy_verified s"
proof (cases m)
  case (OrchestrationRepair n r)
  with assms have "orchestrator_repair pr A env n r s = (Ok (s', es) :: ('e, 'h, 'r) sync_result)" by simp
  then show ?thesis
  proof (cases rule: orchestrator_repair_cases)
    case (asked start g es')
    from asked(6) show ?thesis by (rule request_gap_Ok) simp
  next
    case (at_genesis start)
    from at_genesis(3) show ?thesis by (rule request_gap_Ok) simp
  qed (auto simp: repair_with_Ok)
next
  case (OrchestrationGet n r)
  with assms show ?thesis using orchestrator_get_state by fastforce
qed (use assms in \<open>auto simp: orchestrator_processed_def outcome_simps\<close>)

lemma handle_resolver_verified:
  assumes "handle_resolver A env m s = (Ok (s', es) :: ('e, 'h, 'r) sync_result)"
  shows "sy_verified s' = sy_verified s"
proof (cases m)
  case (Deliver key bs r)
  with assms have "handle_deliver A key bs r s = (Ok (s', es) :: ('e, 'h, 'r) sync_result)" by simp
  then show ?thesis
  proof (cases rule: handle_deliver_cases)
    case (n view)
    then show ?thesis by (cases rule: deliver_notarized_cases) simp_all
  next
    case (f height)
    then show ?thesis by (cases rule: deliver_finalized_cases) simp_all
  next
    case (d d)
    then show ?thesis by (cases rule: deliver_digest_cases) simp_all
  qed
next
  case (Produce key r)
  with assms show ?thesis using handle_produce_state by fastforce
qed

lemma sync_step_verified:
  assumes "sync_laws A" and "sync_step pr A env ev s = (Ok (s', es) :: ('e, 'h, 'r) sync_result)"
    and "pruned_to s \<le> v" and "held (sy_verified s) v = Some e"
  shows "held (sy_verified s') v = Some e"
proof -
  let ?s1 = "fst (cancel_stale s :: 'h syncer \<times> 'r sync_effect list)"
  have s1: "pruned_to ?s1 \<le> v" "held (sy_verified ?s1) v = Some e"
    using assms(3,4) by (simp_all add: cancel_stale_def pruned_to_def)
  from assms(2) obtain es2 where h: "handle_event pr A env ev ?s1 = (Ok (s', es2) :: ('e, 'h, 'r) sync_result)"
    by (auto simp: sync_step_Ok)
  show ?thesis
  proof (cases ev)
    case (FromMailbox m)
    with h obtain msg where "handle_message A env msg ?s1 = (Ok (s', es2) :: ('e, 'h, 'r) sync_result)"
      by (auto simp: outcome_simps)
    from handle_message_verified [OF assms(1) this s1] show ?thesis .
  next
    case (FromOrchestrator m)
    with h obtain msg where "handle_orchestration pr A env msg ?s1 = (Ok (s', es2) :: ('e, 'h, 'r) sync_result)"
      by (auto simp: outcome_simps)
    from handle_orchestration_verified [OF this] s1(2) show ?thesis by simp
  next
    case (FromHandler m)
    with h obtain msg where "handle_resolver A env msg ?s1 = (Ok (s', es2) :: ('e, 'h, 'r) sync_result)"
      by (auto simp: outcome_simps)
    from handle_resolver_verified [OF this] s1(2) show ?thesis by simp
  qed
qed

section \<open>Until the view is pruned\<close>

text \<open>Steps of the syncer, none of which may prune the view.\<close>

inductive unpruned_run :: "profile \<Rightarrow> 'h sync_api \<Rightarrow> u64 \<Rightarrow> 'h syncer \<Rightarrow> 'h syncer \<Rightarrow> bool"
  for pr :: profile and A :: "'h sync_api" and v :: u64 and s0 :: "'h syncer" where
  unpruned_start: "unpruned_run pr A v s0 s0"
| unpruned_step: "unpruned_run pr A v s0 s'"
    if "unpruned_run pr A v s0 s" and "pruned_to s \<le> v" and "env_ok A (env :: nat sync_env)" and "event_ok A s ev"
      and "sync_step pr A env ev s = (Ok (s', es) :: (unit, 'h, nat) sync_result)"

lemma unpruned_run_keeps:
  assumes "unpruned_run pr A v s0 s" and "sync_laws A" and "sync_inv A s0" and "held (sy_verified s0) v = Some e"
  shows "sync_inv A s \<and> held (sy_verified s) v = Some e"
  using assms
proof (induction rule: unpruned_run.induct)
  case (unpruned_step s env ev s' es)
  then have s: "sync_inv A s" "held (sy_verified s) v = Some e" by simp_all
  from sync_step_inv [OF unpruned_step.prems(1) s(1) unpruned_step.hyps(3,4,5)]
    sync_step_verified [OF unpruned_step.prems(1) unpruned_step.hyps(5,2) s(2)] show ?case by simp
qed simp

section \<open>Finalizing it\<close>

lemma store_verified_held:
  assumes "sync_laws A" and "sync_step pr A env (FromMailbox (Some (StoreVerified v b))) s
      = (Ok (s', es) :: ('e, 'h, 'r) sync_result)"
    and "held (sy_verified s) v = None"
    and "\<And>m. ar_put (verified_ar A) v (b_digest b) b (sy_verified s) \<noteq> Inl (AlreadyPrunedTo m)"
  shows "held (sy_verified s') v = Some (b_digest b, b)"
proof -
  from assms(2) have "put_unless_pruned ''Failed to insert verified block'' (verified_ar A) v (b_digest b) b
      (sy_verified s) = (Ok (sy_verified s') :: ('e, _) outcome)"
    by (auto simp: sync_step_Ok handle_store_verified_def cancel_stale_def outcome_simps)
  with assms(4) have "ar_put (verified_ar A) v (b_digest b) b (sy_verified s) = Inr (sy_verified s')"
    by (auto simp: put_unless_pruned_def split: sum.splits put_error.splits)
  from put_held [OF sync_lawsD(1) [OF assms(1)] this] assms(3) show ?thesis by simp
qed

text \<open>What an archive holds after a put that it takes: an entry is never replaced.\<close>

definition with_entry :: "('v, 'h) archive \<Rightarrow> u64 \<Rightarrow> digest \<Rightarrow> 'v \<Rightarrow> u64 \<rightharpoonup> digest \<times> 'v" where
  "with_entry a i d x = (if held a i = None then (held a)(i \<mapsto> (d, x)) else held a)"

definition finalized_with :: "finalization \<Rightarrow> block \<Rightarrow> 'h syncer \<Rightarrow> 'h syncer \<Rightarrow> bool" where
  "finalized_with c b s s' \<longleftrightarrow>
     held (sy_blocks s') = with_entry (sy_blocks s) (b_height b) (c_payload c) b \<and>
     held (sy_finalized s') = with_entry (sy_finalized s) (b_height b) (c_payload c) c"

lemma finalize_verified:
  assumes "sync_laws A" and "reliable A" and "sync_inv A s" and "env_ok A env"
    and "held (sy_verified s) v = Some (c_payload c, b)"
  shows "\<exists>s' (b' :: block). handle_finalize A env c s = (Ok (s', [NotifyFinalizer]) :: ('e, 'h, 'r) sync_result) \<and>
           b_digest b' = c_payload c \<and> authentic (wire A) b' \<and> finalized_with c b' s s'"
proof -
  let ?find = "or_else (Ok (find_buffered env (c_payload c)))
        (or_else (find_verified A ''Failed to get verified block'' s (c_payload c))
           (and_then (find_notarized A s (c_payload c)) (\<lambda>n. Ok (map_option n_block n)))) :: ('e, _) outcome"
  note reads = reliable_reads [OF assms(2)]
  have "ar_get_key (verified_ar A) (sy_verified s) (c_payload c) \<noteq> Some None"
    using get_key_missing [OF sync_lawsD(1) [OF assms(1)]] assms(5) by blast
  then obtain b0 where "ar_get_key (verified_ar A) (sy_verified s) (c_payload c) = Some (Some b0)"
    using reads(1) by (metis not_None_eq)
  then have "find_verified A ''Failed to get verified block'' s (c_payload c) = (Ok (Some b0) :: ('e, _) outcome)"
    by (simp add: find_verified_def)
  then obtain b' where found: "?find = Ok (Some b')" by (cases "find_buffered env (c_payload c)") simp_all
  then have b': "b_digest b' = c_payload c \<and> authentic (wire A) b'" using finalize_source_ok [OF assms(1,3,4)] by blast
  obtain fin where fin: "ar_put (finalized_ar A) (b_height b') (c_payload c) c (sy_finalized s) = Inr fin"
    using reads(11) by blast
  obtain bl where bl: "ar_put (blocks_ar A) (b_height b') (c_payload c) b' (sy_blocks s) = Inr bl"
    using reads(12) by blast
  obtain va na where "ar_prune (verified_ar A) (pruned_to s) (sy_verified s) = Some va"
    "ar_prune (notarized_ar A) (pruned_to s) (sy_notarized s) = Some na"
    using reads(7,8) by (metis not_None_eq)
  with found fin bl have "handle_finalize A env c s =
      (Ok (s\<lparr>sy_finalized := fin, sy_blocks := bl, sy_verified := va, sy_notarized := na,
             sy_latest_view := c_view c\<rparr>, [NotifyFinalizer]) :: ('e, 'h, 'r) sync_result)"
    by (simp add: handle_finalize_def Let_def pruned_to_def)
  moreover have "finalized_with c b' s (s\<lparr>sy_finalized := fin, sy_blocks := bl, sy_verified := va,
      sy_notarized := na, sy_latest_view := c_view c\<rparr>)"
    using put_held [OF sync_lawsD(4) [OF assms(1)] bl] put_held [OF sync_lawsD(3) [OF assms(1)] fin]
    by (simp add: finalized_with_def with_entry_def)
  ultimately show ?thesis using b' by blast
qed

text \<open>
  C16. A block the node voted for is there when its finalization comes: the vote goes out after the block
  was handed over, and once the syncer has stored it as the first of its view, then after any steps
  that do not prune the view a finalization of it stores the block of that digest under its height at
  once, and the certificate with it, unless something is stored at that height already, which then
  stays; no other height changes, the finalizer is told, and nothing is asked of the network.
\<close>

theorem voted_block_finalizes:
  assumes "sync_laws A" and "reliable A" and "sync_inv A s" and "env_ok A env" and "env_ok A env'"
    and "run_verify pr (wire A) gh t answers = (Ok app :: (unit, 'q app_effect list) outcome)"
    and "RespondVerdict (vt_response t) True \<in> set app" and "StoreValid (vt_view t) b \<in> set app"
    and "authentic (wire A) b" and "held (sy_verified s) (vt_view t) = None"
    and "\<And>m. ar_put (verified_ar A) (vt_view t) (b_digest b) b (sy_verified s) \<noteq> Inl (AlreadyPrunedTo m)"
    and "sync_step pr A env (FromMailbox (Some (StoreVerified (vt_view t) b))) s
           = (Ok (s1, es1) :: (unit, 'h, nat) sync_result)"
    and "unpruned_run pr A (vt_view t) s1 s2" and "c_payload c = b_digest b"
  shows "\<exists>s3 es (b' :: block). sync_step pr A env' (FromMailbox (Some (Finalize c))) s2
           = (Ok (s3, es) :: (unit, 'h, nat) sync_result) \<and>
         NotifyFinalizer \<in> set es \<and> (\<forall>k. Fetch k \<notin> set es) \<and>
         b_digest b' = b_digest b \<and> authentic (wire A) b' \<and> finalized_with c b' s2 s3"
proof -
  have "event_ok A s (FromMailbox (Some (StoreVerified (vt_view t) b)))" using assms(9) by simp
  from sync_step_inv [OF assms(1,3,4) this assms(12)] have "sync_inv A s1" by simp
  from unpruned_run_keeps [OF assms(13,1) this store_verified_held [OF assms(1,12,10,11)]]
  have s2: "sync_inv A s2" "held (sy_verified s2) (vt_view t) = Some (c_payload c, b)" by (simp_all add: assms(14))
  obtain s2' es0 where cs: "cancel_stale s2 = (s2', es0 :: nat sync_effect list)"
    by (cases "cancel_stale s2 :: _ \<times> nat sync_effect list")
  then have s2': "held (sy_verified s2') (vt_view t) = Some (c_payload c, b)" "\<forall>k. Fetch k \<notin> set es0"
    using s2(2) by (auto simp: cancel_stale_def)
  have "sync_inv A s2'" using cancel_stale_inv [OF s2(1) cs] by simp
  from finalize_verified [OF assms(1,2) this assms(5) s2'(1)] obtain s3 and b' :: block where
    fin: "handle_finalize A env' c s2' = (Ok (s3, [NotifyFinalizer]) :: (unit, 'h, nat) sync_result)"
    "b_digest b' = c_payload c" "authentic (wire A) b'" "finalized_with c b' s2' s3" by blast
  have "finalized_with c b' s2 s3" using fin(4) cs by (auto simp: finalized_with_def cancel_stale_def)
  moreover have "sync_step pr A env' (FromMailbox (Some (Finalize c))) s2
      = (Ok (s3, es0 @ [NotifyFinalizer]) :: (unit, 'h, nat) sync_result)" using fin(1) cs by (simp add: sync_step_def)
  moreover have "NotifyFinalizer \<in> set (es0 @ [NotifyFinalizer])" "\<forall>k. Fetch k \<notin> set (es0 @ [NotifyFinalizer])"
    using s2'(2) by simp_all
  ultimately show ?thesis using fin(2,3) unfolding assms(14) by blast
qed

text \<open>The sample block, voted for in view 4; before its finalization the syncer is asked for the block.\<close>

definition sample_task :: "nat verify_task" where
  "sample_task = \<lparr>vt_view = 4, vt_parent = (0, 7), vt_payload = b_digest sample_block, vt_response = 1\<rparr>"

definition node_with_verified :: "u64 syncer" where
  "node_with_verified = fresh_node
     \<lparr>sy_verified := \<lparr>ar_entries = [(4, b_digest sample_block, sample_block)], ar_hidden = 0\<rparr>\<rparr>"

lemma fresh_node_stores:
  "sync_step Debug sound_store quiet (FromMailbox (Some (StoreVerified 4 sample_block))) fresh_node
     = (Ok (node_with_verified, []) :: (unit, u64, nat) sync_result)"
  by (simp add: sync_step_def cancel_stale_def handle_store_verified_def sound_store_def node_simps
      node_with_verified_def put_unless_pruned_def)

theorem voted_block_finalizes_witness:
  "\<exists>s3 es (b' :: block). sync_step Debug sound_store quiet (FromMailbox (Some (Finalize sample_cert))) node_with_verified
       = (Ok (s3, es) :: (unit, u64, nat) sync_result) \<and>
     NotifyFinalizer \<in> set es \<and> b_digest b' = b_digest sample_block \<and>
     held (sy_blocks s3) (b_height b') = Some (b_digest sample_block, b')"
proof -
  have wire: "wire sound_store = inline_api" by (simp add: sound_store_def)
  have task: "vt_view sample_task = 4" "vt_response sample_task = 1" by (simp_all add: sample_task_def)
  have run: "run_verify Debug (wire sound_store) 7 sample_task (Some (None, Some sample_block))
      = (Ok [StoreValid 4 sample_block, RespondVerdict (1 :: nat) True] :: (unit, _) outcome)"
    unfolding wire sample_task_def by (rule sample_task_run)
  have inv: "sync_inv sound_store fresh_node"
    by (simp add: sync_inv_def fresh_node_def syncer_new_def)
  have none: "held (sy_verified fresh_node) 4 = None" by (simp add: node_simps)
  have put: "ar_put (verified_ar sound_store) 4 (b_digest sample_block) sample_block (sy_verified fresh_node)
      \<noteq> Inl (AlreadyPrunedTo m)" for m
    by (simp add: sound_store_def node_simps)
  have auth: "authentic (wire sound_store) sample_block" unfolding wire by simp
  note p = voted_block_finalizes [of sound_store fresh_node quiet quiet Debug 7 sample_task
      "Some (None, Some sample_block)" "[StoreValid 4 sample_block, RespondVerdict 1 True]" sample_block
      node_with_verified "[]" node_with_verified sample_cert, unfolded task,
      OF sound_store_ok inv quiet_ok(1) quiet_ok(1) run _ _ auth none put fresh_node_stores unpruned_start]
  have empty: "sy_blocks node_with_verified = empty_archive" by (simp add: node_with_verified_def node_simps)
  from p show ?thesis by (simp add: finalized_with_def with_entry_def empty) fastforce
qed

end
