(* ===== verification/Genesis_File.thy ===== *)
theory Genesis_File
  imports Validator_Registry "HOL-Library.Product_Lexorder" "HOL-Library.Multiset"
begin

text \<open>
  \<open>types/src/genesis.rs\<close>: the network's configuration as it is loaded from the genesis file, the
  validators it lists, and the committee the node derives from them. Hexadecimal, the key codec and
  the parser of socket addresses are third-party code: a key is of any linearly ordered type, an
  address too.
\<close>

section \<open>Data\<close>

record validator =
  vd_public_key :: string
  vd_ip_address :: string

record genesis_file =
  gn_validators :: "validator list"
  gn_eth_genesis_hash :: string
  gn_leader_timeout_ms :: u64
  gn_notarization_timeout_ms :: u64
  gn_nullify_timeout_ms :: u64
  gn_activity_timeout_views :: u64
  gn_skip_timeout_views :: u64
  gn_max_message_size_bytes :: u64
  gn_namespace :: string
  gn_identity :: string

text \<open>\<open>from_hex_formatted\<close>, \<open>hex\<close>, \<open>PublicKey::decode\<close> and \<open>str::parse::<SocketAddr>\<close>.\<close>

record ('k, 'a) text_api =
  from_hex_formatted :: "string \<Rightarrow> bytes option"
  to_hex :: "bytes \<Rightarrow> string"
  decode_key :: "bytes \<Rightarrow> 'k option"
  key_bytes :: "'k \<Rightarrow> bytes"
  parse_address :: "string \<Rightarrow> 'a option"

definition text_laws :: "('k, 'a) text_api \<Rightarrow> bool" where
  "text_laws P \<longleftrightarrow>
     (\<forall>bs. from_hex_formatted P (to_hex P bs) = Some bs) \<and>
     (\<forall>k. decode_key P (key_bytes P k) = Some k)"

section \<open>Operations\<close>

text \<open>\<open>TryInto<(PublicKey, SocketAddr)> for &Validator\<close>.\<close>

definition validator_try_into ::
  "('k, 'a) text_api \<Rightarrow> validator \<Rightarrow> (string, 'k \<times> 'a) outcome" where
  "validator_try_into P v =
     and_then (ok_or ''PublicKey bad format'' (from_hex_formatted P (vd_public_key v))) (\<lambda>pub_key_bytes.
     and_then (ok_or ''Unable to decode Public Key'' (decode_key P pub_key_bytes)) (\<lambda>k.
     and_then (ok_or ''Invalid ip address'' (parse_address P (vd_ip_address v))) (\<lambda>a.
       Ok (k, a))))"

text \<open>What the boxed error of \<open>get_validator_addresses\<close> can hold.\<close>

datatype genesis_error = InvalidHex | InvalidKey | InvalidAddress

fun validator_addresses ::
  "('k, 'a) text_api \<Rightarrow> validator list \<Rightarrow> ('k \<times> 'a) list \<Rightarrow> (genesis_error, ('k \<times> 'a) list) outcome" where
  "validator_addresses P [] validators = Ok validators"
| "validator_addresses P (v # vs) validators =
     and_then (ok_or InvalidHex (from_hex_formatted P (vd_public_key v))) (\<lambda>public_key_bytes.
     and_then (ok_or InvalidKey (decode_key P public_key_bytes)) (\<lambda>pub_key.
     and_then (ok_or InvalidAddress (parse_address P (vd_ip_address v))) (\<lambda>socket_addr.
       validator_addresses P vs (validators @ [(pub_key, socket_addr)]))))"

definition get_validator_addresses ::
  "('k, 'a) text_api \<Rightarrow> genesis_file \<Rightarrow> (genesis_error, ('k \<times> 'a) list) outcome" where
  "get_validator_addresses P g = validator_addresses P (gn_validators g) []"

text \<open>The loop of \<open>ip_of\<close>: entries that do not parse are passed over.\<close>

fun ip_lookup :: "('k, 'a) text_api \<Rightarrow> 'k \<Rightarrow> validator list \<Rightarrow> 'a option" where
  "ip_lookup P target [] = None"
| "ip_lookup P target (v # vs) =
     (case from_hex_formatted P (vd_public_key v) of
        None \<Rightarrow> ip_lookup P target vs
      | Some public_key_bytes \<Rightarrow>
          (case decode_key P public_key_bytes of
             None \<Rightarrow> ip_lookup P target vs
           | Some pub_key \<Rightarrow>
               if pub_key = target then
                 (case parse_address P (vd_ip_address v) of
                    None \<Rightarrow> ip_lookup P target vs
                  | Some socket_addr \<Rightarrow> Some socket_addr)
               else ip_lookup P target vs))"

definition ip_of :: "('k, 'a) text_api \<Rightarrow> genesis_file \<Rightarrow> 'k \<Rightarrow> 'a option" where
  "ip_of P g target = ip_lookup P target (gn_validators g)"

definition validator_count :: "genesis_file \<Rightarrow> nat" where
  "validator_count g = length (gn_validators g)"

text \<open>
  The committee of \<open>run_node\<close>: every validator must convert, and the pairs of key and address are
  sorted, keys first.
\<close>

fun collect_committee :: "('k, 'a) text_api \<Rightarrow> validator list \<Rightarrow> ('e, ('k \<times> 'a) list) outcome" where
  "collect_committee P [] = Ok []"
| "collect_committee P (v # vs) =
     (case validator_try_into P v of
        Ok p \<Rightarrow> and_then (collect_committee P vs) (\<lambda>ps. Ok (p # ps))
      | Err e \<Rightarrow> Panic (ExpectFailed ''Invalid validator in genesis'')
      | Panic p \<Rightarrow> Panic p)"

definition load_committee ::
  "('k :: linorder, 'a :: linorder) text_api \<Rightarrow> genesis_file \<Rightarrow> ('e, ('k \<times> 'a) list) outcome" where
  "load_committee P g = and_then (collect_committee P (gn_validators g)) (\<lambda>ps. Ok (sort ps))"

text \<open>The node's own entry: \<open>find_map\<close> over the sorted committee.\<close>

fun find_address :: "'k \<Rightarrow> ('k \<times> 'a) list \<Rightarrow> 'a option" where
  "find_address k [] = None"
| "find_address k ((k', a) # ps) = (if k' = k then Some a else find_address k ps)"

section \<open>Entries that parse\<close>

definition parsed :: "('k, 'a) text_api \<Rightarrow> validator \<Rightarrow> ('k \<times> 'a) option" where
  "parsed P v =
     Option.bind (from_hex_formatted P (vd_public_key v)) (\<lambda>bs.
     Option.bind (decode_key P bs) (\<lambda>k.
     Option.bind (parse_address P (vd_ip_address v)) (\<lambda>a. Some (k, a))))"

lemma try_into_parsed: "validator_try_into P v = Ok p \<longleftrightarrow> parsed P v = Some p"
  by (auto simp: validator_try_into_def parsed_def bind_eq_Some_conv outcome_simps)

lemma validator_addresses_Ok:
  "validator_addresses P vs acc = Ok ps \<longleftrightarrow>
     (\<exists>qs. ps = acc @ qs \<and> map (parsed P) vs = map Some qs)"
proof (induction vs arbitrary: acc)
  case (Cons v vs)
  show ?case
  proof (cases "parsed P v")
    case None
    then have "validator_addresses P (v # vs) acc \<noteq> Ok ps"
      by (auto simp: parsed_def bind_eq_None_conv outcome_simps)
    with None show ?thesis by (auto simp: Cons_eq_map_conv)
  next
    case (Some q)
    then have "validator_addresses P (v # vs) acc = validator_addresses P vs (acc @ [q])"
      by (auto simp: parsed_def bind_eq_Some_conv)
    with Some Cons.IH [of "acc @ [q]"] show ?thesis by (auto simp: Cons_eq_map_conv)
  qed
qed auto

lemma collect_committee_Ok:
  "collect_committee P vs = Ok ps \<longleftrightarrow> map (parsed P) vs = map Some ps"
proof (induction vs arbitrary: ps)
  case (Cons v vs)
  show ?case
  proof (cases "validator_try_into P v")
    case (Ok p)
    then have "parsed P v = Some p" by (simp add: try_into_parsed)
    with Ok Cons.IH show ?thesis by (auto simp: outcome_simps Cons_eq_map_conv)
  next
    case (Err e)
    then have "parsed P v = None" using try_into_parsed [of P v] by (cases "parsed P v") auto
    with Err show ?thesis by (auto simp: Cons_eq_map_conv)
  next
    case (Panic p)
    then have "parsed P v = None" using try_into_parsed [of P v] by (cases "parsed P v") auto
    with Panic show ?thesis by (auto simp: Cons_eq_map_conv)
  qed
qed auto

lemma find_address_map_of: "find_address k ps = map_of ps k"
  by (induction ps) auto

lemma ip_lookup_parsed: "map (parsed P) vs = map Some ps \<Longrightarrow> ip_lookup P k vs = map_of ps k"
proof (induction vs arbitrary: ps)
  case (Cons v vs)
  then obtain k' a qs where "ps = (k', a) # qs" "parsed P v = Some (k', a)" "map (parsed P) vs = map Some qs"
    by (auto simp: Cons_eq_map_conv)
  note q = this
  from q(2) obtain bs where "from_hex_formatted P (vd_public_key v) = Some bs" "decode_key P bs = Some k'"
    "parse_address P (vd_ip_address v) = Some a" by (auto simp: parsed_def bind_eq_Some_conv)
  with q(1) Cons.IH [OF q(3)] show ?case by simp
qed simp

end
