(* ===== verification/Key_Files.thy ===== *)
theory Key_Files
  imports Genesis_File
begin

text \<open>
  \<open>node/src/utils.rs\<close> and \<open>keys.rs\<close>: paths as the command line gives them, with the home directory
  put in for a leading \<open>~\<close>, and the key file they name. The disk is a map from paths to contents that
  says where it takes a write; the key codecs are third-party code.
\<close>

section \<open>Paths\<close>

text \<open>
  \<open>PathBuf\<close> as its methods see it: the components, the root as \<open>/\<close>, with empty components and
  single dots left out, except for a leading dot.
\<close>

type_synonym path = "string list"

fun split_slash :: "string \<Rightarrow> string list" where
  "split_slash [] = [[]]"
| "split_slash (c # cs) =
     (if c = CHR ''/'' then [] # split_slash cs
      else case split_slash cs of [] \<Rightarrow> [[c]] | p # ps \<Rightarrow> (c # p) # ps)"

definition path_components :: "string \<Rightarrow> path" where
  "path_components s =
     (let parts = split_slash s;
          front = (if take 1 s = ''/'' then [''/''] else if hd parts = ''.'' then [''.''] else [])
      in front @ filter (\<lambda>p. p \<noteq> [] \<and> p \<noteq> ''.'') parts)"

definition get_expanded_path :: "path option \<Rightarrow> string \<Rightarrow> (string, path) outcome" where
  "get_expanded_path home path =
     (let path_buf = path_components path in
      if take 1 path_buf = [''~''] then
        and_then (ok_or ''Unable to find a home directory to use with path'' home) (\<lambda>home_dir.
          if path_buf = [''~''] then Ok home_dir else Ok (home_dir @ drop 1 path_buf))
      else Ok path_buf)"

text \<open>\<open>Result::expect\<close> and \<open>unwrap\<close>.\<close>

fun expect_result :: "string \<Rightarrow> ('e, 'a) outcome \<Rightarrow> ('f, 'a) outcome" where
  "expect_result msg (Ok x) = Ok x"
| "expect_result msg (Err e) = Panic (ExpectFailed msg)"
| "expect_result msg (Panic p) = Panic p"

lemma expect_result_Ok [outcome_simps]: "expect_result msg m = Ok x \<longleftrightarrow> m = Ok x"
  by (cases m) auto

declare expect_result.simps [outcome_simps]

section \<open>Key files\<close>

text \<open>\<open>PrivateKey\<close>: its codec, its public key and its text.\<close>

record ('s, 'k) private_api =
  decode_private :: "bytes \<Rightarrow> 's option"
  public_of :: "'s \<Rightarrow> 'k"
  private_bytes :: "'s \<Rightarrow> bytes"
  private_text :: "'s \<Rightarrow> string"

text \<open>
  The host the node runs on: the home directory, if any, the files, by absolute path or from the
  working directory on (a leading dot names the working directory itself), and where it lets the
  program create directories and write files. Directories are not part of the state.
\<close>

record host =
  h_home :: "path option"
  h_files :: "path \<rightharpoonup> string"
  h_creatable :: "path \<Rightarrow> bool"
  h_writable :: "path \<Rightarrow> bool"

definition file_at :: "path \<Rightarrow> path" where
  "file_at p = (if take 1 p = [''.''] then drop 1 p else p)"

definition read_to_string :: "host \<Rightarrow> path \<Rightarrow> (string, string) outcome" where
  "read_to_string h p = ok_or ''io'' (h_files h (file_at p))"

text \<open>\<open>fs::create_dir_all\<close> and \<open>fs::write\<close>.\<close>

definition create_dir_all :: "host \<Rightarrow> path \<Rightarrow> (string, unit) outcome" where
  "create_dir_all h p = (if h_creatable h (file_at p) then Ok () else Err ''io'')"

definition write_file :: "host \<Rightarrow> path \<Rightarrow> string \<Rightarrow> (string, host) outcome" where
  "write_file h p s =
     (if h_writable h (file_at p) then Ok (h\<lparr>h_files := (h_files h)(file_at p \<mapsto> s)\<rparr>) else Err ''io'')"

lemma create_dir_all_Ok [outcome_simps]: "create_dir_all h p = Ok u \<longleftrightarrow> h_creatable h (file_at p)"
  by (simp add: create_dir_all_def)

lemma write_file_Ok [outcome_simps]:
  "write_file h p s = Ok h' \<longleftrightarrow>
     h_writable h (file_at p) \<and> h' = h\<lparr>h_files := (h_files h)(file_at p \<mapsto> s)\<rparr>"
  by (auto simp: write_file_def)

definition read_ed_key_from_path ::
  "('k, 'a) text_api \<Rightarrow> ('s, 'k) private_api \<Rightarrow> host \<Rightarrow> string \<Rightarrow> (string, 's) outcome" where
  "read_ed_key_from_path P K h key_path =
     and_then (get_expanded_path (h_home h) key_path) (\<lambda>path.
     and_then (read_to_string h path) (\<lambda>encoded_pk.
     and_then (ok_or ''Invalid pk format'' (from_hex_formatted P encoded_pk)) (\<lambda>key.
     and_then (ok_or ''Unable to decode key'' (decode_private K key)) (\<lambda>pk. Ok pk))))"

text \<open>\<open>Path::parent\<close>: none for the empty path and for the root.\<close>

definition path_parent :: "path \<Rightarrow> path option" where
  "path_parent p = (if p = [] \<or> p = [''/''] then None else Some (butlast p))"

text \<open>The new key comes from the random number generator; its public key is printed.\<close>

definition generate_keys ::
  "('s, 'k) private_api \<Rightarrow> string \<Rightarrow> 's \<Rightarrow> host \<Rightarrow> ('e, host \<times> 'k) outcome" where
  "generate_keys K key_path private_key h =
     and_then (expect_result ''invalid path'' (get_expanded_path (h_home h) key_path)) (\<lambda>path.
     and_then (expect_some ''Invalide file path'' (path_parent path)) (\<lambda>dir.
     and_then (expect_result ''Unable to create file path to generate key'' (create_dir_all h dir)) (\<lambda>_.
     and_then (expect_result ''Unable to write private key to disk''
                 (write_file h path (private_text K private_key))) (\<lambda>h'.
       Ok (h', public_of K private_key)))))"

definition show_key ::
  "('k, 'a) text_api \<Rightarrow> ('s, 'k) private_api \<Rightarrow> string \<Rightarrow> host \<Rightarrow> ('e, 'k) outcome" where
  "show_key P K key_path h =
     and_then (expect_result ''Unable to read private key from disk'' (read_ed_key_from_path P K h key_path))
       (\<lambda>pk. Ok (public_of K pk))"

datatype key_command = ShowKey | GenerateKeys

text \<open>\<open>KeySubCmd::exec\<close>: the host afterwards and the public key printed.\<close>

fun key_command_exec ::
  "('k, 'a) text_api \<Rightarrow> ('s, 'k) private_api \<Rightarrow> 's \<Rightarrow> key_command \<Rightarrow> string \<Rightarrow> host \<Rightarrow> ('e, host \<times> 'k) outcome"
  where
  "key_command_exec P K fresh ShowKey key_path h = and_then (show_key P K key_path h) (\<lambda>k. Ok (h, k))"
| "key_command_exec P K fresh GenerateKeys key_path h = generate_keys K key_path fresh h"

definition private_laws :: "('k, 'a) text_api \<Rightarrow> ('s, 'k) private_api \<Rightarrow> bool" where
  "private_laws P K \<longleftrightarrow>
     text_laws P \<and> (\<forall>s. decode_private K (private_bytes K s) = Some s) \<and>
     (\<forall>s. private_text K s = to_hex P (private_bytes K s))"

section \<open>Facts about paths\<close>

lemma split_slash_not_Nil [simp]: "split_slash s \<noteq> []"
  by (induction s) (auto split: list.splits)

lemma split_slash_no_slash: "p \<in> set (split_slash s) \<Longrightarrow> CHR ''/'' \<notin> set p"
  by (induction s arbitrary: p) (fastforce split: list.splits if_splits)+

lemma expanded_home:
  "path_components s = ''~'' # rel \<Longrightarrow> get_expanded_path (Some home) s = Ok (home @ rel)"
  by (auto simp: get_expanded_path_def Let_def)

lemma expanded_plain:
  "take 1 (path_components s) \<noteq> [''~''] \<Longrightarrow> get_expanded_path home s = Ok (path_components s)"
  by (simp add: get_expanded_path_def Let_def)

section \<open>Reading back a generated key\<close>

lemma written_key_reads:
  assumes "private_laws P K" and "get_expanded_path (h_home h) key_path = Ok path"
    and "h_files h (file_at path) = Some (to_hex P (private_bytes K s))"
  shows "read_ed_key_from_path P K h key_path = Ok s"
  using assms by (simp add: read_ed_key_from_path_def read_to_string_def private_laws_def text_laws_def)

text \<open>
  Where the host lets it, a generated key is the one the node reads afterwards and prints, and
  generating does not fail on an existing file: whatever was stored under the path is replaced, and
  nothing else is touched.
\<close>

lemma generated_key_replaces:
  assumes "private_laws P K" and "get_expanded_path (h_home h) key_path = Ok path" and "path_parent path = Some dir"
    and "h_creatable h (file_at dir)" and "h_writable h (file_at path)"
  shows "\<exists>h'. key_command_exec P K fresh GenerateKeys key_path h
                = (Ok (h', public_of K fresh) :: ('e, _) outcome) \<and>
              read_ed_key_from_path P K h' key_path = Ok fresh \<and>
              (\<forall>shown. key_command_exec P K shown ShowKey key_path h'
                 = (Ok (h', public_of K fresh) :: ('e, _) outcome)) \<and>
              (\<forall>p. p \<noteq> file_at path \<longrightarrow> h_files h' p = h_files h p)"
proof -
  let ?h = "h\<lparr>h_files := (h_files h)(file_at path \<mapsto> private_text K fresh)\<rparr>"
  have r: "read_ed_key_from_path P K ?h key_path = Ok fresh"
    using assms(1,2) by (intro written_key_reads [of P K ?h key_path path]) (simp_all add: private_laws_def)
  have "generate_keys K key_path fresh h = (Ok (?h, public_of K fresh) :: ('e, _) outcome)"
    using assms by (simp add: generate_keys_def create_dir_all_def write_file_def outcome_simps)
  moreover have "show_key P K key_path ?h = (Ok (public_of K fresh) :: ('e, _) outcome)"
    using r by (simp add: show_key_def)
  ultimately show ?thesis using r by (intro exI [of _ ?h]) simp
qed

text \<open>A codec that writes bytes as characters, with numbers as keys.\<close>

definition char_text :: "(u64, nat) text_api" where
  "char_text = \<lparr>from_hex_formatted = (\<lambda>s. Some (map (word_of_nat \<circ> of_char) s)),
                to_hex = map (char_of \<circ> unat),
                decode_key = (\<lambda>bs. if length bs = 8 then Some (of_be bs) else None),
                key_bytes = u64_bytes, parse_address = (\<lambda>s. if s = [] then None else Some (length s))\<rparr>"

lemma char_text_laws [simp]: "text_laws char_text"
proof -
  have "word_of_nat (of_char (char_of (unat b) :: char)) = b" for b :: byte
  proof -
    have "unat b < 256" using unsigned_less [of b] by simp
    then show ?thesis by simp
  qed
  then show ?thesis by (simp add: text_laws_def char_text_def comp_def)
qed

definition plain_keys :: "(u64, u64) private_api" where
  "plain_keys = \<lparr>decode_private = (\<lambda>bs. if length bs = 8 then Some (of_be bs) else None),
                 public_of = (\<lambda>s. s), private_bytes = u64_bytes,
                 private_text = (\<lambda>s. to_hex char_text (u64_bytes s))\<rparr>"

lemma plain_keys_laws [simp]: "private_laws char_text plain_keys"
  by (simp add: private_laws_def plain_keys_def)

end
