(* ===== verification/Node_Launch.thy ===== *)
theory Node_Launch
  imports Key_Files
begin

text \<open>
  \<open>node/src/config.rs\<close>, \<open>engine.rs\<close> and \<open>args.rs\<close>: from the command line and the files it names to
  the configuration of every part of the node. The runtime, the network and the consensus engine are
  third-party code; what is modelled is what they are configured with.
\<close>

section \<open>Configuration of the engine\<close>

definition PENDING_CHANNEL :: u32 where "PENDING_CHANNEL = 0"
definition RECOVERED_CHANNEL :: u32 where "RECOVERED_CHANNEL = 1"
definition RESOLVER_CHANNEL :: u32 where "RESOLVER_CHANNEL = 2"
definition BROADCASTER_CHANNEL :: u32 where "BROADCASTER_CHANNEL = 3"
definition BACKFILLER_CHANNEL :: u32 where "BACKFILLER_CHANNEL = 4"

text \<open>Durations are in milliseconds, quotas in cells per second.\<close>

definition FETCH_TIMEOUT :: u64 where "FETCH_TIMEOUT = 5000"
definition FETCH_CONCURRENT :: u64 where "FETCH_CONCURRENT = 4"
definition MAX_FETCH_COUNT :: u64 where "MAX_FETCH_COUNT = 16"
definition MAX_FETCH_SIZE :: u64 where "MAX_FETCH_SIZE = 512 * 1024"
definition MAILBOX_SIZE :: u64 where "MAILBOX_SIZE = 16384"
definition DEQUE_SIZE :: u64 where "DEQUE_SIZE = 10"
definition MESSAGE_BACKLOG :: u64 where "MESSAGE_BACKLOG = 16384"
definition BACKFILL_QUOTA :: u32 where "BACKFILL_QUOTA = 10"
definition FETCH_RATE_P2P :: u32 where "FETCH_RATE_P2P = 128"

record ('k, 's, 'po, 'sh) engine_config =
  ec_partition_prefix :: string
  ec_signer :: 's
  ec_participants :: "'k list"
  ec_mailbox_size :: u64
  ec_backfill_quota :: u32
  ec_deque_size :: u64
  ec_leader_timeout :: u64
  ec_notarization_timeout :: u64
  ec_nullify_retry :: u64
  ec_fetch_timeout :: u64
  ec_activity_timeout :: u64
  ec_skip_timeout :: u64
  ec_max_fetch_count :: u64
  ec_max_fetch_size :: u64
  ec_fetch_concurrent :: u64
  ec_fetch_rate_per_peer :: u32
  ec_engine_url :: string
  ec_engine_jwt :: string
  ec_namespace :: string
  ec_genesis_hash :: digest
  ec_share :: 'sh
  ec_polynomial :: 'po

text \<open>\<open>group::Share::decode\<close>, \<open>poly::Public::decode_cfg\<close> and \<open>commonware_utils::quorum\<close>.\<close>

record ('po, 'sh) threshold_api =
  decode_share :: "bytes \<Rightarrow> 'sh option"
  share_bytes :: "'sh \<Rightarrow> bytes"
  decode_polynomial :: "u32 \<Rightarrow> bytes \<Rightarrow> 'po option"
  polynomial_bytes :: "'po \<Rightarrow> bytes"
  quorum :: "u32 \<Rightarrow> u32"

text \<open>\<open>try_into\<close> from a byte vector to an array of 32 bytes.\<close>

definition array32 :: "bytes \<Rightarrow> digest option" where
  "array32 bs = (if length bs = 32 then Some (of_be bs) else None)"

definition get_engine_config ::
  "('k, 'a) text_api \<Rightarrow> ('s, 'k) private_api \<Rightarrow> ('po, 'sh) threshold_api \<Rightarrow> host
    \<Rightarrow> string \<Rightarrow> string \<Rightarrow> string \<Rightarrow> string \<Rightarrow> 'k list \<Rightarrow> string \<Rightarrow> genesis_file
    \<Rightarrow> (string, ('k, 's, 'po, 'sh) engine_config) outcome" where
  "get_engine_config P K T h engine_url engine_jwt_path key_path poly_share_path participants db_prefix g =
     and_then (map_err (\<lambda>_. ''failed to expand jwt path'') (get_expanded_path (h_home h) engine_jwt_path)) (\<lambda>jwt_path.
     and_then (map_err (\<lambda>_. ''failed to load jwt'') (read_to_string h jwt_path)) (\<lambda>engine_jwt.
     and_then (map_err (\<lambda>_. ''failed to expand share path'') (get_expanded_path (h_home h) poly_share_path)) (\<lambda>share_path.
     and_then (map_err (\<lambda>_. ''failed to load share hex'') (read_to_string h share_path)) (\<lambda>share_hex.
     and_then (expect_some ''invalid format for polynomial share'' (from_hex_formatted P share_hex)) (\<lambda>share.
     and_then (expect_some ''Could not parse share'' (decode_share T share)) (\<lambda>share.
     and_then (map_err (\<lambda>_. ''failed to load signer key'') (read_ed_key_from_path P K h key_path)) (\<lambda>signer.
     and_then (expect_some ''Could not parse polynomial'' (from_hex_formatted P (gn_identity g))) (\<lambda>polynomial.
     let threshold = quorum T (word_of_nat (length participants)) in
     and_then (expect_some ''polynomial is invalid'' (decode_polynomial T threshold polynomial)) (\<lambda>polynomial.
     and_then (expect_some ''bad eth_genesis_hash'' (from_hex_formatted P (gn_eth_genesis_hash g))) (\<lambda>hash_bytes.
     and_then (expect_some ''bad eth_genesis_hash'' (array32 hash_bytes)) (\<lambda>genesis_hash.
       Ok \<lparr>ec_partition_prefix = db_prefix, ec_signer = signer, ec_participants = participants,
           ec_mailbox_size = MAILBOX_SIZE, ec_backfill_quota = BACKFILL_QUOTA, ec_deque_size = DEQUE_SIZE,
           ec_leader_timeout = gn_leader_timeout_ms g,
           ec_notarization_timeout = gn_notarization_timeout_ms g,
           ec_nullify_retry = gn_nullify_timeout_ms g, ec_fetch_timeout = FETCH_TIMEOUT,
           ec_activity_timeout = gn_activity_timeout_views g, ec_skip_timeout = gn_skip_timeout_views g,
           ec_max_fetch_count = MAX_FETCH_COUNT, ec_max_fetch_size = MAX_FETCH_SIZE,
           ec_fetch_concurrent = FETCH_CONCURRENT,
           ec_fetch_rate_per_peer = FETCH_RATE_P2P, ec_engine_url = engine_url, ec_engine_jwt = engine_jwt,
           ec_namespace = gn_namespace g, ec_genesis_hash = genesis_hash, ec_share = share,
           ec_polynomial = polynomial\<rparr>)))))))))))"

section \<open>The engine's parts\<close>

text \<open>
  \<open>EngineClient::new\<close>, called for the application: the secret and the address must parse, by
  \<open>JwtSecret::from_hex\<close> and the parser of URLs; the HTTP transport around them is third-party code.
\<close>

record client_api =
  jwt_from_hex :: "string \<Rightarrow> bytes option"
  parse_url :: "string \<Rightarrow> string option"

record engine_client =
  cl_secret :: bytes
  cl_url :: string

definition engine_client_new :: "client_api \<Rightarrow> string \<Rightarrow> string \<Rightarrow> ('e, engine_client) outcome" where
  "engine_client_new C engine_url jwt_secret =
     and_then (expect_some ''unwrap'' (jwt_from_hex C jwt_secret)) (\<lambda>secret.
     and_then (expect_some ''unwrap'' (parse_url C engine_url)) (\<lambda>url.
       Ok \<lparr>cl_secret = secret, cl_url = url\<rparr>))"

record application_config =
  ac_mailbox_size :: u64
  ac_engine_url :: string
  ac_engine_jwt :: string
  ac_partition_prefix :: string
  ac_genesis_hash :: digest

record 'k buffer_config =
  bc_public_key :: 'k
  bc_mailbox_size :: u64
  bc_deque_size :: u64

record ('k, 'i, 'sh) syncer_config =
  sc_partition_prefix :: string
  sc_public_key :: 'k
  sc_registry :: "('k, 'i, 'sh) registry"
  sc_mailbox_size :: u64
  sc_backfill_quota :: u32
  sc_activity_timeout :: u64
  sc_namespace :: string
  sc_identity :: 'i

record ('k, 's, 'i, 'sh) simplex_config =
  xc_crypto :: 's
  xc_supervisor :: "('k, 'i, 'sh) registry"
  xc_partition :: string
  xc_mailbox_size :: u64
  xc_namespace :: string
  xc_replay_buffer :: u64
  xc_write_buffer :: u64
  xc_leader_timeout :: u64
  xc_notarization_timeout :: u64
  xc_nullify_retry :: u64
  xc_activity_timeout :: u64
  xc_skip_timeout :: u64
  xc_fetch_timeout :: u64
  xc_max_fetch_count :: u64
  xc_fetch_rate_per_peer :: u32
  xc_fetch_concurrent :: u64

record ('k, 's, 'i, 'sh) engine_parts =
  en_application :: application_config
  en_client :: engine_client
  en_buffer :: "'k buffer_config"
  en_syncer :: "('k, 'i, 'sh) syncer_config"
  en_simplex :: "('k, 's, 'i, 'sh) simplex_config"

text \<open>
  The application is made first, with its client. The registry is shared: the syncer and consensus
  hold clones of one reference.
\<close>

definition engine_new ::
  "client_api \<Rightarrow> ('s, 'k) private_api \<Rightarrow> ('po, 'i) poly_api \<Rightarrow> ('k, 's, 'po, 'sh) engine_config
    \<Rightarrow> ('e, ('k, 's, 'i, 'sh) engine_parts) outcome"
  where
  "engine_new C K Po cfg =
     (let identity = poly_public Po (ec_polynomial cfg);
          registry = registry_new Po (ec_participants cfg) (ec_polynomial cfg) (ec_share cfg)
      in and_then (engine_client_new C (ec_engine_url cfg) (ec_engine_jwt cfg)) (\<lambda>client.
         Ok \<lparr>en_application =
            \<lparr>ac_mailbox_size = ec_mailbox_size cfg, ac_engine_url = ec_engine_url cfg,
             ac_engine_jwt = ec_engine_jwt cfg, ac_partition_prefix = ec_partition_prefix cfg,
             ac_genesis_hash = ec_genesis_hash cfg\<rparr>,
          en_client = client,
          en_buffer =
            \<lparr>bc_public_key = public_of K (ec_signer cfg), bc_mailbox_size = ec_mailbox_size cfg,
             bc_deque_size = ec_deque_size cfg\<rparr>,
          en_syncer =
            \<lparr>sc_partition_prefix = ec_partition_prefix cfg, sc_public_key = public_of K (ec_signer cfg),
             sc_registry = registry, sc_mailbox_size = ec_mailbox_size cfg,
             sc_backfill_quota = ec_backfill_quota cfg, sc_activity_timeout = ec_activity_timeout cfg,
             sc_namespace = ec_namespace cfg, sc_identity = identity\<rparr>,
          en_simplex =
            \<lparr>xc_crypto = ec_signer cfg, xc_supervisor = registry,
             xc_partition = ec_partition_prefix cfg @ ''-summit'', xc_mailbox_size = ec_mailbox_size cfg,
             xc_namespace = ec_namespace cfg, xc_replay_buffer = 8 * 1024 * 1024,
             xc_write_buffer = 1024 * 1024, xc_leader_timeout = ec_leader_timeout cfg,
             xc_notarization_timeout = ec_notarization_timeout cfg,
             xc_nullify_retry = ec_nullify_retry cfg, xc_activity_timeout = ec_activity_timeout cfg,
             xc_skip_timeout = ec_skip_timeout cfg, xc_fetch_timeout = ec_fetch_timeout cfg,
             xc_max_fetch_count = ec_max_fetch_count cfg,
             xc_fetch_rate_per_peer = ec_fetch_rate_per_peer cfg,
             xc_fetch_concurrent = ec_fetch_concurrent cfg\<rparr>\<rparr>))"

section \<open>The command line\<close>

record flags =
  fl_key_path :: string
  fl_share_path :: string
  fl_store_path :: string
  fl_engine_port :: u16
  fl_engine_jwt_path :: string
  fl_port :: u16
  fl_prom_port :: u16
  fl_worker_threads :: u64
  fl_log_level :: string
  fl_db_prefix :: string
  fl_genesis_path :: string

definition DEFAULT_KEY_PATH :: string where "DEFAULT_KEY_PATH = ''~/.seismic/consensus/key.pem''"
definition DEFAULT_SHARE_PATH :: string where "DEFAULT_SHARE_PATH = ''~/.seismic/consensus/share.pem''"
definition DEFAULT_DB_FOLDER :: string where "DEFAULT_DB_FOLDER = ''~/.seismic/consensus/store''"

definition default_flags :: flags where
  "default_flags =
     \<lparr>fl_key_path = DEFAULT_KEY_PATH, fl_share_path = DEFAULT_SHARE_PATH,
      fl_store_path = DEFAULT_DB_FOLDER, fl_engine_port = 8551,
      fl_engine_jwt_path = ''~/.seismic/jwt.hex'', fl_port = 8551, fl_prom_port = 9090,
      fl_worker_threads = 4, fl_log_level = ''debug'', fl_db_prefix = ''quartz'',
      fl_genesis_path = ''./example_genesis.toml''\<rparr>"

definition engine_url_of :: "u16 \<Rightarrow> string" where
  "engine_url_of port = ''http://0.0.0.0:'' @ decimal (unat port)"

text \<open>\<open>Genesis::load_from_file\<close>; the parser of the file format is third-party code.\<close>

definition load_from_file :: "(string \<Rightarrow> genesis_file option) \<Rightarrow> host \<Rightarrow> string \<Rightarrow> (string, genesis_file) outcome"
  where
  "load_from_file parse_toml h path =
     and_then (read_to_string h (path_components path)) (\<lambda>file_string.
     and_then (ok_or ''toml'' (parse_toml file_string)) (\<lambda>g. Ok g))"

text \<open>What the network is started with.\<close>

record ('k, 'a) network_config =
  nc_public_key :: 'k
  nc_namespace :: string
  nc_listen_port :: u16
  nc_address :: 'a
  nc_max_message_size :: u64
  nc_mailbox_size :: u64
  nc_peers :: "('k \<times> 'a) list"
  nc_channels :: "(u32 \<times> u32 \<times> u64) list"

record ('k, 's, 'a, 'i, 'sh) node_launch =
  nl_network :: "('k, 'a) network_config"
  nl_engine :: "('k, 's, 'i, 'sh) engine_parts"

text \<open>Everything third-party the launch uses.\<close>

record ('k, 's, 'a, 'po, 'sh, 'i) launch_api =
  la_text :: "('k, 'a) text_api"
  la_private :: "('s, 'k) private_api"
  la_threshold :: "('po, 'sh) threshold_api"
  la_poly :: "('po, 'i) poly_api"
  la_parse_toml :: "string \<Rightarrow> genesis_file option"
  la_known_level :: "string \<Rightarrow> bool"
  la_client :: client_api

text \<open>The first half of both entry points: the genesis file, the committee, the configuration.\<close>

definition load_node ::
  "('k :: linorder, 's, 'a :: linorder, 'po, 'sh, 'i) launch_api \<Rightarrow> host \<Rightarrow> flags
    \<Rightarrow> ('e, genesis_file \<times> ('k \<times> 'a) list \<times> ('k, 's, 'po, 'sh) engine_config \<times> 'a) outcome" where
  "load_node L h fl =
     and_then (expect_result ''Can not find genesis file'' (load_from_file (la_parse_toml L) h (fl_genesis_path fl))) (\<lambda>g.
     and_then (load_committee (la_text L) g) (\<lambda>committee_list.
     let engine_url = engine_url_of (fl_engine_port fl); peers = map fst committee_list in
     and_then (expect_result ''unwrap''
                (get_engine_config (la_text L) (la_private L) (la_threshold L) h engine_url
                   (fl_engine_jwt_path fl) (fl_key_path fl) (fl_share_path fl) peers (fl_db_prefix fl) g)) (\<lambda>config.
     and_then (expect_some ''This node is not on the committee''
                (find_address (public_of (la_private L) (ec_signer config)) committee_list)) (\<lambda>our_ip.
       Ok (g, committee_list, config, our_ip)))))"

text \<open>The second half: the network with its five channels, and the engine.\<close>

definition network_of ::
  "('s, 'k) private_api \<Rightarrow> flags \<Rightarrow> genesis_file \<Rightarrow> ('k \<times> 'a) list \<Rightarrow> ('k, 's, 'po, 'sh) engine_config \<Rightarrow> 'a
    \<Rightarrow> ('k, 'a) network_config" where
  "network_of K fl g committee_list config our_ip =
     \<lparr>nc_public_key = public_of K (ec_signer config), nc_namespace = gn_namespace g,
      nc_listen_port = fl_port fl, nc_address = our_ip,
      nc_max_message_size = gn_max_message_size_bytes g, nc_mailbox_size = ec_mailbox_size config,
      nc_peers = committee_list,
      nc_channels =
        [(PENDING_CHANNEL, 128, MESSAGE_BACKLOG), (RECOVERED_CHANNEL, 128, MESSAGE_BACKLOG),
         (RESOLVER_CHANNEL, 128, MESSAGE_BACKLOG), (BROADCASTER_CHANNEL, 8, MESSAGE_BACKLOG),
         (BACKFILLER_CHANNEL, ec_backfill_quota config, MESSAGE_BACKLOG)]\<rparr>"

definition run_node_with_runtime ::
  "('k :: linorder, 's, 'a :: linorder, 'po, 'sh, 'i) launch_api \<Rightarrow> host \<Rightarrow> flags
    \<Rightarrow> ('e, ('k, 's, 'a, 'i, 'sh) node_launch) outcome" where
  "run_node_with_runtime L h fl =
     and_then (load_node L h fl) (\<lambda>(g, committee_list, config, our_ip).
     and_then (engine_new (la_client L) (la_private L) (la_poly L) config) (\<lambda>engine.
       Ok \<lparr>nl_network = network_of (la_private L) fl g committee_list config our_ip,
           nl_engine = engine\<rparr>))"

text \<open>\<open>run_node\<close> also sets up the runtime's store and the telemetry, on the port after the metrics port.\<close>

record runtime_config =
  rt_store_path :: path
  rt_worker_threads :: u64
  rt_telemetry_port :: u16

definition run_node ::
  "profile \<Rightarrow> ('k :: linorder, 's, 'a :: linorder, 'po, 'sh, 'i) launch_api \<Rightarrow> host \<Rightarrow> flags
    \<Rightarrow> ('e, runtime_config \<times> ('k, 's, 'a, 'i, 'sh) node_launch) outcome" where
  "run_node pr L h fl =
     and_then (load_node L h fl) (\<lambda>(g, committee_list, config, our_ip).
     and_then (expect_result ''Invalid store path'' (get_expanded_path (h_home h) (fl_store_path fl))) (\<lambda>store_path.
     if \<not> la_known_level L (fl_log_level fl) then Panic (ExpectFailed ''Invalid log level'')
     else
       and_then (add_ovf pr (fl_prom_port fl) 1) (\<lambda>telemetry_port.
       and_then (engine_new (la_client L) (la_private L) (la_poly L) config) (\<lambda>engine.
         Ok (\<lparr>rt_store_path = store_path, rt_worker_threads = fl_worker_threads fl,
              rt_telemetry_port = telemetry_port\<rparr>,
             \<lparr>nl_network = network_of (la_private L) fl g committee_list config our_ip,
              nl_engine = engine\<rparr>)))))"

text \<open>\<open>Command::exec\<close>: what the process does for a command.\<close>

datatype command = Run | Keys key_command

datatype ('k, 's, 'a, 'i, 'sh) process =
    NodeRunning runtime_config "('k, 's, 'a, 'i, 'sh) node_launch"
  | KeyPrinted host 'k

fun command_exec ::
  "profile \<Rightarrow> ('k :: linorder, 's, 'a :: linorder, 'po, 'sh, 'i) launch_api \<Rightarrow> 's \<Rightarrow> host \<Rightarrow> command \<Rightarrow> flags
    \<Rightarrow> ('e, ('k, 's, 'a, 'i, 'sh) process) outcome" where
  "command_exec pr L fresh h Run fl = and_then (run_node pr L h fl) (\<lambda>(rt, l). Ok (NodeRunning rt l))"
| "command_exec pr L fresh h (Keys c) fl =
     and_then (key_command_exec (la_text L) (la_private L) fresh c (fl_key_path fl) h)
       (\<lambda>(h', k). Ok (KeyPrinted h' k))"

end
