(* ===== verification/Testnet.thy ===== *)
theory Testnet
  imports Node_Launch
begin

text \<open>
  The stores a node opens (\<open>syncer/src/actor.rs\<close>, \<open>application/src/finalizer.rs\<close>) and the flags of the
  nodes of a test network, which run over one storage directory (\<open>get_node_flags\<close> of
  \<open>node/src/bin/testnet.rs\<close>; its main function is in \<open>Testnet_Main\<close>).
\<close>

section \<open>The stores of a node\<close>

definition WRITE_BUFFER :: u64 where "WRITE_BUFFER = 1024 * 1024"
definition REPLAY_BUFFER :: u64 where "REPLAY_BUFFER = 8 * 1024 * 1024"

record prunable_config =
  pc_partition :: string
  pc_items_per_section :: u64
  pc_write_buffer :: u64
  pc_replay_buffer :: u64

record immutable_config =
  ic_metadata_partition :: string
  ic_freezer_table_partition :: string
  ic_freezer_table_initial_size :: u64
  ic_freezer_table_resize_frequency :: u64
  ic_freezer_table_resize_chunk_size :: u64
  ic_freezer_journal_partition :: string
  ic_freezer_journal_target_size :: u64
  ic_ordinal_partition :: string
  ic_items_per_section :: u64
  ic_write_buffer :: u64
  ic_replay_buffer :: u64

definition verified_archive_config :: "string \<Rightarrow> prunable_config" where
  "verified_archive_config prefix =
     \<lparr>pc_partition = prefix @ ''-verified-archive'', pc_items_per_section = 1024,
      pc_write_buffer = WRITE_BUFFER, pc_replay_buffer = REPLAY_BUFFER\<rparr>"

definition notarized_archive_config :: "string \<Rightarrow> prunable_config" where
  "notarized_archive_config prefix =
     \<lparr>pc_partition = prefix @ ''-notarized-archive'', pc_items_per_section = 1024,
      pc_write_buffer = WRITE_BUFFER, pc_replay_buffer = REPLAY_BUFFER\<rparr>"

definition finalized_archive_config :: "string \<Rightarrow> immutable_config" where
  "finalized_archive_config prefix =
     \<lparr>ic_metadata_partition = prefix @ ''-finalized-metadata'',
      ic_freezer_table_partition = prefix @ ''-finalized-table'',
      ic_freezer_table_initial_size = 65536, ic_freezer_table_resize_frequency = 4,
      ic_freezer_table_resize_chunk_size = 16384,
      ic_freezer_journal_partition = prefix @ ''-finalized-journal'',
      ic_freezer_journal_target_size = 1024,
      ic_ordinal_partition = prefix @ ''-finalized-ordinal'',
      ic_items_per_section = 1024, ic_write_buffer = WRITE_BUFFER, ic_replay_buffer = REPLAY_BUFFER\<rparr>"

definition block_archive_config :: "string \<Rightarrow> immutable_config" where
  "block_archive_config prefix =
     \<lparr>ic_metadata_partition = prefix @ ''-block-metadata'',
      ic_freezer_table_partition = prefix @ ''-block-table'',
      ic_freezer_table_initial_size = 65536, ic_freezer_table_resize_frequency = 4,
      ic_freezer_table_resize_chunk_size = 16384,
      ic_freezer_journal_partition = prefix @ ''-block-journal'',
      ic_freezer_journal_target_size = 1024,
      ic_ordinal_partition = prefix @ ''-block-ordinal'',
      ic_items_per_section = 1024, ic_write_buffer = WRITE_BUFFER, ic_replay_buffer = REPLAY_BUFFER\<rparr>"

definition finalizer_partition :: "string \<Rightarrow> string" where
  "finalizer_partition db_prefix = db_prefix @ ''-finalizer_metadata''"

text \<open>Every partition a running node writes to.\<close>

definition prunable_partitions :: "prunable_config \<Rightarrow> string list" where
  "prunable_partitions c = [pc_partition c]"

definition immutable_partitions :: "immutable_config \<Rightarrow> string list" where
  "immutable_partitions c =
     [ic_metadata_partition c, ic_freezer_table_partition c, ic_freezer_journal_partition c, ic_ordinal_partition c]"

definition node_partitions :: "('k, 's, 'i, 'sh) engine_parts \<Rightarrow> string list" where
  "node_partitions en =
     (let prefix = sc_partition_prefix (en_syncer en) in
      prunable_partitions (verified_archive_config prefix) @ prunable_partitions (notarized_archive_config prefix) @
      immutable_partitions (finalized_archive_config prefix) @ immutable_partitions (block_archive_config prefix) @
      [finalizer_partition (ac_partition_prefix (en_application en)), xc_partition (en_simplex en)])"

definition store_suffixes :: "string list" where
  "store_suffixes =
     [''-verified-archive'', ''-notarized-archive'', ''-finalized-metadata'', ''-finalized-table'',
      ''-finalized-journal'', ''-finalized-ordinal'', ''-block-metadata'', ''-block-table'',
      ''-block-journal'', ''-block-ordinal'', ''-finalizer_metadata'', ''-summit'']"

lemma node_partitions_suffixes:
  "engine_new C K Po cfg = (Ok en :: ('e, _) outcome) \<Longrightarrow>
     node_partitions en = map (\<lambda>s. ec_partition_prefix cfg @ s) store_suffixes"
  by (auto simp: node_partitions_def engine_new_def Let_def outcome_simps prunable_partitions_def
      immutable_partitions_def verified_archive_config_def notarized_archive_config_def
      finalized_archive_config_def block_archive_config_def finalizer_partition_def store_suffixes_def)

lemma distinct_suffixes: "distinct store_suffixes"
  by (simp add: store_suffixes_def)

lemma suffixes_dash: "s \<in> set store_suffixes \<Longrightarrow> \<exists>t. s = CHR ''-'' # t"
  by (auto simp: store_suffixes_def)

section \<open>Nodes of the test network\<close>

definition mul_ovf :: "profile \<Rightarrow> 'w::len word \<Rightarrow> 'w word \<Rightarrow> ('e, 'w word) outcome" where
  "mul_ovf pr a b =
     (if unat a * unat b < 2 ^ LENGTH('w) \<or> pr = Release then Ok (a * b) else Panic ArithmeticOverflow)"

text \<open>The ports are computed as \<open>usize\<close> and truncated to 16 bits.\<close>

definition node_port :: "profile \<Rightarrow> u64 \<Rightarrow> u64 \<Rightarrow> ('e, u16) outcome" where
  "node_port pr base node =
     and_then (mul_ovf pr node 10) (\<lambda>offset.
     and_then (add_ovf pr base offset) (\<lambda>port. Ok (ucast port)))"

definition get_node_flags :: "profile \<Rightarrow> u64 \<Rightarrow> ('e, flags) outcome" where
  "get_node_flags pr node =
     (let path = ''testnet/node'' @ decimal (unat node) @ ''/'' in
      and_then (node_port pr 26600 node) (\<lambda>port.
      and_then (node_port pr 28600 node) (\<lambda>prom_port.
        Ok \<lparr>fl_key_path = path @ ''key.pem'', fl_share_path = path @ ''share.pem'',
            fl_store_path = path @ ''db'', fl_engine_port = 8551,
            fl_engine_jwt_path = ''testnet/jwt.hex'', fl_port = port, fl_prom_port = prom_port,
            fl_worker_threads = 2, fl_log_level = ''debug'',
            fl_db_prefix = decimal (unat node) @ ''-quarts'',
            fl_genesis_path = ''./example_genesis.toml''\<rparr>)))"

subsection \<open>Names that start with a number\<close>

text \<open>The number is what comes before the first dash.\<close>

lemma decimal_dash_inj:
  assumes "decimal m @ CHR ''-'' # t = decimal n @ CHR ''-'' # u"
  shows "m = n"
proof -
  have "takeWhile (\<lambda>c. c \<noteq> CHR ''-'') (decimal k @ CHR ''-'' # v) = decimal k" for k v
    using decimal_plain [of k] by (subst takeWhile_append2) auto
  with assms have "decimal m = decimal n" by metis
  then show ?thesis by simp
qed

subsection \<open>Ports\<close>

lemma node_port_Ok:
  fixes base n :: u64
  assumes "unat base + 10 * unat n < 65536" and "node_port pr base n = (Ok p :: ('e, _) outcome)"
  shows "unat p = unat base + 10 * unat n"
proof -
  have m: "unat n * unat (10 :: u64) < 2 ^ LENGTH(64)" using assms(1) by simp
  then have u: "unat (n * 10) = unat n * 10" by (simp add: unat_word_ariths)
  have a: "unat base + unat (n * 10) < 2 ^ LENGTH(64)" using assms(1) u by simp
  have "p = ucast (base + n * 10)"
    using assms(2) m by (simp add: node_port_def mul_ovf_def add_ovf_small [OF a])
  then have "unat p = unat (base + n * 10) mod 65536"
    by (simp add: unsigned_ucast_eq take_bit_eq_mod)
  then show ?thesis using unat_plus_small [OF a] assms(1) u by simp
qed

lemma get_node_flags_Ok:
  assumes "get_node_flags pr n = (Ok f :: ('e, _) outcome)"
  shows "node_port pr 26600 n = (Ok (fl_port f) :: ('e, _) outcome)"
    and "node_port pr 28600 n = (Ok (fl_prom_port f) :: ('e, _) outcome)"
    and "fl_db_prefix f = decimal (unat n) @ ''-quarts''"
  using assms by (auto simp: get_node_flags_def Let_def outcome_simps)

text \<open>
  The nodes of a test network of at most two hundred do not share a port: the consensus and the
  metrics ports of any two of them are four different numbers, as computed in 64 bits, none lost in
  the cast to 16.
\<close>

lemma testnet_ports_distinct:
  assumes "unat n < 200" and "unat m < 200" and "n \<noteq> m"
    and "get_node_flags pr n = (Ok f :: ('e, _) outcome)" and "get_node_flags pr' m = (Ok g :: ('e, _) outcome)"
  shows "distinct [fl_port f, fl_prom_port f, fl_port g, fl_prom_port g] \<and>
         unat (fl_port f) = 26600 + 10 * unat n \<and> unat (fl_prom_port f) = 28600 + 10 * unat n"
proof -
  note f = get_node_flags_Ok [OF assms(4)] and g = get_node_flags_Ok [OF assms(5)]
  have p: "unat (fl_port f) = 26600 + 10 * unat n" "unat (fl_prom_port f) = 28600 + 10 * unat n"
    using node_port_Ok [OF _ f(1)] node_port_Ok [OF _ f(2)] assms(1) by simp_all
  have q: "unat (fl_port g) = 26600 + 10 * unat m" "unat (fl_prom_port g) = 28600 + 10 * unat m"
    using node_port_Ok [OF _ g(1)] node_port_Ok [OF _ g(2)] assms(2) by simp_all
  have "unat n \<noteq> unat m" using assms(3) by (simp add: word_unat_eq_iff)
  then have "distinct (map unat [fl_port f, fl_prom_port f, fl_port g, fl_prom_port g])"
    using p q assms(1,2) by simp
  then show ?thesis using p by (simp only: distinct_map)
qed

lemma small_node_flags: "unat n < 1000 \<Longrightarrow> \<exists>f. get_node_flags pr n = (Ok f :: ('e, _) outcome)"
proof -
  assume n: "unat n < 1000"
  then have m: "unat n * unat (10 :: u64) < 2 ^ LENGTH(64)" by simp
  then have u: "unat (n * 10) = unat n * 10" by (simp add: unat_word_ariths)
  have "\<exists>p. node_port pr b n = (Ok p :: ('e, _) outcome)" if "unat b < 30000" for b
  proof -
    have a: "unat b + unat (n * 10) < 2 ^ LENGTH(64)" using n that u by simp
    show ?thesis using m by (simp add: node_port_def mul_ovf_def add_ovf_small [OF a])
  qed
  from this [of 26600] this [of 28600] show ?thesis
    by (auto simp: get_node_flags_def Let_def)
qed

subsection \<open>Stores\<close>

lemma load_node_prefix:
  assumes "load_node L h fl = (Ok (g, c, config, ip) :: ('e, _) outcome)"
  shows "ec_partition_prefix config = fl_db_prefix fl"
  using assms by (auto simp: load_node_def Let_def get_engine_config_def outcome_simps)

lemma launch_partitions:
  assumes "run_node_with_runtime L h fl = (Ok l :: ('e, _) outcome)"
  shows "node_partitions (nl_engine l) = map (\<lambda>s. fl_db_prefix fl @ s) store_suffixes"
  using assms
  by (auto simp: run_node_with_runtime_def and_then_eq_Ok_iff dest!: node_partitions_suffixes load_node_prefix)

end
