(* ===== verification/Dkg_Setup.thy ===== *)
theory Dkg_Setup
  imports Testnet
begin

text \<open>
  \<open>node/src/bin/dkg_testnet.rs\<close>: the program that deals a threshold key to a test network. It writes
  a key and a share for every node and the public keys into the genesis file; what makes the network
  work is that the order of the keys is the order in which a node later sorts the committee.
\<close>

section \<open>The program\<close>

definition node_dir :: "nat \<Rightarrow> string" where
  "node_dir i = ''./testnet/node'' @ decimal i"

definition node_file :: "nat \<Rightarrow> string \<Rightarrow> path" where
  "node_file i name = path_components (node_dir i) @ [name]"

text \<open>One round of the loop over the nodes: the two files and the entry in the genesis file.\<close>

definition dkg_node ::
  "('k, 'a) text_api \<Rightarrow> ('s, 'k) private_api \<Rightarrow> ('po, 'sh) threshold_api \<Rightarrow> ('k \<times> 's) list \<Rightarrow> 'sh list \<Rightarrow> nat
    \<Rightarrow> host \<times> validator list \<Rightarrow> (string, host \<times> validator list) outcome" where
  "dkg_node P K T private_keys shares i st =
     (case st of (h, validators) \<Rightarrow>
        and_then (create_dir_all h (path_components (node_dir i))) (\<lambda>_.
        and_then (nth_checked private_keys i) (\<lambda>key.
        and_then (write_file h (node_file i ''key.pem'') (to_hex P (private_bytes K (snd key)))) (\<lambda>h1.
        and_then (nth_checked shares i) (\<lambda>share.
        and_then (write_file h1 (node_file i ''share.pem'') (to_hex P (share_bytes T share))) (\<lambda>h2.
        and_then (nth_checked validators i) (\<lambda>v.
          Ok (h2, validators[i := v\<lparr>vd_public_key := to_hex P (key_bytes P (fst key))\<rparr>]))))))))"

fun dkg_nodes ::
  "('k, 'a) text_api \<Rightarrow> ('s, 'k) private_api \<Rightarrow> ('po, 'sh) threshold_api \<Rightarrow> ('k \<times> 's) list \<Rightarrow> 'sh list \<Rightarrow> nat list
    \<Rightarrow> host \<times> validator list \<Rightarrow> (string, host \<times> validator list) outcome" where
  "dkg_nodes P K T private_keys shares [] st = Ok st"
| "dkg_nodes P K T private_keys shares (i # is) st =
     and_then (dkg_node P K T private_keys shares i st) (dkg_nodes P K T private_keys shares is)"

definition GENESIS_PATH :: path where
  "GENESIS_PATH = path_components ''./example_genesis.toml''"

text \<open>
  The dealt polynomial and shares are what \<open>generate_shares\<close> returned; \<open>draw i\<close> is the \<open>i\<close>-th private
  key from the random number generator.
\<close>

definition dkg_setup ::
  "('k :: linorder, 'a) text_api \<Rightarrow> ('s :: linorder, 'k) private_api \<Rightarrow> ('po, 'sh) threshold_api
    \<Rightarrow> (string \<Rightarrow> genesis_file option) \<Rightarrow> (genesis_file \<Rightarrow> string option) \<Rightarrow> u32 \<Rightarrow> 'po \<Rightarrow> 'sh list \<Rightarrow> (nat \<Rightarrow> 's)
    \<Rightarrow> host \<Rightarrow> (string, host) outcome" where
  "dkg_setup P K T parse_toml print_toml nodes polynomial shares draw h =
     and_then (read_to_string h GENESIS_PATH) (\<lambda>genesis_content.
     and_then (ok_or ''toml'' (parse_toml genesis_content)) (\<lambda>g.
     let private_keys = sort (map (\<lambda>i. (public_of K (draw i), draw i)) [0 ..< unat nodes]) in
     if length (gn_validators g) \<noteq> unat nodes then
       Err ''Number of validators in genesis config doesn't match nodes argument''
     else
       and_then (dkg_nodes P K T private_keys shares [0 ..< unat nodes] (h, gn_validators g)) (\<lambda>(h', validators).
       and_then (ok_or ''toml''
                  (print_toml (g\<lparr>gn_identity := to_hex P (polynomial_bytes T polynomial), gn_validators := validators\<rparr>))) (\<lambda>updated_genesis.
         write_file h' GENESIS_PATH updated_genesis))))"

section \<open>The files\<close>

lemma split_slash_append:
  "CHR ''/'' \<notin> set s \<Longrightarrow> split_slash s = [s]"
  by (induction s) auto

lemma node_file_at: "file_at (node_file i name) = [''testnet'', ''node'' @ decimal i, name]"
proof -
  have "split_slash (''node'' @ decimal i) = [''node'' @ decimal i]"
    using decimal_plain [of i] by (intro split_slash_append) simp
  then have "path_components (node_dir i) = [''.'', ''testnet'', ''node'' @ decimal i]"
    by (simp add: path_components_def node_dir_def)
  then show ?thesis by (simp add: node_file_def file_at_def)
qed

lemma node_file_at_again [simp]: "file_at (file_at (node_file i name)) = file_at (node_file i name)"
  unfolding node_file_at by (simp add: file_at_def)

lemma node_files_distinct:
  "file_at (node_file i a) = file_at (node_file j b) \<longleftrightarrow> i = j \<and> a = b"
  by (auto simp: node_file_at)

text \<open>The key and share paths of \<open>get_node_flags\<close> name the same files.\<close>

lemma flags_name_node_files:
  assumes "get_node_flags pr n = (Ok f :: ('e, _) outcome)"
  shows "get_expanded_path home (fl_key_path f) = Ok (file_at (node_file (unat n) ''key.pem''))"
    and "get_expanded_path home (fl_share_path f) = Ok (file_at (node_file (unat n) ''share.pem''))"
    and "file_at (path_components (fl_genesis_path f)) = file_at GENESIS_PATH"
proof -
  have f: "fl_key_path f = ''testnet/node'' @ decimal (unat n) @ ''/key.pem''"
    "fl_share_path f = ''testnet/node'' @ decimal (unat n) @ ''/share.pem''"
    "fl_genesis_path f = ''./example_genesis.toml''"
    using assms by (auto simp: get_node_flags_def Let_def outcome_simps)
  have sp: "split_slash (s @ CHR ''/'' # t) = s # split_slash t" if "CHR ''/'' \<notin> set s" for s t
    using that by (induction s) auto
  have "CHR ''/'' \<notin> set (''node'' @ decimal (unat n))" using decimal_plain by simp
  from sp [OF this] have "split_slash (''node'' @ decimal (unat n) @ CHR ''/'' # t)
      = (''node'' @ decimal (unat n)) # split_slash t" for t by simp
  then have "path_components (''testnet/node'' @ decimal (unat n) @ ''/key.pem'')
      = [''testnet'', ''node'' @ decimal (unat n), ''key.pem'']"
    "path_components (''testnet/node'' @ decimal (unat n) @ ''/share.pem'')
      = [''testnet'', ''node'' @ decimal (unat n), ''share.pem'']"
    by (simp_all add: path_components_def)
  then show "get_expanded_path home (fl_key_path f) = Ok (file_at (node_file (unat n) ''key.pem''))"
    "get_expanded_path home (fl_share_path f) = Ok (file_at (node_file (unat n) ''share.pem''))"
    by (simp_all add: f node_file_at get_expanded_path_def)
  show "file_at (path_components (fl_genesis_path f)) = file_at GENESIS_PATH"
    by (simp add: f GENESIS_PATH_def)
qed

section \<open>The loop\<close>

lemma dkg_nodes_append:
  "dkg_nodes P K T ks shares (is @ js) st
     = and_then (dkg_nodes P K T ks shares is st) (dkg_nodes P K T ks shares js)"
  by (induction "is" arbitrary: st) (simp_all add: and_then_assoc cong: and_then_cong)

definition dealt ::
  "('k, 'a) text_api \<Rightarrow> ('s, 'k) private_api \<Rightarrow> ('po, 'sh) threshold_api \<Rightarrow> ('k \<times> 's) list \<Rightarrow> 'sh list \<Rightarrow> host
    \<Rightarrow> nat \<Rightarrow> bool" where
  "dealt P K T ks shares h i \<longleftrightarrow>
     h_files h (file_at (node_file i ''key.pem'')) = Some (to_hex P (private_bytes K (snd (ks ! i)))) \<and>
     h_files h (file_at (node_file i ''share.pem'')) = Some (to_hex P (share_bytes T (shares ! i)))"

lemma dkg_node_Ok:
  assumes "dkg_node P K T ks shares i (h, vs) = Ok (h', vs')"
  shows "i < length vs" and "dealt P K T ks shares h' i"
    and "h_home h' = h_home h \<and> h_creatable h' = h_creatable h \<and> h_writable h' = h_writable h"
    and "vs' = vs[i := (vs ! i)\<lparr>vd_public_key := to_hex P (key_bytes P (fst (ks ! i)))\<rparr>]"
    and "(\<And>name. p \<noteq> file_at (node_file i name)) \<Longrightarrow> h_files h' p = h_files h p"
  using assms by (auto simp: dkg_node_def dealt_def node_files_distinct outcome_simps)

lemma dkg_nodes_Ok:
  assumes "dkg_nodes P K T ks shares [0 ..< n] (h, vs) = Ok (h', vs')"
  shows "h_home h' = h_home h \<and> h_creatable h' = h_creatable h \<and> h_writable h' = h_writable h \<and> n \<le> length vs \<and> length vs' = length vs \<and>
     (\<forall>i < n. vs' ! i = (vs ! i)\<lparr>vd_public_key := to_hex P (key_bytes P (fst (ks ! i)))\<rparr>) \<and>
     (\<forall>i < length vs. n \<le> i \<longrightarrow> vs' ! i = vs ! i) \<and>
     (\<forall>i < n. dealt P K T ks shares h' i) \<and>
     (\<forall>p. (\<forall>i name. p \<noteq> file_at (node_file i name)) \<longrightarrow> h_files h' p = h_files h p)"
  using assms
proof (induction n arbitrary: h' vs')
  case (Suc n)
  then obtain h1 vs1 where
    1: "dkg_nodes P K T ks shares [0 ..< n] (h, vs) = Ok (h1, vs1)" and
    2: "dkg_node P K T ks shares n (h1, vs1) = Ok (h', vs')"
    by (auto simp: dkg_nodes_append outcome_simps)
  note IH = Suc.IH [OF 1] and step = dkg_node_Ok [OF 2]
  have kept: "dealt P K T ks shares h' i" if "i < n" for i
  proof -
    have "file_at (node_file i name') \<noteq> file_at (node_file n name)" for name name'
      using that by (simp add: node_files_distinct)
    from step(5) [OF this] IH that show ?thesis by (simp add: dealt_def)
  qed
  have "dealt P K T ks shares h' i" if "i < Suc n" for i
    using that kept step(2) by (cases "i = n") auto
  then show ?case using IH step by (auto simp: nth_list_update less_Suc_eq)
qed simp

section \<open>The network works\<close>

text \<open>The validators are in the order of the sorted keys, each with the address it had.\<close>

lemma dkg_validators_parse:
  assumes "text_laws P"
    and "\<And>i. i < n \<Longrightarrow> vs' ! i = (vs ! i)\<lparr>vd_public_key := to_hex P (key_bytes P (fst (ks ! i)))\<rparr>"
    and "length vs' = n" and "length vs = n" and "length ks = n"
    and "\<And>i. i < n \<Longrightarrow> parse_address P (vd_ip_address (vs ! i)) = Some (addr i)"
  shows "map (parsed P) vs' = map Some (map (\<lambda>i. (fst (ks ! i), addr i)) [0 ..< n])"
proof (rule nth_equalityI)
  fix i
  assume "i < length (map (parsed P) vs')"
  then have i: "i < n" using assms(3) by simp
  then have "parsed P (vs' ! i) = Some (fst (ks ! i), addr i)"
    using assms(1,6) unfolding assms(2) [OF i] by (simp add: parsed_def text_laws_def)
  with i assms(3) show "map (parsed P) vs' ! i
      = map Some (map (\<lambda>i. (fst (ks ! i), addr i)) [0 ..< n]) ! i" by simp
qed (simp add: assms(3))

lemma sorted_pairs:
  assumes "sorted ks" and "distinct (map fst ks)" and "length ks = n"
  shows "sorted (map (\<lambda>i. (fst ((ks :: ('k :: linorder \<times> 's :: linorder) list) ! i), addr i :: 'a :: linorder)) [0 ..< n])"
proof -
  have "fst (ks ! i) < fst (ks ! j)" if "i < j" "j < n" for i j
  proof -
    have "ks ! i \<le> ks ! j" using that assms by (intro sorted_nth_mono) simp_all
    then have "fst (ks ! i) \<le> fst (ks ! j)" by (auto simp: less_eq_prod_def)
    moreover have "fst (ks ! i) \<noteq> fst (ks ! j)"
      using that assms(2,3) nth_eq_iff_index_eq [OF assms(2), of i j] by simp
    ultimately show ?thesis by simp
  qed
  then show ?thesis by (auto simp: sorted_iff_nth_mono_less less_eq_prod_def)
qed

lemma genesis_path_at: "file_at GENESIS_PATH = [''example_genesis.toml'']"
  by code_simp

lemma dkg_setup_Ok:
  assumes "dkg_setup P K T parse_toml print_toml nodes polynomial shares draw h = Ok h'"
  obtains content g h1 vs updated where
    "h_files h (file_at GENESIS_PATH) = Some content" "parse_toml content = Some g"
    "length (gn_validators g) = unat nodes"
    "dkg_nodes P K T (sort (map (\<lambda>i. (public_of K (draw i), draw i)) [0 ..< unat nodes])) shares
       [0 ..< unat nodes] (h, gn_validators g) = Ok (h1, vs)"
    "print_toml (g\<lparr>gn_identity := to_hex P (polynomial_bytes T polynomial), gn_validators := vs\<rparr>) = Some updated"
    "h' = h1\<lparr>h_files := (h_files h1)(file_at GENESIS_PATH \<mapsto> updated)\<rparr>"
  using assms
  by (auto simp: dkg_setup_def Let_def outcome_simps read_to_string_def split: if_splits)

lemma dealt_after_genesis:
  "dealt P K T ks shares h i \<Longrightarrow>
     dealt P K T ks shares (h\<lparr>h_files := (h_files h)(file_at GENESIS_PATH \<mapsto> text)\<rparr>) i"
  by (simp add: dealt_def genesis_path_at node_file_at)

text \<open>The keys that were dealt, in the order of the committee.\<close>

definition dealt_keys :: "('s :: linorder, 'k :: linorder) private_api \<Rightarrow> nat \<Rightarrow> (nat \<Rightarrow> 's) \<Rightarrow> ('k \<times> 's) list" where
  "dealt_keys K n draw = sort (map (\<lambda>i. (public_of K (draw i), draw i)) [0 ..< n])"

lemma dealt_keys_props:
  assumes "distinct (map (public_of K \<circ> draw) [0 ..< n])"
  shows "length (dealt_keys K n draw) = n" and "sorted (dealt_keys K n draw)"
    and "distinct (map fst (dealt_keys K n draw))"
    and "i < n \<Longrightarrow> fst (dealt_keys K n draw ! i) = public_of K (snd (dealt_keys K n draw ! i))"
proof -
  show l: "length (dealt_keys K n draw) = n" "sorted (dealt_keys K n draw)"
    by (simp_all add: dealt_keys_def)
  have "mset (map fst (dealt_keys K n draw)) = mset (map (public_of K \<circ> draw) [0 ..< n])"
    by (simp add: dealt_keys_def comp_def multiset.map_comp)
  then show "distinct (map fst (dealt_keys K n draw))"
    using assms by (metis mset_eq_imp_distinct_iff)
  assume "i < n"
  then have "dealt_keys K n draw ! i \<in> set (dealt_keys K n draw)" using l by simp
  then show "fst (dealt_keys K n draw ! i) = public_of K (snd (dealt_keys K n draw ! i))"
    by (auto simp: dealt_keys_def)
qed

text \<open>
  C21. A dealt network works: from the files the program wrote, every node of the test network loads a
  committee whose order is the order of the keys, finds in its key file the key that stands at its own
  number, is given that number as its index in the validator registry, and finds in its share file the
  share of that number.
\<close>

theorem dealt_network_works:
  assumes "private_laws P K" and "\<And>s. decode_share T (share_bytes T s) = Some s"
    and "\<And>g text. print_toml g = Some text \<Longrightarrow> parse_toml text = Some g"
    and "dkg_setup P K T parse_toml print_toml nodes polynomial shares draw h = Ok h'"
    and "distinct (map (public_of K \<circ> draw) [0 ..< unat nodes])"
    and "\<forall>c g. h_files h (file_at GENESIS_PATH) = Some c \<longrightarrow> parse_toml c = Some g \<longrightarrow>
           (\<forall>v \<in> set (gn_validators g). parse_address P (vd_ip_address v) \<noteq> None)"
    and "get_node_flags pr n = (Ok f :: (string, _) outcome)" and "unat n < unat nodes"
  shows "\<exists>g c s path share_hex bs.
           load_from_file parse_toml h' (fl_genesis_path f) = Ok g \<and>
           load_committee P g = (Ok c :: (string, _) outcome) \<and> length c = unat nodes \<and>
           read_ed_key_from_path P K h' (fl_key_path f) = Ok s \<and> fst (c ! unat n) = public_of K s \<and>
           registry_is_participant (registry_new Po (map fst c) polynomial (shares ! unat n)) view (public_of K s)
             = Some (ucast n) \<and>
           get_expanded_path (h_home h') (fl_share_path f) = Ok path \<and>
           read_to_string h' path = Ok share_hex \<and> from_hex_formatted P share_hex = Some bs \<and>
           decode_share T bs = Some (shares ! unat n)"
proof -
  let ?n = "unat nodes" and ?ks = "dealt_keys K (unat nodes) draw"
  from assms(4) obtain content g h1 vs updated where
    c: "h_files h (file_at GENESIS_PATH) = Some content" "parse_toml content = Some g"
      "length (gn_validators g) = ?n" and
    loop: "dkg_nodes P K T ?ks shares [0 ..< ?n] (h, gn_validators g) = Ok (h1, vs)" and
    up: "print_toml (g\<lparr>gn_identity := to_hex P (polynomial_bytes T polynomial), gn_validators := vs\<rparr>) = Some updated" and
    h': "h' = h1\<lparr>h_files := (h_files h1)(file_at GENESIS_PATH \<mapsto> updated)\<rparr>"
    unfolding dealt_keys_def by (rule dkg_setup_Ok)
  let ?g = "g\<lparr>gn_identity := to_hex P (polynomial_bytes T polynomial), gn_validators := vs\<rparr>"
  note D = dkg_nodes_Ok [OF loop] and k = dealt_keys_props [OF assms(5)]
  have laws: "text_laws P" using assms(1) by (simp add: private_laws_def)
  define addr where "addr i = the (parse_address P (vd_ip_address (gn_validators g ! i)))" for i
  have addr: "parse_address P (vd_ip_address (gn_validators g ! i)) = Some (addr i)" if "i < ?n" for i
    using assms(6) c that by (auto simp: addr_def)
  let ?c = "map (\<lambda>i. (fst (?ks ! i), addr i)) [0 ..< ?n]"
  have vs: "length vs = ?n" "\<And>i. i < ?n \<Longrightarrow>
      vs ! i = (gn_validators g ! i)\<lparr>vd_public_key := to_hex P (key_bytes P (fst (?ks ! i)))\<rparr>"
    using D c(3) by simp_all
  have "map (parsed P) vs = map Some ?c"
    by (rule dkg_validators_parse [OF laws vs(2,1) c(3) k(1) addr])
  then have "collect_committee P (gn_validators ?g) = (Ok ?c :: (string, _) outcome)"
    by (simp add: collect_committee_Ok)
  moreover have "sort ?c = ?c" by (rule sorted_sort_id [OF sorted_pairs [OF k(2,3,1)]])
  ultimately have lc: "load_committee P ?g = (Ok ?c :: (string, _) outcome)"
    by (simp add: load_committee_def)
  have keys: "map fst ?c = map fst ?ks"
    using k(1) by (intro nth_equalityI) simp_all
  note names = flags_name_node_files [OF assms(7)]
  have dealt: "dealt P K T ?ks shares h' (unat n)"
    unfolding h' using D assms(8) by (intro dealt_after_genesis) simp
  let ?s = "snd (?ks ! unat n)"
  have s: "read_ed_key_from_path P K h' (fl_key_path f) = Ok ?s"
    using dealt names(1) [of "h_home h'"]
    by (intro written_key_reads [OF assms(1) names(1)]) (simp add: dealt_def)
  have at: "fst (?c ! unat n) = public_of K ?s" using assms(8) k(4) [OF assms(8)] by simp
  have max: "unat nodes < 2 ^ 32" using unsigned_less [of nodes] by simp
  with assms(8) have lt: "unat n < 2 ^ 32" by simp
  have "indexes (map fst ?c) (index_map (map fst ?c))"
    unfolding keys using k(1,3) max by (intro indexes_index_map) simp_all
  then have "index_map (map fst ?c) (public_of K ?s) = Some (ucast n)"
    using at lt assms(8) by (simp add: indexes_def unsigned_ucast_eq take_bit_eq_mod)
  then have reg: "registry_is_participant (registry_new Po (map fst ?c) polynomial (shares ! unat n)) view
      (public_of K ?s) = Some (ucast n)"
    by (simp add: registry_is_participant_def registry_new_def)
  have g: "load_from_file parse_toml h' (fl_genesis_path f) = Ok ?g"
    using assms(3) [OF up] by (simp add: load_from_file_def read_to_string_def names(3) h')
  have "read_to_string h' (file_at (node_file (unat n) ''share.pem'')) = Ok (to_hex P (share_bytes T (shares ! unat n)))"
    using dealt by (simp add: read_to_string_def dealt_def)
  then show ?thesis
    using g lc s at reg names(2) [of "h_home h'"] laws assms(2)
    by (intro exI [of _ ?g] exI [of _ ?c] exI [of _ ?s] exI) (auto simp: text_laws_def)
qed

section \<open>A concrete network\<close>

text \<open>With enough shares and as many validators as nodes, the program ends well where it may write.\<close>

lemma dkg_nodes_total:
  assumes "n \<le> length ks" and "n \<le> length shares" and "n \<le> length vs"
    and "\<And>p. h_creatable h p \<and> h_writable h p"
  shows "\<exists>h' vs'. dkg_nodes P K T ks shares [0 ..< n] (h, vs) = Ok (h', vs')"
  using assms
proof (induction n)
  case (Suc n)
  then obtain h' vs' where 1: "dkg_nodes P K T ks shares [0 ..< n] (h, vs) = Ok (h', vs')" by auto
  from dkg_nodes_Ok [OF 1] have "length vs' = length vs"
    "h_creatable h' = h_creatable h" "h_writable h' = h_writable h" by simp_all
  with Suc.prems show ?case
    by (simp add: dkg_nodes_append 1 dkg_node_def create_dir_all_def write_file_def nth_checked_def)
qed simp

lemma dkg_setup_total:
  assumes "h_files h (file_at GENESIS_PATH) = Some content" and "parse_toml content = Some g"
    and "length (gn_validators g) = unat nodes" and "length shares = unat nodes"
    and "\<And>p. h_creatable h p \<and> h_writable h p" and "\<And>g. print_toml g \<noteq> None"
  shows "\<exists>h'. dkg_setup P K T parse_toml print_toml nodes polynomial shares draw h = Ok h'"
proof -
  let ?ks = "sort (map (\<lambda>i. (public_of K (draw i), draw i)) [0 ..< unat nodes])"
  obtain h' vs' where loop: "dkg_nodes P K T ?ks shares [0 ..< unat nodes] (h, gn_validators g) = Ok (h', vs')"
    using dkg_nodes_total [of "unat nodes" ?ks shares "gn_validators g" h P K T] assms(3-5) by auto
  obtain updated where
    "print_toml (g\<lparr>gn_identity := to_hex P (polynomial_bytes T polynomial), gn_validators := vs'\<rparr>) = Some updated"
    using assms(6) by blast
  with assms loop dkg_nodes_Ok [OF loop] show ?thesis
    by (simp add: dkg_setup_def read_to_string_def write_file_def)
qed

text \<open>A file format: every field after its length in unary, numbers as bytes.\<close>

definition field :: "string \<Rightarrow> string" where
  "field s = replicate (length s) CHR ''x'' @ CHR '':'' # s"

definition read_field :: "string \<Rightarrow> string \<times> string" where
  "read_field s =
     (let n = length (takeWhile (\<lambda>c. c = CHR ''x'') s); rest = drop (Suc n) s in (take n rest, drop n rest))"

lemma read_field_field [simp]: "read_field (field s @ rest) = (s, rest)"
proof -
  have "takeWhile (\<lambda>c. c = CHR ''x'') (replicate n CHR ''x'' @ CHR '':'' # t) = replicate n CHR ''x''" for n t
    by (subst takeWhile_append2) auto
  then show ?thesis by (simp add: read_field_def field_def)
qed

fun read_fields :: "nat \<Rightarrow> string \<Rightarrow> string list \<times> string" where
  "read_fields 0 s = ([], s)"
| "read_fields (Suc n) s = (let (x, r) = read_field s; (xs, r') = read_fields n r in (x # xs, r'))"

lemma read_fields_concat [simp]:
  "read_fields (length xs) (concat (map field xs) @ rest) = (xs, rest)"
  by (induction xs) simp_all

definition number_field :: "u64 \<Rightarrow> string" where
  "number_field w = to_hex char_text (u64_bytes w)"

definition field_number :: "string \<Rightarrow> u64" where
  "field_number s = of_be (the (from_hex_formatted char_text s))"

lemma field_number_field [simp]: "field_number (number_field w) = w"
  using char_text_laws by (simp add: field_number_def number_field_def text_laws_def)

definition sample_text :: "genesis_file \<Rightarrow> string" where
  "sample_text g =
     concat (map field
       ([gn_eth_genesis_hash g, gn_namespace g, gn_identity g] @
        map (\<lambda>sel. number_field (sel g))
          [gn_leader_timeout_ms, gn_notarization_timeout_ms, gn_nullify_timeout_ms, gn_activity_timeout_views,
           gn_skip_timeout_views, gn_max_message_size_bytes])) @
     field (replicate (length (gn_validators g)) CHR ''v'') @
     concat (map field (map vd_public_key (gn_validators g))) @
     concat (map field (map vd_ip_address (gn_validators g)))"

definition sample_print :: "genesis_file \<Rightarrow> string option" where
  "sample_print g = Some (sample_text g)"

definition sample_parse :: "string \<Rightarrow> genesis_file option" where
  "sample_parse s =
     (let (xs, r) = read_fields 9 s; (vs, r1) = read_field r;
          (ks, r2) = read_fields (length vs) r1; (ips, r3) = read_fields (length vs) r2
      in Some \<lparr>gn_validators = map2 (\<lambda>k ip. \<lparr>vd_public_key = k, vd_ip_address = ip\<rparr>) ks ips,
               gn_eth_genesis_hash = xs ! 0, gn_leader_timeout_ms = field_number (xs ! 3),
               gn_notarization_timeout_ms = field_number (xs ! 4), gn_nullify_timeout_ms = field_number (xs ! 5),
               gn_activity_timeout_views = field_number (xs ! 6), gn_skip_timeout_views = field_number (xs ! 7),
               gn_max_message_size_bytes = field_number (xs ! 8), gn_namespace = xs ! 1, gn_identity = xs ! 2\<rparr>)"

lemma sample_parse_text: "sample_parse (sample_text g) = Some g"
proof -
  let ?xs = "[gn_eth_genesis_hash g, gn_namespace g, gn_identity g] @
        map (\<lambda>sel. number_field (sel g))
          [gn_leader_timeout_ms, gn_notarization_timeout_ms, gn_nullify_timeout_ms, gn_activity_timeout_views,
           gn_skip_timeout_views, gn_max_message_size_bytes]"
  have len: "length ?xs = 9" by simp
  have 9: "read_fields 9 (concat (map field ?xs) @ rest) = (?xs, rest)" for rest
    using read_fields_concat [of ?xs rest] unfolding len .
  have n: "read_fields (length (gn_validators g)) (concat (map field (map f (gn_validators g))) @ rest)
      = (map f (gn_validators g), rest)" for f rest
    using read_fields_concat [of "map f (gn_validators g)" rest] by simp
  have n': "read_fields (length (gn_validators g)) (concat (map field (map f (gn_validators g))))
      = (map f (gn_validators g), [])" for f
    using n [of f "[]"] by simp
  have "map2 (\<lambda>k ip. \<lparr>vd_public_key = k, vd_ip_address = ip\<rparr>) (map vd_public_key vs) (map vd_ip_address vs) = vs"
    for vs :: "validator list"
    by (induction vs) simp_all
  then show ?thesis
    unfolding sample_parse_def sample_text_def append_assoc 9 Let_def case_prod_conv read_field_field
      length_replicate n n'
    by simp
qed

text \<open>One validator, one node, and everything else readable.\<close>

definition small_genesis :: genesis_file where
  "small_genesis =
     \<lparr>gn_validators = [\<lparr>vd_public_key = [], vd_ip_address = ''addr''\<rparr>], gn_eth_genesis_hash = replicate 32 CHR ''h'',
      gn_leader_timeout_ms = 1, gn_notarization_timeout_ms = 2, gn_nullify_timeout_ms = 3,
      gn_activity_timeout_views = 10, gn_skip_timeout_views = 5, gn_max_message_size_bytes = 1024,
      gn_namespace = ''ns'', gn_identity = ''id''\<rparr>"

definition plain_threshold :: "(u64, u64) threshold_api" where
  "plain_threshold = \<lparr>decode_share = (\<lambda>bs. Some (of_be bs)), share_bytes = u64_bytes,
                      decode_polynomial = (\<lambda>t bs. Some (of_be bs)), polynomial_bytes = u64_bytes,
                      quorum = (\<lambda>n. n)\<rparr>"

definition small_host :: host where
  "small_host = \<lparr>h_home = None, h_files = [file_at GENESIS_PATH \<mapsto> sample_text small_genesis],
                 h_creatable = (\<lambda>_. True), h_writable = (\<lambda>_. True)\<rparr>"

theorem dealt_network_works_witness:
  "\<exists>h' f c s. dkg_setup char_text plain_keys plain_threshold sample_parse sample_print 1 42 [9] (\<lambda>_. 5) small_host = Ok h' \<and>
     get_node_flags Debug 0 = (Ok f :: (string, _) outcome) \<and>
     read_ed_key_from_path char_text plain_keys h' (fl_key_path f) = Ok s \<and> length c = 1 \<and>
     fst (c ! unat (0 :: u64) :: u64 \<times> nat) = public_of plain_keys s"
proof -
  let ?draw = "\<lambda>_ :: nat. 5 :: u64"
  have genesis: "h_files small_host (file_at GENESIS_PATH) = Some (sample_text small_genesis)"
    by (simp add: small_host_def)
  have len: "length (gn_validators small_genesis) = unat (1 :: u32)" "length [9 :: u64] = unat (1 :: u32)"
    by (simp_all add: small_genesis_def)
  obtain h' where h': "dkg_setup char_text plain_keys plain_threshold sample_parse sample_print 1 42 [9]
      ?draw small_host = Ok h'"
    using dkg_setup_total [where parse_toml = sample_parse and P = char_text and K = plain_keys
        and T = plain_threshold and print_toml = sample_print and polynomial = 42 and draw = ?draw, OF genesis sample_parse_text len]
    by (auto simp: small_host_def sample_print_def)
  have print: "sample_print g = Some s \<Longrightarrow> sample_parse s = Some g" for g s
    using sample_parse_text [of g] by (auto simp: sample_print_def)
  have shares: "decode_share plain_threshold (share_bytes plain_threshold x) = Some x" for x
    by (simp add: plain_threshold_def)
  have ips: "\<forall>c g. h_files small_host (file_at GENESIS_PATH) = Some c \<longrightarrow> sample_parse c = Some g \<longrightarrow>
      (\<forall>v \<in> set (gn_validators g). parse_address char_text (vd_ip_address v) \<noteq> None)"
    using genesis sample_parse_text [of small_genesis] by (auto simp: small_genesis_def char_text_def)
  have dist: "distinct (map (public_of plain_keys \<circ> ?draw) [0 ..< unat (1 :: u32)])" by simp
  obtain f where f: "get_node_flags Debug 0 = (Ok f :: (string, _) outcome)"
    using small_node_flags [of 0 Debug, where 'e = string] by auto
  have lt: "unat (0 :: u64) < unat (1 :: u32)" by simp
  from dealt_network_works [OF plain_keys_laws shares print h' dist ips f lt, of "\<lparr>poly_public = id, evaluate_all = (\<lambda>_ _. [])\<rparr>" 0] obtain c s where
    "length (c :: (u64 \<times> nat) list) = unat (1 :: u32)"
    "read_ed_key_from_path char_text plain_keys h' (fl_key_path f) = Ok s"
    "fst (c ! unat (0 :: u64)) = public_of plain_keys s" by blast
  with h' f show ?thesis by (intro exI [of _ h'] exI [of _ f] exI [of _ c] exI [of _ s]) simp
qed

end
