(* ===== verification/Launch_Properties.thy ===== *)
theory Launch_Properties
  imports Dkg_Setup
begin

text \<open>
  What holds of a node that comes up: it is a member of the committee it loads, under the address the
  genesis file gives it, and every node whose genesis file lists the same validators, in whatever
  order, sees the same committee, the same indexes and the same leaders.
\<close>

section \<open>The committee\<close>

lemma load_committee_Ok:
  "load_committee P g = (Ok c :: ('e, _) outcome) \<longleftrightarrow>
     (\<exists>ps. map (parsed P) (gn_validators g) = map Some ps \<and> c = sort ps)"
  by (auto simp: load_committee_def outcome_simps collect_committee_Ok)

lemma map_of_sort:
  assumes "distinct (map fst ps)"
  shows "map_of (sort ps) k = map_of (ps :: ('k :: linorder \<times> 'a :: linorder) list) k"
proof -
  have "mset (map fst (sort ps)) = mset (map fst ps)" by simp
  then have d: "distinct (map fst (sort ps))"
    using assms by (metis mset_eq_imp_distinct_iff)
  have "map_of (sort ps) k = Some a \<longleftrightarrow> map_of ps k = Some a" for a
    using assms d by (simp add: map_of_eq_Some_iff)
  then show ?thesis by (metis option.exhaust)
qed

lemma committee_order:
  assumes "mset (gn_validators g) = mset (gn_validators g')"
    and "load_committee P g = (Ok c :: ('e, _) outcome)" and "load_committee P g' = (Ok c' :: ('e, _) outcome)"
  shows "c = c'"
proof -
  from assms(2,3) obtain ps ps' where
    p: "map (parsed P) (gn_validators g) = map Some ps" "c = sort ps" and
    p': "map (parsed P) (gn_validators g') = map Some ps'" "c' = sort ps'"
    by (auto simp: load_committee_Ok)
  have "image_mset Some (mset ps) = image_mset (parsed P) (mset (gn_validators g))"
    using p(1) by (simp flip: mset_map)
  also have "\<dots> = image_mset Some (mset ps')"
    unfolding assms(1) using p'(1) by (simp flip: mset_map)
  finally have "image_mset the (image_mset Some (mset ps)) = image_mset the (image_mset Some (mset ps'))"
    by (rule arg_cong)
  then have "mset ps = mset ps'" by (simp add: multiset.map_comp comp_def)
  then have "sort ps = sort ps'" by (simp add: properties_for_sort)
  with p p' show ?thesis by simp
qed

section \<open>Launching\<close>

lemma config_Ok:
  assumes "get_engine_config P K T h url jwt key share parts prefix g = Ok config"
  shows "ec_participants config = parts" and "\<exists>bs. from_hex_formatted P (gn_identity g) = Some bs \<and>
           decode_polynomial T (quorum T (word_of_nat (length parts))) bs = Some (ec_polynomial config)"
  using assms by (auto simp: get_engine_config_def Let_def outcome_simps)

lemma engine_registry:
  "engine_new C K Po config = (Ok en :: ('e, _) outcome) \<Longrightarrow>
     xc_supervisor (en_simplex en) = registry_new Po (ec_participants config) (ec_polynomial config) (ec_share config)"
  by (auto simp: engine_new_def Let_def outcome_simps)

lemma launch_Ok:
  assumes "run_node_with_runtime L h f = (Ok l :: ('e, _) outcome)"
  obtains g c config where "load_from_file (la_parse_toml L) h (fl_genesis_path f) = Ok g"
    "load_committee (la_text L) g = (Ok c :: ('e, _) outcome)"
    "ec_participants config = map fst c"
    "find_address (public_of (la_private L) (ec_signer config)) c = Some (nc_address (nl_network l))"
    "nc_public_key (nl_network l) = public_of (la_private L) (ec_signer config)" "nc_peers (nl_network l) = c"
    "engine_new (la_client L) (la_private L) (la_poly L) config = (Ok (nl_engine l) :: ('e, _) outcome)"
    "\<exists>bs. from_hex_formatted (la_text L) (gn_identity g) = Some bs \<and>
       decode_polynomial (la_threshold L) (quorum (la_threshold L) (word_of_nat (length c))) bs
         = Some (ec_polynomial config)"
proof -
  from assms obtain g c config where
    ln: "load_node L h f = (Ok (g, c, config, nc_address (nl_network l)) :: ('e, _) outcome)" and
    l: "nc_public_key (nl_network l) = public_of (la_private L) (ec_signer config)"
      "nc_peers (nl_network l) = c"
      "engine_new (la_client L) (la_private L) (la_poly L) config = (Ok (nl_engine l) :: ('e, _) outcome)"
    by (auto simp: run_node_with_runtime_def outcome_simps network_of_def)
  from ln have load: "load_from_file (la_parse_toml L) h (fl_genesis_path f) = Ok g"
    "load_committee (la_text L) g = (Ok c :: ('e, _) outcome)"
    "get_engine_config (la_text L) (la_private L) (la_threshold L) h (engine_url_of (fl_engine_port f))
       (fl_engine_jwt_path f) (fl_key_path f) (fl_share_path f) (map fst c) (fl_db_prefix f) g = Ok config"
    "find_address (public_of (la_private L) (ec_signer config)) c = Some (nc_address (nl_network l))"
    by (auto simp: load_node_def Let_def outcome_simps)
  from config_Ok [OF load(3)] show thesis
    using that [OF load(1,2) _ load(4) l] by simp
qed

section \<open>A network of two\<close>

text \<open>Keys 5 and 6; the two genesis files list them in opposite orders.\<close>

definition pair_validator :: "u64 \<Rightarrow> validator" where
  "pair_validator k = \<lparr>vd_public_key = to_hex char_text (u64_bytes k), vd_ip_address = ''addr''\<rparr>"

definition pair_genesis :: "u64 list \<Rightarrow> genesis_file" where
  "pair_genesis ks = small_genesis\<lparr>gn_validators := map pair_validator ks\<rparr>"

definition pair_launch :: "(u64, u64, nat, u64, u64, u64) launch_api" where
  "pair_launch =
     \<lparr>la_text = char_text, la_private = plain_keys, la_threshold = plain_threshold,
      la_poly = \<lparr>poly_public = (\<lambda>p. p), evaluate_all = (\<lambda>p n. [p])\<rparr>,
      la_parse_toml = (\<lambda>s. Some (pair_genesis (if s = ''x'' then [5, 6] else [6, 5]))), la_known_level = (\<lambda>_. True),
      la_client = \<lparr>jwt_from_hex = Some \<circ> map (word_of_nat \<circ> of_char), parse_url = Some\<rparr>\<rparr>"

definition pair_host :: "u64 \<Rightarrow> string \<Rightarrow> host" where
  "pair_host k other =
     \<lparr>h_home = None,
      h_files = (\<lambda>p. Some (if p \<noteq> [] \<and> last p = ''key.pem'' then to_hex char_text (u64_bytes k) else other)),
      h_creatable = (\<lambda>_. True), h_writable = (\<lambda>_. True)\<rparr>"

lemma pair_parsed [simp]: "parsed char_text (pair_validator k) = Some (k, 4)"
  using char_text_laws by (simp add: parsed_def pair_validator_def text_laws_def) (simp add: char_text_def)

lemma pair_committee:
  "load_committee char_text (pair_genesis ks) = (Ok (sort (map (\<lambda>k. (k, 4)) ks)) :: ('e, _) outcome)"
proof -
  have "map (parsed char_text) (gn_validators (pair_genesis ks)) = map Some (map (\<lambda>k. (k, 4)) ks)"
    by (simp add: pair_genesis_def)
  then show ?thesis unfolding load_committee_Ok by blast
qed

lemma pair_genesis_loads:
  "get_node_flags pr n = (Ok f :: (unit, _) outcome) \<Longrightarrow>
     load_from_file (la_parse_toml pair_launch) (pair_host k other) (fl_genesis_path f)
       = Ok (pair_genesis (if other = ''x'' then [5, 6] else [6, 5]))"
  by (simp add: flags_name_node_files(3) load_from_file_def read_to_string_def genesis_path_at pair_host_def pair_launch_def)

lemma pair_launches_at:
  assumes "get_node_flags pr n = (Ok f :: (unit, _) outcome)" and "k = 5 \<or> k = 6"
  shows "\<exists>l. run_node_with_runtime pair_launch (pair_host k other) (f\<lparr>fl_engine_port := port\<rparr>)
               = (Ok l :: (unit, _) outcome) \<and>
             nc_peers (nl_network l) = [(5, 4), (6, 4)]"
proof -
  let ?h = "pair_host k other"
  let ?g = "pair_genesis (if other = ''x'' then [5, 6] else [6, 5])"
  note names = flags_name_node_files(1,2) [OF assms(1), of "h_home ?h"]
  have "last (file_at (node_file i ''key.pem'')) = ''key.pem''" "file_at (node_file i ''key.pem'') \<noteq> []" for i
    by (simp_all add: node_file_at)
  then have "h_files ?h (file_at (file_at (node_file (unat n) ''key.pem''))) = Some (to_hex char_text (private_bytes plain_keys k))"
    by (simp add: pair_host_def plain_keys_def)
  from written_key_reads [OF plain_keys_laws names(1) this]
  have key: "read_ed_key_from_path char_text plain_keys ?h (fl_key_path f) = Ok k" .
  have c: "load_committee char_text ?g = (Ok [(5, 4), (6, 4)] :: (unit, _) outcome)"
    unfolding pair_committee by (simp add: less_eq_prod_def insort_key.simps)
  have jwt: "get_expanded_path (h_home ?h) (fl_engine_jwt_path f) = Ok [''testnet'', ''jwt.hex'']"
  proof -
    have "fl_engine_jwt_path f = ''testnet/jwt.hex''"
      using assms(1) by (auto simp: get_node_flags_def Let_def outcome_simps)
    moreover have "path_components ''testnet/jwt.hex'' = [''testnet'', ''jwt.hex'']" by code_simp
    ultimately show ?thesis by (simp add: get_expanded_path_def)
  qed
  have "\<exists>t. read_to_string ?h p = Ok t" for p by (simp add: read_to_string_def pair_host_def)
  then obtain j t where
    j: "read_to_string ?h [''testnet'', ''jwt.hex''] = Ok j" and
    t: "read_to_string ?h (file_at (node_file (unat n) ''share.pem'')) = Ok t" by metis
  have hex: "from_hex_formatted char_text u = Some (map (word_of_nat \<circ> of_char) u)" for u
    by (simp add: char_text_def)
  have hash: "array32 (map (word_of_nat \<circ> of_char) (gn_eth_genesis_hash ?g)) \<noteq> None"
    by (simp add: pair_genesis_def small_genesis_def array32_def)
  have dec: "decode_share plain_threshold u = Some (of_be u)" "decode_polynomial plain_threshold m u = Some (of_be u)"
    for u m by (simp_all add: plain_threshold_def)
  from hash have "\<exists>config. get_engine_config char_text plain_keys plain_threshold ?h
      (engine_url_of port) (fl_engine_jwt_path f) (fl_key_path f) (fl_share_path f) [5, 6]
      (fl_db_prefix f) ?g = Ok config \<and> ec_signer config = k"
    by (auto simp: get_engine_config_def Let_def jwt names(2) key j t hex dec simp del: list.map)
  then obtain config where config: "get_engine_config char_text plain_keys plain_threshold ?h
      (engine_url_of port) (fl_engine_jwt_path f) (fl_key_path f) (fl_share_path f) [5, 6]
      (fl_db_prefix f) ?g = Ok config" "ec_signer config = k" by blast
  have "load_node pair_launch ?h (f\<lparr>fl_engine_port := port\<rparr>) = (Ok (?g, [(5, 4), (6, 4)], config, 4) :: (unit, _) outcome)"
    using config assms(2) pair_genesis_loads [OF assms(1), of k other]
    by (auto simp: load_node_def Let_def pair_launch_def c plain_keys_def)
  moreover have "\<exists>en. engine_new (la_client pair_launch) plain_keys (la_poly pair_launch) config = (Ok en :: (unit, _) outcome)"
    by (simp add: engine_new_def engine_client_new_def pair_launch_def Let_def)
  moreover have "la_private pair_launch = plain_keys" by (simp add: pair_launch_def)
  ultimately show ?thesis by (auto simp: run_node_with_runtime_def network_of_def)
qed

lemma pair_launches:
  assumes "get_node_flags pr n = (Ok f :: (unit, _) outcome)" and "k = 5 \<or> k = 6"
  shows "\<exists>l. run_node_with_runtime pair_launch (pair_host k other) f = (Ok l :: (unit, _) outcome) \<and>
             nc_peers (nl_network l) = [(5, 4), (6, 4)]"
  using pair_launches_at [OF assms, of other "fl_engine_port f"] by simp

section \<open>Properties\<close>

text \<open>
  C23. A node that comes up is a member of its committee: under distinct keys, its own key is in the
  committee and in the registry of the consensus engine, the address it announces is the one the
  genesis file lists for that key, and the committee is in key order.
\<close>

theorem launched_node_is_member:
  assumes "run_node_with_runtime L h f = (Ok l :: ('e, _) outcome)"
    and "load_from_file (la_parse_toml L) h (fl_genesis_path f) = Ok g"
    and "distinct (map fst (nc_peers (nl_network l)))" and "length (nc_peers (nl_network l)) < 2 ^ 32"
  shows "ip_of (la_text L) g (nc_public_key (nl_network l)) = Some (nc_address (nl_network l)) \<and>
         (\<exists>i. registry_is_participant (xc_supervisor (en_simplex (nl_engine l))) view
                (nc_public_key (nl_network l)) = Some i \<and>
              nc_peers (nl_network l) ! unat i = (nc_public_key (nl_network l), nc_address (nl_network l))) \<and>
         sorted (map fst (nc_peers (nl_network l)))"
  using assms(1)
proof (rule launch_Ok)
  fix g' c config
  assume g': "load_from_file (la_parse_toml L) h (fl_genesis_path f) = Ok g'"
    and c: "load_committee (la_text L) g' = (Ok c :: ('e, _) outcome)"
    and parts: "ec_participants config = map fst c"
    and addr: "find_address (public_of (la_private L) (ec_signer config)) c = Some (nc_address (nl_network l))"
    and key: "nc_public_key (nl_network l) = public_of (la_private L) (ec_signer config)"
    and peers: "nc_peers (nl_network l) = c"
    and engine: "engine_new (la_client L) (la_private L) (la_poly L) config = (Ok (nl_engine l) :: ('e, _) outcome)"
  let ?k = "nc_public_key (nl_network l)" and ?a = "nc_address (nl_network l)"
  have [simp]: "g' = g" using g' assms(2) by simp
  from c obtain ps where ps: "map (parsed (la_text L)) (gn_validators g) = map Some ps" "c = sort ps"
    by (auto simp: load_committee_Ok)
  have "mset (map fst c) = mset (map fst ps)" by (simp add: ps(2))
  then have d: "distinct (map fst ps)"
    using assms(3) unfolding peers by (metis mset_eq_imp_distinct_iff)
  have at: "map_of c ?k = Some ?a" using addr by (simp add: key find_address_map_of)
  then have "ip_of (la_text L) g ?k = Some ?a"
    using ip_lookup_parsed [OF ps(1)] map_of_sort [OF d] by (simp add: ip_of_def ps(2))
  moreover from at obtain i where i: "i < length c" "c ! i = (?k, ?a)"
    by (metis in_set_conv_nth map_of_SomeD)
  have "indexes (map fst c) (index_map (map fst c))"
    using assms(3,4) unfolding peers by (intro indexes_index_map) simp_all
  then have "index_map (map fst c) ?k = Some (word_of_nat i)"
    using i assms(4) unfolding peers by (simp add: indexes_def unat_of_nat)
  then have "registry_is_participant (xc_supervisor (en_simplex (nl_engine l))) view ?k = Some (word_of_nat i)"
    by (simp add: engine_registry [OF engine] registry_is_participant_def registry_new_def parts)
  moreover have "c ! unat (word_of_nat i :: u32) = (?k, ?a)"
    using i assms(4) unfolding peers by (simp add: unat_of_nat)
  moreover have "sorted (map fst c)"
    unfolding ps(2) sorted_map
    by (rule sorted_wrt_mono_rel [OF _ sorted_sort [of ps]]) (auto simp: less_eq_prod_def)
  ultimately show ?thesis unfolding peers by blast
qed

theorem launched_node_is_member_witness:
  "\<exists>f l. get_node_flags Debug 0 = (Ok f :: (unit, _) outcome) \<and>
         run_node_with_runtime pair_launch (pair_host 5 ''x'') f = (Ok l :: (unit, _) outcome) \<and>
         ip_of char_text (pair_genesis [5, 6]) (nc_public_key (nl_network l)) = Some (nc_address (nl_network l))"
proof -
  obtain f where f: "get_node_flags Debug 0 = (Ok f :: (unit, _) outcome)"
    using small_node_flags [of 0 Debug, where 'e = unit] by auto
  obtain l where l: "run_node_with_runtime pair_launch (pair_host 5 ''x'') f = (Ok l :: (unit, _) outcome)"
    and peers: "nc_peers (nl_network l) = [(5, 4), (6, 4)]"
    using pair_launches [OF f, of 5 "''x''"] by auto
  have g: "load_from_file (la_parse_toml pair_launch) (pair_host 5 ''x'') (fl_genesis_path f) = Ok (pair_genesis [5, 6])"
    using pair_genesis_loads [OF f, of 5 "''x''"] by simp
  have d: "distinct (map fst (nc_peers (nl_network l)))" "length (nc_peers (nl_network l)) < 2 ^ 32"
    by (simp_all add: peers)
  from launched_node_is_member [OF l g d] f l show ?thesis by (auto simp: pair_launch_def)
qed

text \<open>
  C22. The order of the validators in the genesis file does not matter: two nodes whose files list the
  same validators and the same network identity see the same committee, give every key the same
  index, and elect the same leader in every view for every seed.
\<close>

theorem nodes_share_committee:
  assumes "run_node_with_runtime L h f = (Ok l :: ('e, _) outcome)"
    and "run_node_with_runtime L h' f' = (Ok l' :: ('e, _) outcome)"
    and "load_from_file (la_parse_toml L) h (fl_genesis_path f) = Ok g"
    and "load_from_file (la_parse_toml L) h' (fl_genesis_path f') = Ok g'"
    and "mset (gn_validators g) = mset (gn_validators g')" and "gn_identity g = gn_identity g'"
  defines "r \<equiv> xc_supervisor (en_simplex (nl_engine l))" and "r' \<equiv> xc_supervisor (en_simplex (nl_engine l'))"
  shows "nc_peers (nl_network l) = nc_peers (nl_network l') \<and>
         registry_is_participant r view k = registry_is_participant r' view k \<and>
         registry_leader md r view seed = (registry_leader md r' view seed :: ('e, _) outcome) \<and>
         registry_polynomial r view = registry_polynomial r' view"
proof -
  obtain c config where 1: "load_committee (la_text L) g = (Ok c :: ('e, _) outcome)"
      "ec_participants config = map fst c" "nc_peers (nl_network l) = c"
      "engine_new (la_client L) (la_private L) (la_poly L) config = (Ok (nl_engine l) :: ('e, _) outcome)"
      "\<exists>bs. from_hex_formatted (la_text L) (gn_identity g) = Some bs \<and>
       decode_polynomial (la_threshold L) (quorum (la_threshold L) (word_of_nat (length c))) bs
         = Some (ec_polynomial config)"
    using assms(3) by (rule_tac launch_Ok [OF assms(1)]) auto
  obtain c' config' where 2: "load_committee (la_text L) g' = (Ok c' :: ('e, _) outcome)"
      "ec_participants config' = map fst c'" "nc_peers (nl_network l') = c'"
      "engine_new (la_client L) (la_private L) (la_poly L) config' = (Ok (nl_engine l') :: ('e, _) outcome)"
      "\<exists>bs. from_hex_formatted (la_text L) (gn_identity g') = Some bs \<and>
       decode_polynomial (la_threshold L) (quorum (la_threshold L) (word_of_nat (length c'))) bs
         = Some (ec_polynomial config')"
    using assms(4) by (rule_tac launch_Ok [OF assms(2)]) auto
  have c: "c = c'" by (rule committee_order [OF assms(5) 1(1) 2(1)])
  have "ec_polynomial config = ec_polynomial config'"
    using 1(5) 2(5) assms(6) c by auto
  then show ?thesis
    using 1(2,3) 2(2,3) c
    by (simp add: r_def r'_def engine_registry [OF 1(4)] engine_registry [OF 2(4)] registry_new_def
        registry_is_participant_def registry_leader_def registry_polynomial_def)
qed

theorem nodes_share_committee_witness:
  "\<exists>f f' l l'. run_node_with_runtime pair_launch (pair_host 5 ''x'') f = (Ok l :: (unit, _) outcome) \<and>
     run_node_with_runtime pair_launch (pair_host 6 ''y'') f' = (Ok l' :: (unit, _) outcome) \<and>
     registry_leader be_modulo (xc_supervisor (en_simplex (nl_engine l))) 1 [7]
       = (registry_leader be_modulo (xc_supervisor (en_simplex (nl_engine l'))) 1 [7] :: (unit, _) outcome)"
proof -
  obtain f f' where f: "get_node_flags Debug 0 = (Ok f :: (unit, _) outcome)"
    "get_node_flags Debug 1 = (Ok f' :: (unit, _) outcome)"
    using small_node_flags [of 0 Debug, where 'e = unit] small_node_flags [of 1 Debug, where 'e = unit] by auto
  obtain l l' where l: "run_node_with_runtime pair_launch (pair_host 5 ''x'') f = (Ok l :: (unit, _) outcome)"
    "run_node_with_runtime pair_launch (pair_host 6 ''y'') f' = (Ok l' :: (unit, _) outcome)"
    using pair_launches [OF f(1), of 5 "''x''"] pair_launches [OF f(2), of 6 "''y''"] by auto
  have g: "load_from_file (la_parse_toml pair_launch) (pair_host 5 ''x'') (fl_genesis_path f) = Ok (pair_genesis [5, 6])"
    "load_from_file (la_parse_toml pair_launch) (pair_host 6 ''y'') (fl_genesis_path f') = Ok (pair_genesis [6, 5])"
    using pair_genesis_loads [OF f(1), of 5 "''x''"] pair_genesis_loads [OF f(2), of 6 "''y''"] by simp_all
  have same: "mset (gn_validators (pair_genesis [5, 6])) = mset (gn_validators (pair_genesis [6, 5]))"
    "gn_identity (pair_genesis [5, 6]) = gn_identity (pair_genesis [6, 5])"
    by (simp_all add: pair_genesis_def)
  from nodes_share_committee [OF l g same, of 1 5 be_modulo "[7]"] l show ?thesis by blast
qed

text \<open>
  Nodes that share a storage directory share no store: the partitions of one node are twelve
  different ones, and those of two nodes of the test network have none in common.
\<close>

lemma testnet_stores_disjoint:
  assumes "get_node_flags pr n = (Ok f :: ('e, _) outcome)" and "get_node_flags pr' m = (Ok g :: ('e, _) outcome)"
    and "n \<noteq> m"
    and "run_node_with_runtime L h f = (Ok l :: ('e, _) outcome)"
    and "run_node_with_runtime L' h' g = (Ok l' :: ('e, _) outcome)"
  shows "distinct (node_partitions (nl_engine l)) \<and> length (node_partitions (nl_engine l)) = 12 \<and>
         set (node_partitions (nl_engine l)) \<inter> set (node_partitions (nl_engine l')) = {}"
proof -
  have p: "node_partitions (nl_engine l) = map (\<lambda>s. fl_db_prefix f @ s) store_suffixes"
    "node_partitions (nl_engine l') = map (\<lambda>s. fl_db_prefix g @ s) store_suffixes"
    using launch_partitions assms(4,5) by blast+
  have "distinct (map (\<lambda>s. pre @ s) store_suffixes)" for pre
    using distinct_suffixes by (simp add: distinct_map inj_on_def)
  moreover have "length store_suffixes = 12" by (simp add: store_suffixes_def)
  moreover have "fl_db_prefix f @ s \<noteq> fl_db_prefix g @ t" for s t
  proof
    assume "fl_db_prefix f @ s = fl_db_prefix g @ t"
    then have "decimal (unat n) @ CHR ''-'' # ''quarts'' @ s = decimal (unat m) @ CHR ''-'' # ''quarts'' @ t"
      by (simp add: get_node_flags_Ok(3) [OF assms(1)] get_node_flags_Ok(3) [OF assms(2)])
    from decimal_dash_inj [OF this] assms(3) show False by (simp add: word_unat_eq_iff)
  qed
  ultimately show ?thesis unfolding p by auto
qed

end
