(* ===== verification/Testnet_Main.thy ===== *)
theory Testnet_Main
  imports Launch_Properties
begin

text \<open>
  The main function of \<open>node/src/bin/testnet.rs\<close>: an execution client and a node per index. The
  execution clients are spawned by third-party code, which is a parameter.
\<close>

section \<open>The program\<close>

record test_args =
  ta_nodes :: u16
  ta_only_reth :: bool

record reth_instance =
  ri_instance :: u16
  ri_data_dir :: string
  ri_args :: "string list"

text \<open>\<open>None\<close> where the binding panics, and what it reports of an instance that runs.\<close>

record reth_process =
  rp_stdout :: bool
  rp_auth_port :: "u16 option"

type_synonym reth_api = "reth_instance \<Rightarrow> reth_process option"

definition reth_builder :: "profile \<Rightarrow> u16 \<Rightarrow> ('e, reth_instance) outcome" where
  "reth_builder pr x =
     and_then (add_ovf pr x 1) (\<lambda>instance_no.
       Ok \<lparr>ri_instance = instance_no,
           ri_data_dir = ''testnet/node'' @ decimal (unat x) @ ''/data/reth_db'',
           ri_args = [''--authrpc.jwtsecret'', ''testnet/jwt.hex'']\<rparr>)"

text \<open>One index: the client, and unless only clients are wanted the node that talks to it.\<close>

definition testnet_node ::
  "profile \<Rightarrow> ('k :: linorder, 's, 'a :: linorder, 'po, 'sh, 'i) launch_api \<Rightarrow> host \<Rightarrow> reth_api \<Rightarrow> bool \<Rightarrow> u16
    \<Rightarrow> ('e, reth_instance \<times> ('k, 's, 'a, 'i, 'sh) node_launch option) outcome" where
  "testnet_node pr L h R only_reth x =
     and_then (reth_builder pr x) (\<lambda>builder.
     and_then (expect_some ''spawn'' (R builder)) (\<lambda>reth.
     if \<not> rp_stdout reth then Panic (ExpectFailed ''Failed to get stdout'')
     else
       and_then (expect_some ''unwrap'' (rp_auth_port reth)) (\<lambda>auth_port.
       if only_reth then Ok (builder, None)
       else
         and_then (get_node_flags pr (ucast x)) (\<lambda>fl.
         and_then (run_node_with_runtime L h (fl\<lparr>fl_engine_port := auth_port\<rparr>)) (\<lambda>launch.
           Ok (builder, Some launch))))))"

fun testnet_nodes ::
  "profile \<Rightarrow> ('k :: linorder, 's, 'a :: linorder, 'po, 'sh, 'i) launch_api \<Rightarrow> host \<Rightarrow> reth_api \<Rightarrow> bool
    \<Rightarrow> u16 list \<Rightarrow> ('e, (reth_instance \<times> ('k, 's, 'a, 'i, 'sh) node_launch option) list) outcome" where
  "testnet_nodes pr L h R only_reth [] = Ok []"
| "testnet_nodes pr L h R only_reth (x # xs) =
     and_then (testnet_node pr L h R only_reth x) (\<lambda>n.
     and_then (testnet_nodes pr L h R only_reth xs) (\<lambda>ns. Ok (n # ns)))"

definition u16_below :: "u16 \<Rightarrow> u16 list" where
  "u16_below n = map word_of_nat [0 ..< unat n]"

definition testnet_main ::
  "profile \<Rightarrow> ('k :: linorder, 's, 'a :: linorder, 'po, 'sh, 'i) launch_api \<Rightarrow> host \<Rightarrow> reth_api \<Rightarrow> test_args
    \<Rightarrow> ('e, (reth_instance \<times> ('k, 's, 'a, 'i, 'sh) node_launch option) list) outcome" where
  "testnet_main pr L h R args =
     (if \<not> la_known_level L ''info'' then Panic (ExpectFailed ''Invalid log level'')
      else testnet_nodes pr L h R (ta_only_reth args) (u16_below (ta_nodes args)))"

section \<open>The loop\<close>

lemma testnet_nodes_Ok:
  assumes "testnet_nodes pr L h R only xs = (Ok ns :: ('e, _) outcome)"
  shows "length ns = length xs \<and>
         (\<forall>i < length xs. testnet_node pr L h R only (xs ! i) = (Ok (ns ! i) :: ('e, _) outcome))"
  using assms
proof (induction xs arbitrary: ns)
  case (Cons x xs)
  then obtain n ms where ns: "ns = n # ms" "testnet_node pr L h R only x = (Ok n :: ('e, _) outcome)"
    "testnet_nodes pr L h R only xs = (Ok ms :: ('e, _) outcome)" by (auto simp: outcome_simps)
  with Cons.IH [OF ns(3)] show ?case by (auto simp: nth_Cons split: nat.split)
qed simp

text \<open>The instance numbers start at one and do not overflow: an index is below the number of nodes.\<close>

lemma unat_u16_index: "i < unat (n :: u16) \<Longrightarrow> unat (u16_below n ! i) = i"
proof -
  assume i: "i < unat n"
  moreover have "unat n < 2 ^ 16" using unsigned_less [of n] by simp
  ultimately show ?thesis by (simp add: u16_below_def unat_of_nat)
qed

lemma instance_number:
  assumes "i < unat (n :: u16)" and "reth_builder pr (u16_below n ! i) = (Ok r :: ('e, _) outcome)"
  shows "unat (ri_instance r) = Suc i" and "ri_data_dir r = ''testnet/node'' @ decimal i @ ''/data/reth_db''"
proof -
  note u = unat_u16_index [OF assms(1)]
  have "unat n < 2 ^ 16" using unsigned_less [of n] by simp
  then have s: "unat (u16_below n ! i) + unat (1 :: u16) < 2 ^ LENGTH(16)" using u assms(1) by simp
  show "ri_data_dir r = ''testnet/node'' @ decimal i @ ''/data/reth_db''"
    using assms(2) u by (auto simp: reth_builder_def outcome_simps)
  have "ri_instance r = u16_below n ! i + 1"
    using assms(2) s by (auto simp: reth_builder_def add_ovf_small [OF s])
  then show "unat (ri_instance r) = Suc i" using unat_plus_small [OF s] u by simp
qed

text \<open>The node of an index, when it comes up.\<close>

lemma testnet_node_Ok:
  assumes "testnet_node pr L h R False x = (Ok n :: ('e, _) outcome)"
  obtains r rp port fl launch where "reth_builder pr x = (Ok r :: ('e, _) outcome)"
    "R r = Some rp" "rp_auth_port rp = Some port" "get_node_flags pr (ucast x) = (Ok fl :: ('e, _) outcome)"
    "run_node_with_runtime L h (fl\<lparr>fl_engine_port := port\<rparr>) = (Ok launch :: ('e, _) outcome)"
    "n = (r, Some launch)"
  using assms by (auto simp: testnet_node_def outcome_simps split: if_splits)

lemma engine_new_client:
  "engine_new C K Po config = (Ok en :: ('e, _) outcome) \<Longrightarrow>
     parse_url C (ec_engine_url config) = Some (cl_url (en_client en))"
  by (auto simp: engine_new_def engine_client_new_def Let_def outcome_simps)

lemma launch_network:
  assumes "run_node_with_runtime L h fl = (Ok l :: ('e, _) outcome)"
  shows "nc_listen_port (nl_network l) = fl_port fl"
    and "parse_url (la_client L) (engine_url_of (fl_engine_port fl)) = Some (cl_url (en_client (nl_engine l)))"
proof -
  from assms obtain g c config ip where
    ln: "load_node L h fl = (Ok (g, c, config, ip) :: ('e, _) outcome)" and
    en: "engine_new (la_client L) (la_private L) (la_poly L) config = (Ok (nl_engine l) :: ('e, _) outcome)" and
    l: "nl_network l = network_of (la_private L) fl g c config ip"
    by (auto simp: run_node_with_runtime_def outcome_simps)
  show "nc_listen_port (nl_network l) = fl_port fl" by (simp add: l network_of_def)
  have "ec_engine_url config = engine_url_of (fl_engine_port fl)"
    using ln by (auto simp: load_node_def get_engine_config_def Let_def outcome_simps)
  with engine_new_client [OF en]
  show "parse_url (la_client L) (engine_url_of (fl_engine_port fl)) = Some (cl_url (en_client (nl_engine l)))"
    by simp
qed

section \<open>The network it starts\<close>

text \<open>What the i-th entry of a full run is.\<close>

definition node_of_index ::
  "('k, 's, 'a, 'po, 'sh, 'i) launch_api \<Rightarrow> reth_api \<Rightarrow> nat
    \<Rightarrow> reth_instance \<times> ('k, 's, 'a, 'i, 'sh) node_launch option \<Rightarrow> bool" where
  "node_of_index L R i n \<longleftrightarrow>
     (case n of (r, l) \<Rightarrow>
        unat (ri_instance r) = Suc i \<and>
        (case l of None \<Rightarrow> False
         | Some launch \<Rightarrow>
             unat (nc_listen_port (nl_network launch)) = 26600 + 10 * i \<and>
             node_partitions (nl_engine launch) = map (\<lambda>s. decimal i @ ''-quarts'' @ s) store_suffixes \<and>
             parse_url (la_client L) (engine_url_of (the (rp_auth_port (the (R r)))))
               = Some (cl_url (en_client (nl_engine launch)))))"

lemma testnet_node_index:
  assumes "i < unat n" and "unat n \<le> 3893"
    and "testnet_node pr L h R False (u16_below n ! i) = (Ok e :: ('e, _) outcome)"
  shows "node_of_index L R i e"
  using assms(3)
proof (rule testnet_node_Ok)
  fix r rp port fl launch
  assume r: "reth_builder pr (u16_below n ! i) = (Ok r :: ('e, _) outcome)" "R r = Some rp" "rp_auth_port rp = Some port"
    and fl: "get_node_flags pr (ucast (u16_below n ! i)) = (Ok fl :: ('e, _) outcome)"
    and l: "run_node_with_runtime L h (fl\<lparr>fl_engine_port := port\<rparr>) = (Ok launch :: ('e, _) outcome)"
    and e: "e = (r, Some launch)"
  note u = unat_u16_index [OF assms(1)]
  have x: "unat (ucast (u16_below n ! i) :: u64) = i"
    using u assms(1,2) by (simp add: unsigned_ucast_eq take_bit_eq_mod)
  note f = get_node_flags_Ok [OF fl, unfolded x]
  have "unat (26600 :: u64) + 10 * unat (ucast (u16_below n ! i) :: u64) < 65536"
    using x assms(1,2) by simp
  from node_port_Ok [OF this f(1)] have "unat (fl_port fl) = 26600 + 10 * i" using x by simp
  then show ?thesis
    using launch_network [OF l] launch_partitions [OF l] instance_number(1) [OF assms(1) r(1)] r(2,3) f(3)
    by (simp add: node_of_index_def e)
qed

text \<open>
  C25. The test program starts what its header promises: for every index below the number of nodes one
  execution client with the next instance number and one node that is wired to exactly that client,
  listens on its own port and keeps its own stores; no two nodes share a port or a store.
\<close>

theorem testnet_main_starts:
  assumes "testnet_main pr L h R args = (Ok ns :: ('e, _) outcome)"
    and "\<not> ta_only_reth args" and "unat (ta_nodes args) \<le> 3893"
  shows "length ns = unat (ta_nodes args) \<and> (\<forall>i < length ns. node_of_index L R i (ns ! i)) \<and>
         distinct (map (\<lambda>n. nc_listen_port (nl_network (the (snd n)))) ns) \<and>
         (\<forall>i < length ns. \<forall>j < length ns. i \<noteq> j \<longrightarrow>
            set (node_partitions (nl_engine (the (snd (ns ! i))))) \<inter>
            set (node_partitions (nl_engine (the (snd (ns ! j))))) = {})"
proof -
  from assms(1,2) have ok: "testnet_nodes pr L h R False (u16_below (ta_nodes args)) = (Ok ns :: ('e, _) outcome)"
    by (simp add: testnet_main_def split: if_splits)
  have len: "length ns = unat (ta_nodes args)" using testnet_nodes_Ok [OF ok] by (simp add: u16_below_def)
  have nodes: "node_of_index L R i (ns ! i)" if "i < length ns" for i
  proof -
    have "testnet_node pr L h R False (u16_below (ta_nodes args) ! i) = (Ok (ns ! i) :: ('e, _) outcome)"
      using testnet_nodes_Ok [OF ok] that by simp
    with that len assms(3) show ?thesis by (intro testnet_node_index) simp_all
  qed
  have port: "unat (nc_listen_port (nl_network (the (snd (ns ! i))))) = 26600 + 10 * i" if "i < length ns" for i
    using nodes [OF that] by (auto simp: node_of_index_def split: prod.splits option.splits)
  have parts: "node_partitions (nl_engine (the (snd (ns ! i)))) = map (\<lambda>s. decimal i @ ''-quarts'' @ s) store_suffixes"
    if "i < length ns" for i
    using nodes [OF that] by (auto simp: node_of_index_def split: prod.splits option.splits)
  have ports: "distinct (map (\<lambda>n. nc_listen_port (nl_network (the (snd n)))) ns)"
    unfolding distinct_conv_nth
  proof (intro allI impI notI)
    fix i j
    assume i: "i < length (map (\<lambda>n. nc_listen_port (nl_network (the (snd n)))) ns)"
      and j: "j < length (map (\<lambda>n. nc_listen_port (nl_network (the (snd n)))) ns)" and "i \<noteq> j"
      and "map (\<lambda>n. nc_listen_port (nl_network (the (snd n)))) ns ! i
         = map (\<lambda>n. nc_listen_port (nl_network (the (snd n)))) ns ! j"
    then have "nc_listen_port (nl_network (the (snd (ns ! i)))) = nc_listen_port (nl_network (the (snd (ns ! j))))"
      by simp
    then have "26600 + 10 * i = 26600 + 10 * j" using port i j by (metis length_map)
    with \<open>i \<noteq> j\<close> show False by simp
  qed
  have "decimal i @ ''-quarts'' @ s \<noteq> decimal j @ ''-quarts'' @ t" if "i \<noteq> j" for i j s t
    using decimal_dash_inj [of i "''quarts'' @ s" j "''quarts'' @ t"] that by auto
  then show ?thesis using len nodes ports parts by auto
qed

text \<open>Two nodes that find the same key, each beside its own execution client.\<close>

definition plain_reth :: reth_api where
  "plain_reth r = Some \<lparr>rp_stdout = True, rp_auth_port = Some (8550 + ri_instance r)\<rparr>"

lemma pair_node:
  assumes "unat x < 1000"
  shows "\<exists>n. testnet_node Debug pair_launch (pair_host 5 ''x'') plain_reth False x = (Ok n :: (unit, _) outcome)"
proof -
  have "unat x + unat (1 :: u16) < 2 ^ LENGTH(16)" using assms by simp
  then have a: "add_ovf Debug x 1 = (Ok (x + 1) :: (unit, _) outcome)" by (rule add_ovf_small)
  have "unat (ucast x :: u64) < 1000" using assms by (simp add: unsigned_ucast_eq take_bit_eq_mod)
  from small_node_flags [OF this, of Debug, where 'e = unit] obtain fl where
    fl: "get_node_flags Debug (ucast x) = (Ok fl :: (unit, _) outcome)" by blast
  obtain l where "run_node_with_runtime pair_launch (pair_host 5 ''x'') (fl\<lparr>fl_engine_port := 8550 + (x + 1)\<rparr>)
      = (Ok l :: (unit, _) outcome)"
    using pair_launches_at [OF fl, of 5 "''x''" "8550 + (x + 1)"] by auto
  with fl show ?thesis by (simp add: testnet_node_def reth_builder_def a plain_reth_def)
qed

lemma pair_level: "la_known_level pair_launch s"
  by (simp add: pair_launch_def)

theorem testnet_main_starts_witness:
  "\<exists>ns. testnet_main Debug pair_launch (pair_host 5 ''x'') plain_reth \<lparr>ta_nodes = 2, ta_only_reth = False\<rparr>
          = (Ok ns :: (unit, _) outcome) \<and>
        length ns = 2 \<and> distinct (map (\<lambda>n. nc_listen_port (nl_network (the (snd n)))) ns)"
proof -
  have two: "u16_below 2 = [0, 1]" by (simp add: u16_below_def upt_rec)
  obtain n0 n1 where "testnet_node Debug pair_launch (pair_host 5 ''x'') plain_reth False 0 = (Ok n0 :: (unit, _) outcome)"
    "testnet_node Debug pair_launch (pair_host 5 ''x'') plain_reth False 1 = (Ok n1 :: (unit, _) outcome)"
    using pair_node [of 0] pair_node [of 1] by auto
  then obtain ns where ns: "testnet_main Debug pair_launch (pair_host 5 ''x'') plain_reth
      \<lparr>ta_nodes = 2, ta_only_reth = False\<rparr> = (Ok ns :: (unit, _) outcome)"
    by (auto simp: testnet_main_def two pair_level)
  have "\<not> ta_only_reth \<lparr>ta_nodes = 2, ta_only_reth = False\<rparr>"
    "unat (ta_nodes \<lparr>ta_nodes = 2, ta_only_reth = False\<rparr>) \<le> 3893" by simp_all
  from testnet_main_starts [OF ns this] ns show ?thesis by auto
qed

end
