(* ===== verification/Engine_Run.thy ===== *)
theory Engine_Run
  imports Node_Launch
begin

text \<open>
  \<open>Engine::start\<close> and \<open>run\<close> of \<open>node/src/engine.rs\<close>, the start of the syncer's resolver, and the ends of
  \<open>run_node\<close>: which task gets which channel, and who waits for whom. The tasks themselves are the
  components; \<open>try_join_all\<close> is the futures library's.
\<close>

section \<open>Waiting for tasks\<close>

text \<open>
  \<open>try_join_all\<close>: over once a task ends with an error, or when every one has ended without.
\<close>

datatype 't joined = Waiting "'t list" | Failed 't | AllDone

definition try_join_all :: "'t list \<Rightarrow> 't joined" where
  "try_join_all ts = (if ts = [] then AllDone else Waiting ts)"

fun join_step :: "'t \<Rightarrow> bool \<Rightarrow> 't joined \<Rightarrow> 't joined" where
  "join_step t ok (Waiting ts) =
     (if t \<notin> set ts then Waiting ts else if ok then try_join_all (remove1 t ts) else Failed t)"
| "join_step t ok j = j"

fun join_over :: "'t joined \<Rightarrow> bool" where
  "join_over (Waiting ts) = False"
| "join_over _ = True"

section \<open>The engine's tasks\<close>

datatype engine_task = ApplicationTask | BufferTask | SyncerTask | SimplexTask

record 'n engine_networks =
  nw_pending :: 'n
  nw_recovered :: 'n
  nw_resolver :: 'n
  nw_broadcast :: 'n
  nw_backfill :: 'n

text \<open>What a task is started with; the finalizer's channel is made here.\<close>

datatype 'n task_end =
    Network 'n
  | SyncerMailbox
  | OrchestratorHandle
  | BufferMailbox
  | FinalizerSender
  | FinalizerReceiver

definition engine_run :: "'n engine_networks \<Rightarrow> (engine_task \<times> 'n task_end list) list" where
  "engine_run nw =
     [(ApplicationTask, [SyncerMailbox, OrchestratorHandle, FinalizerSender, FinalizerReceiver]),
      (BufferTask, [Network (nw_broadcast nw)]),
      (SyncerTask, [BufferMailbox, Network (nw_backfill nw), FinalizerSender]),
      (SimplexTask, [Network (nw_pending nw), Network (nw_recovered nw), Network (nw_resolver nw)])]"

definition engine_join :: "engine_task joined" where
  "engine_join = try_join_all [ApplicationTask, BufferTask, SyncerTask, SimplexTask]"

text \<open>The resolver the syncer starts on the backfill network, in milliseconds.\<close>

record 'k resolver_config =
  rv_coordinator_peers :: "'k list"
  rv_coordinator_set :: u64
  rv_mailbox_size :: u64
  rv_public_key :: 'k
  rv_rate_limit :: u32
  rv_initial :: u64
  rv_timeout :: u64
  rv_fetch_retry_timeout :: u64
  rv_priority_requests :: bool
  rv_priority_responses :: bool

definition syncer_resolver :: "('k, 'i, 'sh) syncer_config \<Rightarrow> 'k resolver_config" where
  "syncer_resolver sc =
     \<lparr>rv_coordinator_peers = registry_peers (sc_registry sc),
      rv_coordinator_set = registry_peer_set_id (sc_registry sc),
      rv_mailbox_size = sc_mailbox_size sc, rv_public_key = sc_public_key sc,
      rv_rate_limit = sc_backfill_quota sc, rv_initial = 1000, rv_timeout = 2000,
      rv_fetch_retry_timeout = 100, rv_priority_requests = False, rv_priority_responses = False\<rparr>"

section \<open>The node\<close>

text \<open>
  The node waits for the network and the engine. The engine's task logs how its own join ended and
  returns; so its handle never carries an error of one of its tasks.
\<close>

datatype node_task = P2pTask | EngineTask

record supervision =
  sv_engine :: "engine_task joined"
  sv_node :: "node_task joined"

definition node_join :: supervision where
  "node_join = \<lparr>sv_engine = engine_join, sv_node = try_join_all [P2pTask, EngineTask]\<rparr>"

datatype task_event = EngineTaskEnds engine_task bool | P2pEnds bool

fun supervise :: "task_event \<Rightarrow> supervision \<Rightarrow> supervision" where
  "supervise (EngineTaskEnds t ok) sv =
     (let en = join_step t ok (sv_engine sv)
      in \<lparr>sv_engine = en,
          sv_node = (if join_over en then join_step EngineTask True (sv_node sv) else sv_node sv)\<rparr>)"
| "supervise (P2pEnds ok) sv = sv\<lparr>sv_node := join_step P2pTask ok (sv_node sv)\<rparr>"

definition supervise_run :: "task_event list \<Rightarrow> supervision" where
  "supervise_run evs = fold supervise evs node_join"

section \<open>Who ends when\<close>

text \<open>Each task ends once.\<close>

fun ended_task :: "task_event \<Rightarrow> engine_task option" where
  "ended_task (EngineTaskEnds t ok) = Some t"
| "ended_task (P2pEnds ok) = None"

definition ends_once :: "task_event list \<Rightarrow> bool" where
  "ends_once evs \<longleftrightarrow> distinct (List.map_filter ended_task evs)"

lemma ended_iff: "t \<in> set (List.map_filter ended_task evs) \<longleftrightarrow> (\<exists>ok. EngineTaskEnds t ok \<in> set evs)"
proof (induction evs)
  case (Cons ev evs)
  then show ?case by (cases ev) (auto simp: List.map_filter_simps)
qed (simp add: List.map_filter_simps)

abbreviation "engine_tasks \<equiv> [ApplicationTask, BufferTask, SyncerTask, SimplexTask]"

lemma all_engine_tasks: "t \<in> set engine_tasks"
  by (cases t) simp_all

text \<open>
  The engine's join over what has ended so far: waiting for the tasks that have not, unless one ended
  with an error.
\<close>

definition engine_state :: "task_event list \<Rightarrow> engine_task joined \<Rightarrow> bool" where
  "engine_state evs en \<longleftrightarrow>
     (case en of
        Waiting ts \<Rightarrow> (\<forall>t. EngineTaskEnds t False \<notin> set evs) \<and>
          ts \<noteq> [] \<and> distinct ts \<and> (\<forall>t. t \<in> set ts \<longleftrightarrow> EngineTaskEnds t True \<notin> set evs)
      | Failed t \<Rightarrow> EngineTaskEnds t False \<in> set evs
      | AllDone \<Rightarrow> (\<forall>t. EngineTaskEnds t True \<in> set evs))"

lemma engine_state_step:
  assumes "engine_state evs en" and "\<forall>ok. EngineTaskEnds t ok \<notin> set evs"
  shows "engine_state (evs @ [EngineTaskEnds t ok]) (join_step t ok en)"
proof (cases en)
  case (Waiting ts)
  with assms have ts: "\<forall>u. EngineTaskEnds u False \<notin> set evs" "distinct ts"
    "\<forall>u. u \<in> set ts \<longleftrightarrow> EngineTaskEnds u True \<notin> set evs" by (auto simp: engine_state_def)
  with assms(2) have t: "t \<in> set ts" by blast
  show ?thesis
  proof (cases ok)
    case True
    have rest: "u \<in> set (remove1 t ts) \<longleftrightarrow> u \<noteq> t \<and> EngineTaskEnds u True \<notin> set evs" for u
      using ts by auto
    show ?thesis
    proof (cases "remove1 t ts = []")
      case empty: True
      with rest have "u \<noteq> t \<Longrightarrow> EngineTaskEnds u True \<in> set evs" for u by fastforce
      with True t Waiting empty show ?thesis by (auto simp: engine_state_def try_join_all_def)
    qed (use True t ts rest Waiting in \<open>auto simp: engine_state_def try_join_all_def distinct_remove1\<close>)
  qed (use t Waiting in \<open>simp add: engine_state_def\<close>)
qed (use assms in \<open>auto simp: engine_state_def\<close>)

text \<open>While the network runs, the node waits for it, and for the engine until that is over.\<close>

definition node_state :: "supervision \<Rightarrow> bool" where
  "node_state sv \<longleftrightarrow>
     sv_node sv = Waiting (if join_over (sv_engine sv) then [P2pTask] else [P2pTask, EngineTask])"

lemma supervise_state:
  assumes "ends_once evs" and "\<forall>ok. P2pEnds ok \<notin> set evs"
  shows "engine_state evs (sv_engine (supervise_run evs)) \<and> node_state (supervise_run evs)"
  using assms
proof (induction evs rule: rev_induct)
  case Nil
  show ?case
    using all_engine_tasks
    by (simp add: supervise_run_def node_join_def engine_join_def try_join_all_def engine_state_def node_state_def)
next
  case (snoc ev evs)
  from snoc.prems(2) obtain t ok where ev: "ev = EngineTaskEnds t ok" by (cases ev) auto
  have once: "ends_once evs" and new: "\<forall>ok. EngineTaskEnds t ok \<notin> set evs"
    using snoc.prems(1) ended_iff [of t evs]
    by (auto simp: ends_once_def ev List.map_filter_def)
  with snoc have IH: "engine_state evs (sv_engine (supervise_run evs))" "node_state (supervise_run evs)"
    by simp_all
  have run: "supervise_run (evs @ [EngineTaskEnds t ok]) = supervise (EngineTaskEnds t ok) (supervise_run evs)"
    by (simp add: supervise_run_def)
  from engine_state_step [OF IH(1) new, of ok] IH(2) show ?case
    unfolding ev run
    by (cases "sv_engine (supervise_run evs)") (auto simp: node_state_def Let_def try_join_all_def)
qed

text \<open>
  C24. A failed engine does not end the node: whichever of its four tasks stop, in whatever order, the
  engine is over exactly when one of them ended with an error or all of them ended, and as long as
  the network runs the node waits for it, no matter how the engine ended.
\<close>

theorem node_outlives_engine:
  assumes "ends_once evs" and "\<forall>ok. P2pEnds ok \<notin> set evs"
  shows "(join_over (sv_engine (supervise_run evs)) \<longleftrightarrow>
            (\<exists>t. EngineTaskEnds t False \<in> set evs) \<or> (\<forall>t. EngineTaskEnds t True \<in> set evs)) \<and>
         (\<exists>ts. sv_node (supervise_run evs) = Waiting ts \<and> P2pTask \<in> set ts)"
proof -
  from supervise_state [OF assms]
  have en: "engine_state evs (sv_engine (supervise_run evs))" and nd: "node_state (supervise_run evs)" by simp_all
  have "join_over (sv_engine (supervise_run evs)) \<longleftrightarrow>
      (\<exists>t. EngineTaskEnds t False \<in> set evs) \<or> (\<forall>t. EngineTaskEnds t True \<in> set evs)"
  proof (cases "sv_engine (supervise_run evs)")
    case (Waiting ts)
    with en obtain t where "t \<in> set ts" "EngineTaskEnds t True \<notin> set evs"
      by (cases ts) (auto simp: engine_state_def)
    with en Waiting show ?thesis by (auto simp: engine_state_def)
  qed (use en in \<open>auto simp: engine_state_def\<close>)
  with nd show ?thesis by (auto simp: node_state_def)
qed

theorem node_outlives_engine_witness:
  "join_over (sv_engine (supervise_run [EngineTaskEnds BufferTask True, EngineTaskEnds SyncerTask False])) \<and>
   sv_node (supervise_run [EngineTaskEnds BufferTask True, EngineTaskEnds SyncerTask False]) = Waiting [P2pTask]"
proof -
  let ?evs = "[EngineTaskEnds BufferTask True, EngineTaskEnds SyncerTask False]"
  have "ends_once ?evs" "\<forall>ok. P2pEnds ok \<notin> set ?evs"
    by (simp_all add: ends_once_def List.map_filter_simps)
  from node_outlives_engine [OF this] show ?thesis
    by (simp add: supervise_run_def node_join_def engine_join_def try_join_all_def Let_def)
qed

end
