(* ===== verification/Metrics.thy ===== *)
theory Metrics
  imports Summit_Prelude
begin

text \<open>
  \<open>node/src/prom\<close>: the hooks that refresh the gauges before a scrape, the recorder that is installed
  once for the process, and the endpoint that serves it. The process-wide recorder of the \<open>metrics\<close>
  library is a state that only that library's operations touch; they are parameters.
\<close>

section \<open>The metrics library\<close>

datatype metric_kind = Gauge | Counter

datatype metric_unit = Bytes

record metric_description =
  ds_kind :: metric_kind
  ds_name :: string
  ds_unit :: "metric_unit option"
  ds_text :: string

text \<open>
  What the macros \<open>gauge!\<close>, \<open>counter!\<close>, \<open>describe_gauge!\<close> and \<open>describe_counter!\<close>, the collector of
  process metrics, \<open>Stack::install\<close> with a prefix layer over a fresh Prometheus recorder (\<open>None\<close>: a
  recorder is installed already) and the recorder's handle do; and two observations: whether
  there is a recorder, and the names that have a description (a recorder keeps the first it is given for
  a name).
\<close>

record ('g, 'h, 'f) metrics_api =
  gauge_set :: "string \<Rightarrow> 'f \<Rightarrow> 'g \<Rightarrow> 'g"
  counter_absolute :: "string \<Rightarrow> u64 \<Rightarrow> 'g \<Rightarrow> 'g"
  describe :: "metric_description \<Rightarrow> 'g \<Rightarrow> 'g"
  collector_describe :: "'g \<Rightarrow> 'g"
  stack_install :: "string \<Rightarrow> 'g \<Rightarrow> ('h \<times> 'g) option"
  render :: "'h \<Rightarrow> 'g \<Rightarrow> string"
  as_f64 :: "u64 \<Rightarrow> 'f"
  has_recorder :: "'g \<Rightarrow> bool"
  described :: "'g \<Rightarrow> string set"

text \<open>The features and the platform the program is built for.\<close>

record build =
  cfg_jemalloc :: bool
  cfg_unix :: bool
  cfg_linux :: bool

text \<open>What the hooks find when they run: \<open>None\<close> where reading fails.\<close>

record jemalloc_stats =
  js_active :: "u64 option"
  js_allocated :: "u64 option"
  js_mapped :: "u64 option"
  js_metadata :: "u64 option"
  js_resident :: "u64 option"
  js_retained :: "u64 option"

record io_stats =
  io_rchar :: u64
  io_wchar :: u64
  io_syscr :: u64
  io_syscw :: u64
  io_read_bytes :: u64
  io_write_bytes :: u64
  io_cancelled_write_bytes :: u64

record 'g system =
  os_collect :: "'g \<Rightarrow> 'g"
  os_epoch :: bool
  os_jemalloc :: jemalloc_stats
  os_process :: "io_stats option option"

section \<open>Hooks\<close>

type_synonym 'g hook = "'g system \<Rightarrow> 'g \<Rightarrow> 'g"

definition gauge_read :: "('g, 'h, 'f) metrics_api \<Rightarrow> string \<Rightarrow> u64 option \<Rightarrow> 'g \<Rightarrow> 'g" where
  "gauge_read A name r g = (case r of None \<Rightarrow> g | Some v \<Rightarrow> gauge_set A name (as_f64 A v) g)"

definition collect_memory_stats :: "build \<Rightarrow> ('g, 'h, 'f) metrics_api \<Rightarrow> 'g hook" where
  "collect_memory_stats b A os g =
     (if cfg_jemalloc b \<and> cfg_unix b \<and> os_epoch os then
        (let s = os_jemalloc os;
             g = gauge_read A ''jemalloc.active'' (js_active s) g;
             g = gauge_read A ''jemalloc.allocated'' (js_allocated s) g;
             g = gauge_read A ''jemalloc.mapped'' (js_mapped s) g;
             g = gauge_read A ''jemalloc.metadata'' (js_metadata s) g;
             g = gauge_read A ''jemalloc.resident'' (js_resident s) g
         in gauge_read A ''jemalloc.retained'' (js_retained s) g)
      else g)"

definition collect_io_stats :: "build \<Rightarrow> ('g, 'h, 'f) metrics_api \<Rightarrow> 'g hook" where
  "collect_io_stats b A os g =
     (if \<not> cfg_linux b then g
      else case os_process os of
        None \<Rightarrow> g
      | Some None \<Rightarrow> g
      | Some (Some io) \<Rightarrow>
          (let g = counter_absolute A ''io.rchar'' (io_rchar io) g;
               g = counter_absolute A ''io.wchar'' (io_wchar io) g;
               g = counter_absolute A ''io.syscr'' (io_syscr io) g;
               g = counter_absolute A ''io.syscw'' (io_syscw io) g;
               g = counter_absolute A ''io.read_bytes'' (io_read_bytes io) g;
               g = counter_absolute A ''io.write_bytes'' (io_write_bytes io) g
           in counter_absolute A ''io.cancelled_write_bytes'' (io_cancelled_write_bytes io) g))"

record 'g hooks_builder =
  hb_hooks :: "'g hook list"

record 'g hooks =
  hk_inner :: "'g hook list"

definition hooks_builder :: "build \<Rightarrow> ('g, 'h, 'f) metrics_api \<Rightarrow> 'g hooks_builder" where
  "hooks_builder b A = \<lparr>hb_hooks = [os_collect, collect_memory_stats b A, collect_io_stats b A]\<rparr>"

definition with_boxed_hook :: "'g hooks_builder \<Rightarrow> 'g hook \<Rightarrow> 'g hooks_builder" where
  "with_boxed_hook hb hook = hb\<lparr>hb_hooks := hb_hooks hb @ [hook]\<rparr>"

definition with_hook :: "'g hooks_builder \<Rightarrow> 'g hook \<Rightarrow> 'g hooks_builder" where
  "with_hook hb hook = with_boxed_hook hb hook"

definition install_hook :: "'g hooks_builder \<Rightarrow> (unit \<Rightarrow> 'g hook) \<Rightarrow> 'g hooks_builder" where
  "install_hook hb f = with_hook hb (f ())"

definition hooks_build :: "'g hooks_builder \<Rightarrow> 'g hooks" where
  "hooks_build hb = \<lparr>hk_inner = hb_hooks hb\<rparr>"

text \<open>\<open>iter().for_each(|hook| hook())\<close>.\<close>

definition run_hooks :: "'g hooks \<Rightarrow> 'g hook" where
  "run_hooks hs os g = fold (\<lambda>hook. hook os) (hk_inner hs) g"

section \<open>The recorder\<close>

record 'h prometheus_recorder =
  pr_handle :: 'h
  pr_upkeep :: bool

text \<open>A \<open>LazyLock\<close>; it is poisoned when its initializer panics.\<close>

datatype 'h lazy_recorder = Uninit | Ready "'h prometheus_recorder" | Poisoned

record ('g, 'h) metric_process =
  mp_global :: 'g
  mp_static :: "'h lazy_recorder"
  mp_upkeep_tasks :: "'h list"

definition prometheus_install ::
  "('g, 'h, 'f) metrics_api \<Rightarrow> 'g \<Rightarrow> (string, 'h prometheus_recorder \<times> 'g) outcome" where
  "prometheus_install A g =
     and_then (ok_or ''Couldn't set metrics recorder.'' (stack_install A ''seismic-bft'' g)) (\<lambda>(h, g').
       Ok (\<lparr>pr_handle = h, pr_upkeep = False\<rparr>, g'))"

definition install_prometheus_recorder ::
  "('g, 'h, 'f) metrics_api \<Rightarrow> ('g, 'h) metric_process
    \<Rightarrow> ('g, 'h) metric_process \<times> ('e, 'h prometheus_recorder) outcome" where
  "install_prometheus_recorder A p =
     (case mp_static p of
        Ready r \<Rightarrow> (p, Ok r)
      | Poisoned \<Rightarrow> (p, Panic (ExpectFailed ''poisoned''))
      | Uninit \<Rightarrow>
          (case prometheus_install A (mp_global p) of
             Ok (r, g) \<Rightarrow> (p\<lparr>mp_global := g, mp_static := Ready r\<rparr>, Ok r)
           | Err e \<Rightarrow> (p\<lparr>mp_static := Poisoned\<rparr>, Panic (ExpectFailed ''unwrap''))
           | Panic q \<Rightarrow> (p\<lparr>mp_static := Poisoned\<rparr>, Panic q)))"

text \<open>\<open>compare_exchange(false, true)\<close> decides which caller spawns the task.\<close>

definition spawn_upkeep :: "('g, 'h) metric_process \<Rightarrow> ('g, 'h) metric_process" where
  "spawn_upkeep p =
     (case mp_static p of
        Ready r \<Rightarrow>
          if pr_upkeep r then p
          else p\<lparr>mp_static := Ready (r\<lparr>pr_upkeep := True\<rparr>),
                 mp_upkeep_tasks := pr_handle r # mp_upkeep_tasks p\<rparr>
      | _ \<Rightarrow> p)"

section \<open>Descriptions\<close>

definition gauge_description :: "string \<Rightarrow> metric_unit option \<Rightarrow> string \<Rightarrow> metric_description" where
  "gauge_description n u t = \<lparr>ds_kind = Gauge, ds_name = n, ds_unit = u, ds_text = t\<rparr>"

definition counter_description :: "string \<Rightarrow> metric_unit option \<Rightarrow> string \<Rightarrow> metric_description" where
  "counter_description n u t = \<lparr>ds_kind = Counter, ds_name = n, ds_unit = u, ds_text = t\<rparr>"

definition db_metrics :: "metric_description list" where
  "db_metrics =
     [gauge_description ''db.table_size'' (Some Bytes) ''The size of a database table (in bytes)'',
      gauge_description ''db.table_pages'' None ''The number of database pages for a table'',
      gauge_description ''db.table_entries'' None ''The number of entries for a table'',
      gauge_description ''db.freelist'' None ''The number of pages on the freelist'',
      gauge_description ''db.page_size'' (Some Bytes) ''The size of a database page (in bytes)'',
      gauge_description ''db.timed_out_not_aborted_transactions'' None
        ''Number of timed out transactions that were not aborted by the user yet'']"

definition static_file_metrics :: "metric_description list" where
  "static_file_metrics =
     [gauge_description ''static_files.segment_size'' (Some Bytes) ''The size of a static file segment'',
      gauge_description ''static_files.segment_files'' None
        ''The number of files for a static file segment'',
      gauge_description ''static_files.segment_entries'' None
        ''The number of entries for a static file segment'']"

definition memory_metrics :: "build \<Rightarrow> metric_description list" where
  "memory_metrics b =
     (if cfg_jemalloc b \<and> cfg_unix b then
        [gauge_description ''jemalloc.active'' (Some Bytes)
           ''Total number of bytes in active pages allocated by the application'',
         gauge_description ''jemalloc.allocated'' (Some Bytes)
           ''Total number of bytes allocated by the application'',
         gauge_description ''jemalloc.mapped'' (Some Bytes)
           ''Total number of bytes in active extents mapped by the allocator'',
         gauge_description ''jemalloc.metadata'' (Some Bytes)
           ''Total number of bytes dedicated to jemalloc metadata'',
         gauge_description ''jemalloc.resident'' (Some Bytes)
           ''Total number of bytes in physically resident data pages mapped by the allocator'',
         gauge_description ''jemalloc.retained'' (Some Bytes)
           (''Total number of bytes in virtual memory mappings that were retained rather than '' @
            ''being returned to the operating system via e.g. munmap(2)'')]
      else [])"

definition io_metrics :: "build \<Rightarrow> metric_description list" where
  "io_metrics b =
     (if cfg_linux b then
        [counter_description ''io.rchar'' None ''Characters read'',
         counter_description ''io.wchar'' None ''Characters written'',
         counter_description ''io.syscr'' None ''Read syscalls'',
         counter_description ''io.syscw'' None ''Write syscalls'',
         counter_description ''io.read_bytes'' (Some Bytes) ''Bytes read'',
         counter_description ''io.write_bytes'' (Some Bytes) ''Bytes written'',
         counter_description ''io.cancelled_write_bytes'' (Some Bytes) ''Cancelled write bytes'']
      else [])"

definition describe_all :: "('g, 'h, 'f) metrics_api \<Rightarrow> metric_description list \<Rightarrow> 'g \<Rightarrow> 'g" where
  "describe_all A ds g = fold (describe A) ds g"

section \<open>The server\<close>

record ('a, 'g) metric_server_config =
  msc_listen_addr :: 'a
  msc_hooks :: "'g hooks"

record ('a, 'g) metric_server =
  ms_config :: "('a, 'g) metric_server_config"

text \<open>
  The spawned accept loop with the service it hands to its connections; \<open>ep_accepting\<close> ends when the
  loop's task panics. A connection keeps the handle its service captured.
\<close>

record ('g, 'h) endpoint =
  ep_hook :: "'g hook"
  ep_accepting :: bool
  ep_connections :: "'h list"

record response =
  rs_content_type :: string
  rs_body :: string

datatype 'g endpoint_event = AcceptFailed | Accepted | Requested nat "'g system"

fun endpoint_step ::
  "('g, 'h, 'f) metrics_api \<Rightarrow> 'g endpoint_event \<Rightarrow> ('g, 'h) endpoint \<times> ('g, 'h) metric_process
    \<Rightarrow> (('g, 'h) endpoint \<times> ('g, 'h) metric_process) \<times> response list" where
  "endpoint_step A AcceptFailed (ep, p) = ((ep, p), [])"
| "endpoint_step A Accepted (ep, p) =
     (if ep_accepting ep then
        (case install_prometheus_recorder A p :: ('g, 'h) metric_process \<times> (unit, 'h prometheus_recorder) outcome of
           (p', Ok r) \<Rightarrow> ((ep\<lparr>ep_connections := ep_connections ep @ [pr_handle r]\<rparr>, p'), [])
         | (p', _) \<Rightarrow> ((ep\<lparr>ep_accepting := False\<rparr>, p'), []))
      else ((ep, p), []))"
| "endpoint_step A (Requested i os) (ep, p) =
     (if i < length (ep_connections ep) then
        (let g = ep_hook ep os (mp_global p)
         in ((ep, p\<lparr>mp_global := g\<rparr>),
             [\<lparr>rs_content_type = ''text/plain'', rs_body = render A (ep_connections ep ! i) g\<rparr>]))
      else ((ep, p), []))"

fun endpoint_run ::
  "('g, 'h, 'f) metrics_api \<Rightarrow> 'g endpoint_event list \<Rightarrow> ('g, 'h) endpoint \<times> ('g, 'h) metric_process
    \<Rightarrow> (('g, 'h) endpoint \<times> ('g, 'h) metric_process) \<times> response list" where
  "endpoint_run A [] c = (c, [])"
| "endpoint_run A (ev # evs) c =
     (let (c1, rs1) = endpoint_step A ev c; (c2, rs2) = endpoint_run A evs c1 in (c2, rs1 @ rs2))"

text \<open>An error is the list of its contexts, the last one added first.\<close>

definition start_endpoint :: "('a \<Rightarrow> bool) \<Rightarrow> 'a \<Rightarrow> 'g hook \<Rightarrow> (string list, ('g, 'h) endpoint) outcome" where
  "start_endpoint binds listen_addr hook =
     (if binds listen_addr then Ok \<lparr>ep_hook = hook, ep_accepting = True, ep_connections = []\<rparr>
      else Err [''Could not bind to address''])"

text \<open>
  The accept loop runs on its own task as soon as it is spawned: \<open>early\<close> is what it handles before the
  descriptions are made.
\<close>

definition serve ::
  "build \<Rightarrow> ('g, 'h, 'f) metrics_api \<Rightarrow> ('a \<Rightarrow> bool) \<Rightarrow> ('a, 'g) metric_server \<Rightarrow> 'g endpoint_event list
    \<Rightarrow> ('g, 'h) metric_process
    \<Rightarrow> (string list, (('g, 'h) endpoint \<times> ('g, 'h) metric_process) \<times> response list) outcome" where
  "serve b A binds ms early p =
     and_then (map_err (Cons ''Could not start Prometheus endpoint'')
                 (start_endpoint binds (msc_listen_addr (ms_config ms)) (run_hooks (msc_hooks (ms_config ms))))) (\<lambda>ep.
       let ((ep', p'), rs) = endpoint_run A early (ep, p);
           g = describe_all A db_metrics (mp_global p');
           g = describe_all A static_file_metrics g;
           g = collector_describe A g;
           g = describe_all A (memory_metrics b) g;
           g = describe_all A (io_metrics b) g
       in Ok ((ep', p'\<lparr>mp_global := g\<rparr>), rs))"

text \<open>How \<open>Command::run_node\<close> starts it.\<close>

definition start_prometheus ::
  "build \<Rightarrow> ('g, 'h, 'f) metrics_api \<Rightarrow> (string \<Rightarrow> 'a option) \<Rightarrow> ('a \<Rightarrow> bool) \<Rightarrow> u16 \<Rightarrow> 'g endpoint_event list
    \<Rightarrow> ('g, 'h) metric_process
    \<Rightarrow> ('e, (('g, 'h) endpoint \<times> ('g, 'h) metric_process) \<times> response list) outcome" where
  "start_prometheus b A parse_addr binds prom_port early p =
     and_then (expect_some ''unwrap'' (parse_addr (''0.0.0.0:'' @ decimal (unat prom_port)))) (\<lambda>listen_addr.
       case serve b A binds
              \<lparr>ms_config = \<lparr>msc_listen_addr = listen_addr, msc_hooks = hooks_build (hooks_builder b A)\<rparr>\<rparr> early p of
         Ok r \<Rightarrow> Ok r
       | Err e \<Rightarrow> Panic (ExpectFailed ''unwrap'')
       | Panic q \<Rightarrow> Panic q)"

end
