(* ===== verification/Metrics_Properties.thy ===== *)
theory Metrics_Properties
  imports Metrics
begin

text \<open>
  The metrics endpoint: every connection is answered from the one recorder after the hooks have run;
  the recorder is installed by the first connection, so that the descriptions the server makes when
  it starts are lost; its upkeep is never started.
\<close>

section \<open>What the metrics library promises\<close>

text \<open>
  Without a recorder every operation is a no-op and nothing is described; a recorder can be installed
  once, and starts without descriptions; only the description macros change them.
\<close>

definition quiet :: "('g, 'h, 'f) metrics_api \<Rightarrow> ('g \<Rightarrow> 'g) \<Rightarrow> bool" where
  "quiet A f \<longleftrightarrow> (\<forall>g. has_recorder A (f g) = has_recorder A g \<and> described A (f g) = described A g)"

definition metrics_laws :: "('g, 'h, 'f) metrics_api \<Rightarrow> bool" where
  "metrics_laws A \<longleftrightarrow>
     (\<forall>d g. has_recorder A (describe A d g) = has_recorder A g \<and>
            described A (describe A d g) = (if has_recorder A g then insert (ds_name d) (described A g) else {})) \<and>
     (\<forall>g. has_recorder A (collector_describe A g) = has_recorder A g \<and>
          described A g \<subseteq> described A (collector_describe A g)) \<and>
     (\<forall>n v. quiet A (gauge_set A n v)) \<and> (\<forall>n v. quiet A (counter_absolute A n v)) \<and>
     (\<forall>g. \<not> has_recorder A g \<longrightarrow> described A g = {}) \<and>
     (\<forall>pre g. \<not> has_recorder A g \<longrightarrow>
        (\<exists>h g'. stack_install A pre g = Some (h, g') \<and> has_recorder A g' \<and> described A g' = {}))"

definition system_ok :: "('g, 'h, 'f) metrics_api \<Rightarrow> 'g system \<Rightarrow> bool" where
  "system_ok A os \<longleftrightarrow> quiet A (os_collect os)"

fun event_quiet :: "('g, 'h, 'f) metrics_api \<Rightarrow> 'g endpoint_event \<Rightarrow> bool" where
  "event_quiet A (Requested i os) = system_ok A os"
| "event_quiet A _ = True"

lemma quiet_compose: "quiet A f \<Longrightarrow> quiet A g \<Longrightarrow> quiet A (\<lambda>x. f (g x))"
  by (simp add: quiet_def)

lemma quiet_id: "quiet A (\<lambda>x. x)"
  by (simp add: quiet_def)

lemma metrics_lawsD:
  assumes "metrics_laws A"
  shows "has_recorder A (describe A d g) = has_recorder A g"
    and "described A (describe A d g) = (if has_recorder A g then insert (ds_name d) (described A g) else {})"
    and "has_recorder A (collector_describe A g) = has_recorder A g"
    and "described A g \<subseteq> described A (collector_describe A g)"
    and "quiet A (gauge_set A n v)" and "quiet A (counter_absolute A n w)"
    and "\<not> has_recorder A g \<Longrightarrow> described A g = {}"
    and "\<not> has_recorder A g \<Longrightarrow> \<exists>h g'. stack_install A pre g = Some (h, g') \<and> has_recorder A g' \<and> described A g' = {}"
  using assms unfolding metrics_laws_def by blast+

lemma gauge_read_quiet: "metrics_laws A \<Longrightarrow> quiet A (gauge_read A n r)"
  using metrics_lawsD(5) [of A n] by (cases r) (simp_all add: gauge_read_def quiet_def)

section \<open>Hooks\<close>

lemma collect_memory_stats_quiet: "metrics_laws A \<Longrightarrow> quiet A (collect_memory_stats b A os)"
  using gauge_read_quiet [of A] by (simp add: collect_memory_stats_def quiet_def Let_def)

lemma collect_io_stats_quiet: "metrics_laws A \<Longrightarrow> quiet A (collect_io_stats b A os)"
  using metrics_lawsD(6) [of A] by (simp add: collect_io_stats_def quiet_def Let_def split: option.split)

text \<open>The default hooks, in the order they run.\<close>

definition refreshed :: "build \<Rightarrow> ('g, 'h, 'f) metrics_api \<Rightarrow> 'g system \<Rightarrow> 'g \<Rightarrow> 'g" where
  "refreshed b A os g = collect_io_stats b A os (collect_memory_stats b A os (os_collect os g))"

lemma default_hooks: "run_hooks (hooks_build (hooks_builder b A)) = refreshed b A"
  by (intro ext) (simp add: run_hooks_def hooks_build_def hooks_builder_def refreshed_def)

lemma refreshed_quiet: "metrics_laws A \<Longrightarrow> system_ok A os \<Longrightarrow> quiet A (refreshed b A os)"
  using collect_memory_stats_quiet [of A b os] collect_io_stats_quiet [of A b os]
  by (simp add: refreshed_def quiet_def system_ok_def)

section \<open>The endpoint\<close>

text \<open>
  The accept loop lives, and either nobody has connected and there is no recorder, or there is the one
  recorder that every connection serves.
\<close>

definition endpoint_inv ::
  "('g, 'h, 'f) metrics_api \<Rightarrow> ('g, 'h) endpoint \<times> ('g, 'h) metric_process \<Rightarrow> bool" where
  "endpoint_inv A = (\<lambda>(ep, p). ep_accepting ep \<and> (\<forall>os. system_ok A os \<longrightarrow> quiet A (ep_hook ep os)) \<and>
     (case mp_static p of
        Uninit \<Rightarrow> \<not> has_recorder A (mp_global p) \<and> ep_connections ep = []
      | Ready r \<Rightarrow> has_recorder A (mp_global p) \<and> set (ep_connections ep) \<subseteq> {pr_handle r}
      | Poisoned \<Rightarrow> False))"

text \<open>What a run keeps, counts and adds.\<close>

definition endpoint_follows ::
  "('g, 'h, 'f) metrics_api \<Rightarrow> nat \<Rightarrow> ('g, 'h) endpoint \<times> ('g, 'h) metric_process
    \<Rightarrow> ('g, 'h) endpoint \<times> ('g, 'h) metric_process \<Rightarrow> bool" where
  "endpoint_follows A n = (\<lambda>(ep, p) (ep', p').
     endpoint_inv A (ep', p') \<and> ep_hook ep' = ep_hook ep \<and> mp_upkeep_tasks p' = mp_upkeep_tasks p \<and>
     length (ep_connections ep') = length (ep_connections ep) + n \<and>
     has_recorder A (mp_global p') = (has_recorder A (mp_global p) \<or> 0 < n) \<and>
     described A (mp_global p') = described A (mp_global p))"

lemma install_first:
  assumes "metrics_laws A" and "mp_static p = Uninit" and "\<not> has_recorder A (mp_global p)"
  obtains r g where "install_prometheus_recorder A p
      = (p\<lparr>mp_global := g, mp_static := Ready r\<rparr>, Ok r :: ('e, _) outcome)"
    "has_recorder A g" "described A g = {}"
  using metrics_lawsD(8) [OF assms(1,3), of "''seismic-bft''"] assms(2)
  by (fastforce simp: install_prometheus_recorder_def prometheus_install_def)

lemma endpoint_step_follows:
  assumes "metrics_laws A" and "event_quiet A ev" and "endpoint_inv A c"
  shows "endpoint_follows A (if ev = Accepted then 1 else 0) c (fst (endpoint_step A ev c))"
proof (cases c)
  case c: (Pair ep p)
  show ?thesis
  proof (cases ev)
    case AcceptFailed
    with assms c show ?thesis by (simp add: endpoint_follows_def)
  next
    case Accepted
    show ?thesis
    proof (cases "mp_static p")
      case Uninit
      with assms(3) c have none: "\<not> has_recorder A (mp_global p)" by (simp add: endpoint_inv_def)
      obtain r g where inst: "install_prometheus_recorder A p
          = (p\<lparr>mp_global := g, mp_static := Ready r\<rparr>, Ok r :: (unit, _) outcome)"
        and g: "has_recorder A g" "described A g = {}"
        using install_first [OF assms(1) Uninit none, where 'e = unit] by metis
      have "described A (mp_global p) = {}" using metrics_lawsD(7) [OF assms(1) none] .
      with assms(3) c Accepted Uninit none g show ?thesis
        by (simp add: endpoint_follows_def endpoint_inv_def inst)
    qed (use assms(3) c Accepted in
        \<open>auto simp: endpoint_follows_def endpoint_inv_def install_prometheus_recorder_def\<close>)
  next
    case (Requested i os)
    with assms(2,3) c have "quiet A (ep_hook ep os)" by (simp add: endpoint_inv_def)
    with assms(3) c Requested show ?thesis
      by (auto simp: endpoint_follows_def endpoint_inv_def quiet_def Let_def split: lazy_recorder.splits)
  qed
qed

lemma endpoint_follows_trans:
  "endpoint_follows A m c c1 \<Longrightarrow> endpoint_follows A n c1 c2 \<Longrightarrow> endpoint_follows A (m + n) c c2"
  by (cases c; cases c1; cases c2) (auto simp only: endpoint_follows_def prod.case add.assoc add_gr_0)

lemma endpoint_run_Cons:
  "fst (endpoint_run A (ev # evs) c) = fst (endpoint_run A evs (fst (endpoint_step A ev c)))"
  by (simp split: prod.split)

lemma endpoint_inv_global:
  "has_recorder A g = has_recorder A (mp_global p) \<Longrightarrow>
     endpoint_inv A (ep, p\<lparr>mp_global := g\<rparr>) = endpoint_inv A (ep, p)"
  by (simp add: endpoint_inv_def split: lazy_recorder.split)

lemma endpoint_run_follows:
  assumes "metrics_laws A" and "\<forall>ev \<in> set evs. event_quiet A ev" and "endpoint_inv A c"
  shows "endpoint_follows A (count_list evs Accepted) c (fst (endpoint_run A evs c))"
  using assms(2,3)
proof (induction evs arbitrary: c)
  case Nil
  then show ?case by (cases c) (simp add: endpoint_follows_def)
next
  case (Cons ev evs)
  let ?c1 = "fst (endpoint_step A ev c)"
  have s: "endpoint_follows A (if ev = Accepted then 1 else 0) c ?c1"
    using Cons.prems by (intro endpoint_step_follows [OF assms(1)]) simp_all
  then have "endpoint_inv A ?c1" by (cases c, cases ?c1) (simp add: endpoint_follows_def)
  with Cons have "endpoint_follows A (count_list evs Accepted) ?c1 (fst (endpoint_run A evs ?c1))" by simp
  from endpoint_follows_trans [OF s this] show ?case
    by (cases "ev = Accepted") (simp_all add: endpoint_run_Cons del: endpoint_run.simps)
qed

section \<open>Descriptions\<close>

lemma describe_all_described:
  assumes "metrics_laws A"
  shows "has_recorder A (describe_all A ds g) = has_recorder A g \<and>
         described A (describe_all A ds g) = (if has_recorder A g then ds_name ` set ds \<union> described A g else described A g)"
proof (induction ds arbitrary: g)
  case (Cons d ds)
  then show ?case
    using metrics_lawsD(1,2,7) [OF assms] by (auto simp: describe_all_def)
qed (simp add: describe_all_def)

definition server_metrics :: "build \<Rightarrow> string set" where
  "server_metrics b =
     ds_name ` (set db_metrics \<union> set static_file_metrics \<union> set (memory_metrics b) \<union> set (io_metrics b))"

text \<open>A server that is up: what was accepted before the descriptions, and what they did.\<close>

lemma start_prometheus_Ok:
  assumes "metrics_laws A" and "\<forall>ev \<in> set early. event_quiet A ev"
    and "mp_static p = Uninit" and "\<not> has_recorder A (mp_global p)"
    and "start_prometheus b A parse_addr binds port early p = (Ok (c, rs) :: ('e, _) outcome)"
  shows "endpoint_inv A c" and "ep_hook (fst c) = refreshed b A"
    and "mp_upkeep_tasks (snd c) = mp_upkeep_tasks p"
    and "length (ep_connections (fst c)) = count_list early Accepted"
    and "has_recorder A (mp_global (snd c)) \<longleftrightarrow> Accepted \<in> set early"
    and "Accepted \<in> set early \<Longrightarrow> server_metrics b \<subseteq> described A (mp_global (snd c))"
proof -
  let ?ep = "\<lparr>ep_hook = refreshed b A, ep_accepting = True, ep_connections = []\<rparr>"
  obtain ep' p' rs' where run: "endpoint_run A early (?ep, p) = ((ep', p'), rs')"
    by (cases "endpoint_run A early (?ep, p)") auto
  define g where "g = describe_all A (io_metrics b) (describe_all A (memory_metrics b) (collector_describe A
      (describe_all A static_file_metrics (describe_all A db_metrics (mp_global p')))))"
  have c: "c = (ep', p'\<lparr>mp_global := g\<rparr>)"
    using assms(5) run
    by (auto simp: start_prometheus_def serve_def start_endpoint_def default_hooks outcome_simps g_def
        split: outcome.splits if_splits)
  have start: "endpoint_inv A (?ep, p)"
    using assms(3,4) refreshed_quiet [OF assms(1)] by (simp add: endpoint_inv_def)
  from endpoint_run_follows [OF assms(1,2) start] run
  have f: "endpoint_follows A (count_list early Accepted) (?ep, p) (ep', p')" by simp
  note d = describe_all_described [OF assms(1)] metrics_lawsD(3) [OF assms(1)]
  let ?x = "describe_all A static_file_metrics (describe_all A db_metrics (mp_global p'))"
  have "described A ?x \<subseteq> described A (collector_describe A ?x)" by (rule metrics_lawsD(4) [OF assms(1)])
  then have g: "has_recorder A g = has_recorder A (mp_global p')"
    "has_recorder A (mp_global p') \<Longrightarrow> server_metrics b \<subseteq> described A g"
    by (auto simp: g_def server_metrics_def d)
  have n: "0 < count_list early Accepted \<longleftrightarrow> Accepted \<in> set early" by (simp add: count_list_0_iff neq0_conv [symmetric])
  show "endpoint_inv A c" using f g(1) by (simp add: c endpoint_inv_global endpoint_follows_def)
  show "ep_hook (fst c) = refreshed b A" "mp_upkeep_tasks (snd c) = mp_upkeep_tasks p"
    "length (ep_connections (fst c)) = count_list early Accepted"
    "has_recorder A (mp_global (snd c)) \<longleftrightarrow> Accepted \<in> set early"
    using f g(1) n assms(4) by (simp_all add: c endpoint_follows_def)
  show "server_metrics b \<subseteq> described A (mp_global (snd c))" if "Accepted \<in> set early"
    using that f g(2) n by (simp add: c endpoint_follows_def)
qed

section \<open>Properties\<close>

text \<open>A metrics library that keeps only the names of what was described; its recorder is a unit.\<close>

definition plain_metrics :: "(string set option, unit, u64) metrics_api" where
  "plain_metrics =
     \<lparr>gauge_set = (\<lambda>n v g. g), counter_absolute = (\<lambda>n v g. g), describe = (\<lambda>d. map_option (insert (ds_name d))),
      collector_describe = (\<lambda>g. g),
      stack_install = (\<lambda>pre g. case g of None \<Rightarrow> Some ((), Some {}) | Some _ \<Rightarrow> None),
      render = (\<lambda>h g. ''metrics''), as_f64 = (\<lambda>v. v), has_recorder = (\<lambda>g. g \<noteq> None),
      described = (\<lambda>g. case g of None \<Rightarrow> {} | Some ds \<Rightarrow> ds)\<rparr>"

lemma plain_metrics_laws: "metrics_laws plain_metrics"
  by (auto simp: metrics_laws_def quiet_def plain_metrics_def split: option.splits)

definition fresh_process :: "(string set option, unit) metric_process" where
  "fresh_process = \<lparr>mp_global = None, mp_static = Uninit, mp_upkeep_tasks = []\<rparr>"

lemma fresh_process_ok:
  "mp_static fresh_process = Uninit" "\<not> has_recorder plain_metrics (mp_global fresh_process)"
  by (simp_all add: fresh_process_def plain_metrics_def)

definition linux_build :: build where
  "linux_build = \<lparr>cfg_jemalloc = False, cfg_unix = True, cfg_linux = True\<rparr>"

lemma plain_starts:
  "\<exists>c rs. start_prometheus linux_build plain_metrics Some (\<lambda>_. True) 9090 early fresh_process
     = (Ok (c, rs) :: (unit, _) outcome)"
  by (simp add: start_prometheus_def serve_def start_endpoint_def Let_def split: prod.split)

text \<open>
  The descriptions the metrics server makes are lost unless somebody connected before it made them:
  the recorder is installed by the first accepted connection, so in a process without one the
  descriptions go nowhere and no later connection brings them back.
\<close>

lemma descriptions_need_recorder:
  assumes "metrics_laws A" and "mp_static p = Uninit" and "\<not> has_recorder A (mp_global p)"
    and "start_prometheus b A parse_addr binds port early p = (Ok (c, rs) :: ('e, _) outcome)"
    and "endpoint_run A late c = (c', rs')" and "\<forall>ev \<in> set (early @ late). event_quiet A ev"
  shows "(Accepted \<in> set early \<longrightarrow> server_metrics b \<subseteq> described A (mp_global (snd c'))) \<and>
         (Accepted \<notin> set early \<longrightarrow> described A (mp_global (snd c')) = {})"
proof -
  have ev: "\<forall>ev \<in> set early. event_quiet A ev" "\<forall>ev \<in> set late. event_quiet A ev" using assms(6) by simp_all
  note st = start_prometheus_Ok [OF assms(1) ev(1) assms(2,3,4)]
  have "described A (mp_global (snd c')) = described A (mp_global (snd c))"
    using endpoint_run_follows [OF assms(1) ev(2) st(1)] assms(5)
    by (cases c, cases c') (simp add: endpoint_follows_def)
  with st(5,6) metrics_lawsD(7) [OF assms(1)] show ?thesis by metis
qed

text \<open>
  C40. Every connection is served, from one recorder: in a process without another recorder the accept
  loop never ends, every accepted connection is kept, and a request on any of them is answered with
  the text of the one recorder after all three default hooks have run; nothing ever starts the
  recorder's upkeep.
\<close>

theorem endpoint_serves_recorder:
  assumes "metrics_laws A" and "mp_static p = Uninit" and "\<not> has_recorder A (mp_global p)"
    and "start_prometheus b A parse_addr binds port early p = (Ok (c, rs) :: ('e, _) outcome)"
    and "endpoint_run A late c = ((ep, q), rs')" and "\<forall>ev \<in> set (early @ late). event_quiet A ev"
    and "i < count_list (early @ late) Accepted"
  shows "ep_accepting ep \<and> mp_upkeep_tasks q = mp_upkeep_tasks p \<and>
         (\<exists>r. mp_static q = Ready r \<and>
            endpoint_step A (Requested i os) (ep, q) =
              ((ep, q\<lparr>mp_global := refreshed b A os (mp_global q)\<rparr>),
               [\<lparr>rs_content_type = ''text/plain'', rs_body = render A (pr_handle r) (refreshed b A os (mp_global q))\<rparr>]))"
proof -
  have ev: "\<forall>ev \<in> set early. event_quiet A ev" "\<forall>ev \<in> set late. event_quiet A ev" using assms(6) by simp_all
  note st = start_prometheus_Ok [OF assms(1) ev(1) assms(2,3,4)]
  from endpoint_run_follows [OF assms(1) ev(2) st(1)] assms(5)
  have "endpoint_follows A (count_list late Accepted) c (ep, q)" by simp
  with st(2,3,4)
  have f: "endpoint_inv A (ep, q)" "ep_hook ep = refreshed b A" "mp_upkeep_tasks q = mp_upkeep_tasks p"
    "length (ep_connections ep) = count_list (early @ late) Accepted"
    by (cases c; simp add: endpoint_follows_def)+
  have i: "i < length (ep_connections ep)" using f(4) assms(7) by simp
  with f(1) obtain r where r: "mp_static q = Ready r" "set (ep_connections ep) \<subseteq> {pr_handle r}"
    by (cases "mp_static q") (auto simp: endpoint_inv_def)
  then have "ep_connections ep ! i = pr_handle r" using nth_mem [OF i] by auto
  with f(1-3) i r(1) show ?thesis by (simp add: endpoint_inv_def Let_def)
qed

definition idle_system :: "'g system" where
  "idle_system =
     \<lparr>os_collect = (\<lambda>g. g), os_epoch = True,
      os_jemalloc = \<lparr>js_active = None, js_allocated = None, js_mapped = None, js_metadata = None,
        js_resident = None, js_retained = None\<rparr>,
      os_process = None\<rparr>"

theorem endpoint_serves_recorder_witness:
  "\<exists>c rs ep q rs'. start_prometheus linux_build plain_metrics Some (\<lambda>_. True) 9090 [Accepted] fresh_process
       = (Ok (c, rs) :: (unit, _) outcome) \<and>
     endpoint_run plain_metrics [Requested 0 idle_system, Accepted] c = ((ep, q), rs') \<and> ep_accepting ep \<and>
     snd (endpoint_step plain_metrics (Requested 1 idle_system) (ep, q))
       = [\<lparr>rs_content_type = ''text/plain'', rs_body = ''metrics''\<rparr>]"
proof -
  let ?late = "[Requested 0 idle_system, Accepted] :: string set option endpoint_event list"
  obtain c rs where st: "start_prometheus linux_build plain_metrics Some (\<lambda>_. True) 9090 [Accepted] fresh_process
      = (Ok (c, rs) :: (unit, _) outcome)" using plain_starts [of "[Accepted]"] by auto
  obtain ep q rs' where run: "endpoint_run plain_metrics ?late c = ((ep, q), rs')"
    by (cases "endpoint_run plain_metrics ?late c") auto
  have quiet: "\<forall>ev \<in> set ([Accepted] @ ?late). event_quiet plain_metrics ev"
    by (simp add: system_ok_def idle_system_def quiet_id)
  have i: "1 < count_list ([Accepted] @ ?late) Accepted" by simp
  have "render plain_metrics h g = ''metrics''" for h g by (simp add: plain_metrics_def)
  with endpoint_serves_recorder [OF plain_metrics_laws fresh_process_ok st run quiet i, of idle_system] st run
  show ?thesis by auto
qed

end
