(* ===== verification/Finalizer_Loop.thy ===== *)
theory Finalizer_Loop
  imports Node_Run
begin

text \<open>
  The finalizer's loop phase by phase, interleaved with the syncer event by event, and the channel on
  which the syncer wakes it (\<open>finalizer_network\<close> in \<open>node/src/engine.rs\<close>). Behind every state of this
  finer system stands a node that whole passes of the loop reach (\<open>behind\<close>), so what holds of every
  run of \<open>node_run\<close> holds of it. \<open>Wakeups\<close> has the properties.
\<close>

section \<open>The wake-up channel\<close>

text \<open>
  \<open>try_send\<close> on a bounded channel of unit messages: the message is dropped when the channel is full
  (\<open>cap\<close> is the number of messages it takes; the code makes it with a buffer of one).
\<close>

definition notify :: "nat \<Rightarrow> 'r sync_effect list \<Rightarrow> nat \<Rightarrow> nat" where
  "notify cap es n = fold (\<lambda>e n. if e = NotifyFinalizer \<and> n < cap then Suc n else n) es n"

lemma notify_mono: "n \<le> notify cap es n"
  unfolding notify_def by (induction es arbitrary: n) (auto intro: Suc_leD order_trans)

lemma notify_positive: "NotifyFinalizer \<in> set es \<Longrightarrow> 0 < cap \<Longrightarrow> 0 < notify cap es n"
proof (induction es arbitrary: n)
  case (Cons e es)
  show ?case
  proof (cases "e = NotifyFinalizer")
    case True
    then have "notify cap (e # es) n = notify cap es (if n < cap then Suc n else n)"
      by (simp add: notify_def)
    moreover have "0 < (if n < cap then Suc n else n)" using Cons.prems(2) by simp
    ultimately show ?thesis using notify_mono [of "if n < cap then Suc n else n" cap es] by linarith
  next
    case False
    then show ?thesis using Cons by (simp add: notify_def)
  qed
qed simp

section \<open>The system\<close>

text \<open>
  The finalizer and where it stands in its loop; whether the execution client did not find the last
  block it asked for valid; the message \<open>processed\<close> it sent that the syncer has not come to; the syncer;
  the messages in the wake-up channel; the blocks handed to the execution client as final.
\<close>

record ('c, 'm, 'h) loop_node =
  ln_finalizer :: "('c, 'm) finalizer"
  ln_phase :: fin_phase
  ln_refused :: bool
  ln_sent :: "(u64 \<times> digest) option"
  ln_syncer :: "'h watched"
  ln_tokens :: nat
  ln_executed :: "block list"

definition loop_new :: "('c, 'm) finalizer \<Rightarrow> 'h syncer \<Rightarrow> ('c, 'm, 'h) loop_node" where
  "loop_new f s =
     \<lparr>ln_finalizer = f, ln_phase = Asking, ln_refused = False, ln_sent = None,
      ln_syncer = watched_new s, ln_tokens = 0, ln_executed = []\<rparr>"

text \<open>
  The finalizer's own steps, with the execution client \<open>E\<close>. The syncer answers \<open>get\<close>, and the finalizer
  commits the block or goes on to the repair; the syncer handles \<open>processed\<close>, which its mailbox holds
  before the next \<open>get\<close>; it answers \<open>repair\<close>; the finalizer takes a wake-up. A call is answered before the
  next is made, so one number serves for the one-shot channels.
\<close>

inductive own_step ::
  "profile \<Rightarrow> 'm metadata_api \<Rightarrow> 'h sync_api \<Rightarrow> engine_api \<Rightarrow> nat \<Rightarrow> nat
    \<Rightarrow> ('c, 'm, 'h) loop_node \<Rightarrow> ('c, 'm, 'h) loop_node \<Rightarrow> bool"
  for pr :: profile and M :: "'m metadata_api" and A :: "'h sync_api" and E :: engine_api and cap r :: nat where
  asks:
    "own_step pr M A E cap r n (n\<lparr>ln_finalizer := f, ln_phase := phase, ln_refused := phase \<noteq> Asking \<and> found \<noteq> None,
       ln_sent := (if phase = Asking then Some (fz_last_indexed (ln_finalizer n) + 1, b_digest (the found)) else None),
       ln_syncer := w, ln_tokens := notify cap es (ln_tokens n),
       ln_executed := ln_executed n @ (if phase = Asking then [the found] else [])\<rparr>)"
    if "ln_phase n = Asking" and "ln_sent n = None" and "unat (fz_last_indexed (ln_finalizer n)) < 2 ^ 64 - 2"
      and "watched_step pr A (FromOrchestrator (Some (OrchestrationGet (fz_last_indexed (ln_finalizer n) + 1) r)))
             es (ln_syncer n) w"
      and "SendMaybeBlock r found \<in> set es"
      and "ask_step pr M E (Answered found) (Answered ()) (ln_finalizer n) = (Ok ((f, phase), fes) :: (unit, _) outcome)"
| handles_processed:
    "own_step pr M A E cap r n (n\<lparr>ln_sent := None, ln_syncer := w, ln_tokens := notify cap es (ln_tokens n)\<rparr>)"
    if "ln_sent n = Some (k, d)"
      and "watched_step pr A (FromOrchestrator (Some (OrchestrationProcessed k d))) es (ln_syncer n) w"
| repairs:
    "own_step pr M A E cap r n (n\<lparr>ln_finalizer := f, ln_phase := phase, ln_syncer := w,
       ln_tokens := notify cap es (ln_tokens n)\<rparr>)"
    if "ln_phase n = Repairing k"
      and "watched_step pr A (FromOrchestrator (Some (OrchestrationRepair k r))) es (ln_syncer n) w"
      and "SendBool r repaired \<in> set es"
      and "repair_step (Answered repaired) k (ln_finalizer n) = (Ok ((f, phase), fes) :: (unit, _) outcome)"
| wakes:
    "own_step pr M A E cap r n (n\<lparr>ln_finalizer := f, ln_phase := Asking, ln_tokens := ln_tokens n - 1\<rparr>)"
    if "ln_phase n = Parked" and "0 < ln_tokens n"
      and "wait_step NewBlock (ln_finalizer n) = (Ok (f, fes) :: (unit, _) outcome)"

text \<open>
  The steps of the system: the finalizer's own, the syncer handling a message that is not the
  finalizer's, and a request for a height that reaches the finalizer from outside.
\<close>

inductive loop_step ::
  "profile \<Rightarrow> 'm metadata_api \<Rightarrow> 'h sync_api \<Rightarrow> nat \<Rightarrow> nat \<Rightarrow> ('c, 'm, 'h) loop_node \<Rightarrow> ('c, 'm, 'h) loop_node \<Rightarrow> bool"
  for pr :: profile and M :: "'m metadata_api" and A :: "'h sync_api" and cap r :: nat where
  own: "loop_step pr M A cap r n n'" if "own_step pr M A E cap r n n'"
| syncer_event:
    "loop_step pr M A cap r n (n\<lparr>ln_syncer := w, ln_tokens := notify cap es (ln_tokens n)\<rparr>)"
    if "watched_step pr A ev es (ln_syncer n) w" and "\<not> from_finalizer ev"
| takes_request:
    "loop_step pr M A cap r n (n\<lparr>ln_finalizer := f, ln_phase := Asking\<rparr>)"
    if "ln_phase n = Parked" and "wait_step (HeightRequest h c) (ln_finalizer n) = (Ok (f, fes) :: (unit, _) outcome)"

lemma loop_step_cases:
  assumes "loop_step pr M A cap r n n'"
  obtains (syncer_event) ev es w where
      "n' = n\<lparr>ln_syncer := w, ln_tokens := notify cap es (ln_tokens n)\<rparr>"
      "watched_step pr A ev es (ln_syncer n) w" "\<not> from_finalizer ev"
  | (asks) es w found E f phase fes where
      "n' = n\<lparr>ln_finalizer := f, ln_phase := phase, ln_refused := phase \<noteq> Asking \<and> found \<noteq> None,
         ln_sent := (if phase = Asking then Some (fz_last_indexed (ln_finalizer n) + 1, b_digest (the found)) else None),
         ln_syncer := w, ln_tokens := notify cap es (ln_tokens n),
         ln_executed := ln_executed n @ (if phase = Asking then [the found] else [])\<rparr>"
      "ln_phase n = Asking" "ln_sent n = None" "unat (fz_last_indexed (ln_finalizer n)) < 2 ^ 64 - 2"
      "watched_step pr A (FromOrchestrator (Some (OrchestrationGet (fz_last_indexed (ln_finalizer n) + 1) r)))
         es (ln_syncer n) w"
      "SendMaybeBlock r found \<in> set es"
      "ask_step pr M E (Answered found) (Answered ()) (ln_finalizer n) = (Ok ((f, phase), fes) :: (unit, _) outcome)"
  | (handles_processed) k d es w where
      "n' = n\<lparr>ln_sent := None, ln_syncer := w, ln_tokens := notify cap es (ln_tokens n)\<rparr>"
      "ln_sent n = Some (k, d)"
      "watched_step pr A (FromOrchestrator (Some (OrchestrationProcessed k d))) es (ln_syncer n) w"
  | (repairs) k es w repaired f phase fes where
      "n' = n\<lparr>ln_finalizer := f, ln_phase := phase, ln_syncer := w, ln_tokens := notify cap es (ln_tokens n)\<rparr>"
      "ln_phase n = Repairing k"
      "watched_step pr A (FromOrchestrator (Some (OrchestrationRepair k r))) es (ln_syncer n) w"
      "SendBool r repaired \<in> set es"
      "repair_step (Answered repaired) k (ln_finalizer n) = (Ok ((f, phase), fes) :: (unit, _) outcome)"
  | (wakes) f fes where
      "n' = n\<lparr>ln_finalizer := f, ln_phase := Asking, ln_tokens := ln_tokens n - 1\<rparr>"
      "ln_phase n = Parked" "0 < ln_tokens n"
      "wait_step NewBlock (ln_finalizer n) = (Ok (f, fes) :: (unit, _) outcome)"
  | (takes_request) h c f fes where
      "n' = n\<lparr>ln_finalizer := f, ln_phase := Asking\<rparr>"
      "ln_phase n = Parked" "wait_step (HeightRequest h c) (ln_finalizer n) = (Ok (f, fes) :: (unit, _) outcome)"
  using assms
proof (cases rule: loop_step.cases)
  case (own E)
  then show thesis
  proof (cases rule: own_step.cases)
    case asks
    from that(2) [OF this] show thesis .
  next
    case handles_processed
    from that(3) [OF this] show thesis .
  next
    case repairs
    from that(4) [OF this] show thesis .
  next
    case wakes
    from that(5) [OF this] show thesis .
  qed
next
  case syncer_event
  from that(1) [OF this] show thesis .
next
  case takes_request
  from that(6) [OF this] show thesis .
qed

definition loop_run ::
  "profile \<Rightarrow> 'm metadata_api \<Rightarrow> 'h sync_api \<Rightarrow> nat \<Rightarrow> nat \<Rightarrow> ('c, 'm, 'h) loop_node \<Rightarrow> ('c, 'm, 'h) loop_node \<Rightarrow> bool"
  where "loop_run pr M A cap r = (loop_step pr M A cap r)\<^sup>*\<^sup>*"

lemma loop_run_step: "loop_step pr M A cap r n n' \<Longrightarrow> loop_run pr M A cap r n n'"
  unfolding loop_run_def by blast

lemma loop_run_trans: "loop_run pr M A cap r n n' \<Longrightarrow> loop_run pr M A cap r n' n'' \<Longrightarrow> loop_run pr M A cap r n n''"
  unfolding loop_run_def by (rule rtranclp_trans)

text \<open>What \<open>ask_step\<close> does when its calls are answered.\<close>

lemma ask_step_cases:
  assumes "ask_step pr M E (Answered found) (Answered ()) s = (Ok ((s', phase), es) :: ('e, _) outcome)"
    and "unat (fz_last_indexed s) < 2 ^ 64 - 1"
  defines "next \<equiv> fz_last_indexed s + 1"
  obtains (missing) "found = None" "phase = Repairing next" "s' = s" "es = [AskBlock next]"
  | (refused) b where "found = Some b" "new_payload_v4 E (b_payload b) [] ones32 (b_requests b) = Some False"
      "phase = Repairing next" "s' = s" "es = [AskBlock next, CheckPayload b]"
  | (commit) b es' where "found = Some b" "new_payload_v4 E (b_payload b) [] ones32 (b_requests b) = Some True"
      "phase = Asking" "commit_block pr M E next b s = (Ok (s', es') :: ('e, _) outcome)"
      "es = AskBlock next # CheckPayload b # es'"
proof (cases found)
  case None
  with assms(1) show thesis
    by (intro missing) (auto simp: ask_step_def outcome_simps add_ovf_Suc_u64 [OF assms(2)] next_def)
next
  case (Some b)
  with assms(1) obtain v where v: "new_payload_v4 E (b_payload b) [] ones32 (b_requests b) = Some v"
    by (auto simp: ask_step_def outcome_simps add_ovf_Suc_u64 [OF assms(2)] check_payload_def)
  then have cp: "check_payload E b = Ok v" by (simp add: check_payload_def)
  show thesis
  proof (cases v)
    case True
    from assms(1) obtain es' where "phase = Asking"
      "commit_block pr M E next b s = (Ok (s', es') :: ('e, _) outcome)" "es = AskBlock next # CheckPayload b # es'"
      by (auto simp: ask_step_def outcome_simps add_ovf_Suc_u64 [OF assms(2)] Some cp True next_def)
    with v Some True show thesis by (intro commit) auto
  next
    case False
    with assms(1) v Some show thesis
      by (intro refused) (auto simp: ask_step_def outcome_simps add_ovf_Suc_u64 [OF assms(2)] cp next_def)
  qed
qed

section \<open>The loop refines the passes\<close>

text \<open>
  A pass in progress: the node \<open>m\<close> in which it began, the answer to \<open>get\<close>, and the syncer since it
  answered.
\<close>

definition begun ::
  "profile \<Rightarrow> 'h sync_api \<Rightarrow> nat \<Rightarrow> ('c, 'm, 'h) full_node \<Rightarrow> block option \<Rightarrow> 'h watched \<Rightarrow> bool" where
  "begun pr A r m found w \<longleftrightarrow>
     unat (fz_last_indexed (fn_finalizer m)) < 2 ^ 64 - 2 \<and>
     (\<exists>es w1. watched_step pr A (FromOrchestrator (Some (OrchestrationGet (fz_last_indexed (fn_finalizer m) + 1) r)))
                es (fn_syncer m) w1 \<and>
        SendMaybeBlock r found \<in> set es \<and> other_steps pr A w1 w)"

lemma begun_other: "begun pr A r m found w \<Longrightarrow> other_steps pr A w w' \<Longrightarrow> begun pr A r m found w'"
  unfolding begun_def other_steps_def by (meson rtranclp_trans)

lemma other_step: "watched_step pr A ev es w w' \<Longrightarrow> \<not> from_finalizer ev \<Longrightarrow> other_steps pr A w w'"
  unfolding other_steps_def by blast

lemma other_trans: "other_steps pr A w w' \<Longrightarrow> other_steps pr A w' w'' \<Longrightarrow> other_steps pr A w w''"
  unfolding other_steps_def by (rule rtranclp_trans)

text \<open>
  The node of \<open>node_run\<close> that stands behind a state of the loop: the same at the top of the loop, the
  one in which the pass began within it.
\<close>

inductive behind ::
  "profile \<Rightarrow> 'm metadata_api \<Rightarrow> 'h sync_api \<Rightarrow> nat \<Rightarrow> ('c, 'm, 'h) full_node \<Rightarrow> ('c, 'm, 'h) loop_node \<Rightarrow> bool"
  for pr :: profile and M :: "'m metadata_api" and A :: "'h sync_api" and r :: nat and m :: "('c, 'm, 'h) full_node" where
  at_top: "behind pr M A r m n"
    if "ln_phase n = Asking" and "ln_sent n = None"
      and "m = \<lparr>fn_finalizer = ln_finalizer n, fn_syncer = ln_syncer n, fn_executed = ln_executed n\<rparr>"
| committing: "behind pr M A r m n"
    if "ln_phase n = Asking" and "ln_sent n = Some (fz_last_indexed (fn_finalizer m) + 1, b_digest b)"
      and "begun pr A r m (Some b) (ln_syncer n)" and "ln_executed n = fn_executed m @ [b]"
      and "ask_step pr M E (Answered (Some b)) (Answered ()) (fn_finalizer m)
             = (Ok ((ln_finalizer n, Asking), es) :: (unit, _) outcome)"
| repairing: "behind pr M A r m n"
    if "ln_phase n = Repairing k" and "ln_sent n = None"
      and "begun pr A r m found (ln_syncer n)" and "ln_executed n = fn_executed m"
      and "ask_step pr M E (Answered found) (Answered ()) (fn_finalizer m)
             = (Ok ((ln_finalizer n, Repairing k), es) :: (unit, _) outcome)"
| waiting: "behind pr M A r m n"
    if "ln_phase n = Parked" and "ln_sent n = None"
      and "begun pr A r m found w2" and "ln_executed n = fn_executed m"
      and "ask_step pr M E (Answered found) (Answered ()) (fn_finalizer m)
             = (Ok ((ln_finalizer n, Repairing k), es) :: (unit, _) outcome)"
      and "watched_step pr A (FromOrchestrator (Some (OrchestrationRepair k r))) es2 w2 w3"
      and "SendBool r False \<in> set es2" and "other_steps pr A w3 (ln_syncer n)"

lemma behind_other:
  assumes "behind pr M A r m n" and "other_steps pr A (ln_syncer n) w"
  shows "\<exists>m'. node_run pr M A m m' \<and> behind pr M A r m' (n\<lparr>ln_syncer := w, ln_tokens := c\<rparr>)"
  using assms(1)
proof cases
  case at_top
  let ?m = "m\<lparr>fn_syncer := w\<rparr>"
  have "node_step pr M A m ?m" using assms(2) at_top by (intro node_step.syncer_works) simp
  moreover have "behind pr M A r ?m (n\<lparr>ln_syncer := w, ln_tokens := c\<rparr>)"
    using at_top by (intro behind.at_top) simp_all
  ultimately show ?thesis unfolding node_run_def by blast
next
  case (committing b E es)
  then have "behind pr M A r m (n\<lparr>ln_syncer := w, ln_tokens := c\<rparr>)"
    using begun_other [OF _ assms(2)] by (intro behind.committing [where b = b and E = E and es = es]) simp_all
  then show ?thesis unfolding node_run_def by blast
next
  case (repairing k found E es)
  then have "behind pr M A r m (n\<lparr>ln_syncer := w, ln_tokens := c\<rparr>)"
    using begun_other [OF _ assms(2)] by (intro behind.repairing [where k = k and found = found and E = E and es = es]) simp_all
  then show ?thesis unfolding node_run_def by blast
next
  case (waiting found w2 E k es es2 w3)
  then have "behind pr M A r m (n\<lparr>ln_syncer := w, ln_tokens := c\<rparr>)"
    using other_trans [OF _ assms(2)]
    by (intro behind.waiting [where k = k and found = found and ?w2.0 = w2 and E = E and es = es and ?es2.0 = es2 and ?w3.0 = w3]) simp_all
  then show ?thesis unfolding node_run_def by blast
qed

text \<open>The phases put together are a pass.\<close>

lemma phases_commit:
  assumes "ask_step pr M E (Answered (Some b)) (Answered ()) s = (Ok ((s', Asking), es) :: ('e, _) outcome)"
    and "unat (fz_last_indexed s) < 2 ^ 64 - 1"
  defines "i \<equiv> \<lparr>fi_block = Some b, fi_engine = E, fi_repaired = False, fi_event = NewBlock\<rparr>"
  shows "finalizer_pass pr M i s = (Ok (s', es) :: ('e, _) outcome)" and "committed i = [b]"
    and "finalizer_calls r es = [OrchestrationGet (fz_last_indexed s + 1) r,
           OrchestrationProcessed (fz_last_indexed s + 1) (b_digest b)]"
proof -
  show "finalizer_pass pr M i s = (Ok (s', es) :: ('e, _) outcome)"
    using assms(1) by (simp add: finalizer_pass_def i_def)
  from assms(1,2) show "committed i = [b]" "finalizer_calls r es = [OrchestrationGet (fz_last_indexed s + 1) r,
           OrchestrationProcessed (fz_last_indexed s + 1) (b_digest b)]"
  proof (atomize (full), cases rule: ask_step_cases)
    case (commit c es')
    have wakes: "finalizer_calls r (map Wake cs @ es'') = finalizer_calls r es''" for cs es''
      by (induction cs) simp_all
    from commit show "committed i = [b] \<and> finalizer_calls r es = [OrchestrationGet (fz_last_indexed s + 1) r,
           OrchestrationProcessed (fz_last_indexed s + 1) (b_digest b)]"
      by (auto simp: committed_def commits_def i_def commit_block_def Let_def outcome_simps wakes)
  qed simp_all
qed

lemma phases_idle:
  assumes "ask_step pr M E (Answered found) (Answered ()) s = (Ok ((s1, Repairing next), es) :: ('e, _) outcome)"
    and "unat (fz_last_indexed s) < 2 ^ 64 - 1"
    and "if repaired then s' = s1 else \<exists>es3. wait_step ev s1 = (Ok (s', es3) :: ('e, _) outcome)"
  defines "i \<equiv> \<lparr>fi_block = found, fi_engine = E, fi_repaired = repaired, fi_event = ev\<rparr>"
  shows "\<exists>es'. finalizer_pass pr M i s = (Ok (s', es') :: ('e, _) outcome) \<and> committed i = [] \<and>
     finalizer_calls r es' = [OrchestrationGet (fz_last_indexed s + 1) r, OrchestrationRepair next r]"
proof -
  have woken: "finalizer_calls r es3 = []" if "wait_step ev s1 = (Ok (s', es3) :: ('e, _) outcome)" for es3
    using that by (auto simp: wait_step_def split: fin_event.splits if_splits)
  obtain es' where "repair_or_wait i next s1 = (Ok (s', AskRepair next # es') :: ('e, _) outcome)"
    and "finalizer_calls r es' = []"
    using assms(3) woken by (cases repaired) (auto simp: repair_or_wait_def repair_step_def i_def)
  then have p: "finalizer_pass pr M i s = (Ok (s', es @ AskRepair next # es') :: ('e, _) outcome)"
    using assms(1) by (simp add: finalizer_pass_def i_def)
  from assms(1,2) have "committed i = [] \<and>
      finalizer_calls r (es @ AskRepair next # es')
        = [OrchestrationGet (fz_last_indexed s + 1) r, OrchestrationRepair next r]"
    using \<open>finalizer_calls r es' = []\<close>
    by (cases rule: ask_step_cases) (auto simp: committed_def commits_def i_def)
  with p show ?thesis by blast
qed

lemma finish_commit:
  assumes "begun pr A r m (Some b) w2"
    and "ask_step pr M E (Answered (Some b)) (Answered ()) (fn_finalizer m) = (Ok ((f, Asking), es) :: (unit, _) outcome)"
    and "watched_step pr A (FromOrchestrator (Some
           (OrchestrationProcessed (fz_last_indexed (fn_finalizer m) + 1) (b_digest b)))) es2 w2 w3"
  shows "node_step pr M A m \<lparr>fn_finalizer = f, fn_syncer = w3, fn_executed = fn_executed m @ [b]\<rparr>"
proof -
  let ?i = "\<lparr>fi_block = Some b, fi_engine = E, fi_repaired = False, fi_event = NewBlock\<rparr>"
  from assms(1) obtain es1 w1 where
    room: "unat (fz_last_indexed (fn_finalizer m)) < 2 ^ 64 - 2" and
    get: "watched_step pr A (FromOrchestrator (Some (OrchestrationGet (fz_last_indexed (fn_finalizer m) + 1) r)))
      es1 (fn_syncer m) w1" "SendMaybeBlock r (Some b) \<in> set es1" "other_steps pr A w1 w2"
    by (auto simp: begun_def)
  have "unat (fz_last_indexed (fn_finalizer m)) < 2 ^ 64 - 1" using room by simp
  note p = phases_commit [OF assms(2) this]
  from node_step.finalizer_passes [OF p(1) room p(3) get(1) _ get(3) assms(3)] get(2)
  show ?thesis by (simp add: p(2))
qed

lemma finish_idle:
  assumes "begun pr A r m found w2"
    and "ask_step pr M E (Answered found) (Answered ()) (fn_finalizer m) = (Ok ((s1, Repairing k), es) :: (unit, _) outcome)"
    and "watched_step pr A (FromOrchestrator (Some (OrchestrationRepair k r))) es2 w2 w3"
    and "SendBool r repaired \<in> set es2"
    and "if repaired then f = s1 else \<exists>es3. wait_step ev s1 = (Ok (f, es3) :: (unit, _) outcome)"
  shows "node_step pr M A m \<lparr>fn_finalizer = f, fn_syncer = w3, fn_executed = fn_executed m\<rparr>"
proof -
  let ?i = "\<lparr>fi_block = found, fi_engine = E, fi_repaired = repaired, fi_event = ev\<rparr>"
  from assms(1) obtain es1 w1 where
    room: "unat (fz_last_indexed (fn_finalizer m)) < 2 ^ 64 - 2" and
    get: "watched_step pr A (FromOrchestrator (Some (OrchestrationGet (fz_last_indexed (fn_finalizer m) + 1) r)))
      es1 (fn_syncer m) w1" "SendMaybeBlock r found \<in> set es1" "other_steps pr A w1 w2"
    by (auto simp: begun_def)
  have "unat (fz_last_indexed (fn_finalizer m)) < 2 ^ 64 - 1" using room by simp
  from phases_idle [OF assms(2) this assms(5)] obtain es' where
    p: "finalizer_pass pr M ?i (fn_finalizer m) = (Ok (f, es') :: (unit, _) outcome)" "committed ?i = []"
      "finalizer_calls r es' = [OrchestrationGet (fz_last_indexed (fn_finalizer m) + 1) r, OrchestrationRepair k r]"
    by blast
  from node_step.finalizer_passes [OF p(1) room p(3) get(1) _ get(3) assms(3)] get(2) assms(4)
  show ?thesis by (simp add: p(2))
qed

lemma waiting_ends:
  assumes "behind pr M A r m n" and "ln_phase n = Parked"
    and "wait_step ev (ln_finalizer n) = (Ok (f, fes) :: (unit, _) outcome)"
  shows "\<exists>m'. node_run pr M A m m' \<and>
     behind pr M A r m' (n\<lparr>ln_finalizer := f, ln_phase := Asking, ln_tokens := c\<rparr>)"
  using assms(1)
proof cases
  case (waiting found w2 E k es es2 w3)
  let ?m1 = "\<lparr>fn_finalizer = f, fn_syncer = w3, fn_executed = fn_executed m\<rparr>"
  let ?m2 = "?m1\<lparr>fn_syncer := ln_syncer n\<rparr>"
  have "if False then f = ln_finalizer n else \<exists>es3. wait_step ev (ln_finalizer n) = (Ok (f, es3) :: (unit, _) outcome)"
    using assms(3) by auto
  from finish_idle [OF waiting(3,5,6,7) this] have "node_step pr M A m ?m1" .
  moreover have "node_step pr M A ?m1 ?m2"
    using waiting(8) by (intro node_step.syncer_works) simp
  ultimately have "node_run pr M A m ?m2"
    unfolding node_run_def by (meson converse_rtranclp_into_rtranclp r_into_rtranclp)
  moreover have "behind pr M A r ?m2 (n\<lparr>ln_finalizer := f, ln_phase := Asking, ln_tokens := c\<rparr>)"
    using waiting(2,4) by (intro behind.at_top) simp_all
  ultimately show ?thesis by blast
qed (use assms(2) in simp_all)

lemma loop_step_behind:
  assumes "behind pr M A r m n" and "loop_step pr M A cap r n n'"
  shows "\<exists>m'. node_run pr M A m m' \<and> behind pr M A r m' n'"
  using assms(2)
proof (cases rule: loop_step_cases)
  case (syncer_event ev es w)
  with behind_other [OF assms(1) other_step [OF syncer_event(2,3)]] show ?thesis by simp
next
  case (asks es w found E f phase fes)
  have m: "m = \<lparr>fn_finalizer = ln_finalizer n, fn_syncer = ln_syncer n, fn_executed = ln_executed n\<rparr>"
    using assms(1) asks(2,3) by (cases rule: behind.cases) simp_all
  have begun: "begun pr A r m found w"
    using asks(4-6) by (auto simp: begun_def m other_steps_def)
  have "unat (fz_last_indexed (ln_finalizer n)) < 2 ^ 64 - 1" using asks(4) by simp
  from asks(7) this have "behind pr M A r m n'"
  proof (cases rule: ask_step_cases)
    case (commit b es')
    with asks(7) begun show ?thesis
      by (intro behind.committing [where b = b and E = E and es = fes]) (simp_all add: asks(1) m)
  next
    case missing
    with asks(7) begun show ?thesis
      by (intro behind.repairing [where k = "fz_last_indexed (ln_finalizer n) + 1" and found = found and E = E and es = fes])
        (simp_all add: asks(1) m)
  next
    case (refused b)
    with asks(7) begun show ?thesis
      by (intro behind.repairing [where k = "fz_last_indexed (ln_finalizer n) + 1" and found = found and E = E and es = fes])
        (simp_all add: asks(1) m)
  qed
  then show ?thesis unfolding node_run_def by blast
next
  case (handles_processed k d es w)
  from assms(1) have "\<exists>b E fes. ln_phase n = Asking \<and> k = fz_last_indexed (fn_finalizer m) + 1 \<and> d = b_digest b \<and>
      begun pr A r m (Some b) (ln_syncer n) \<and> ln_executed n = fn_executed m @ [b] \<and>
      ask_step pr M E (Answered (Some b)) (Answered ()) (fn_finalizer m)
         = (Ok ((ln_finalizer n, Asking), fes) :: (unit, _) outcome)"
  proof cases
    case (committing b E es)
    with handles_processed(2) show ?thesis by (intro exI [of _ b] exI [of _ E] exI [of _ es]) simp
  qed (use handles_processed(2) in simp_all)
  then obtain b E fes where
    c: "ln_phase n = Asking" "k = fz_last_indexed (fn_finalizer m) + 1" "d = b_digest b"
      "begun pr A r m (Some b) (ln_syncer n)" "ln_executed n = fn_executed m @ [b]"
      "ask_step pr M E (Answered (Some b)) (Answered ()) (fn_finalizer m)
         = (Ok ((ln_finalizer n, Asking), fes) :: (unit, _) outcome)"
    by blast
  from finish_commit [OF c(4,6)] handles_processed(3) c(2,3)
  have "node_step pr M A m \<lparr>fn_finalizer = ln_finalizer n, fn_syncer = w, fn_executed = ln_executed n\<rparr>"
    by (simp add: c(5))
  moreover have "behind pr M A r \<lparr>fn_finalizer = ln_finalizer n, fn_syncer = w, fn_executed = ln_executed n\<rparr> n'"
    using c(1) by (intro behind.at_top) (simp_all add: handles_processed(1))
  ultimately show ?thesis unfolding node_run_def by blast
next
  case (repairs k es w repaired f phase fes)
  from assms(1) have "\<exists>found E es1. ln_sent n = None \<and> begun pr A r m found (ln_syncer n) \<and>
      ln_executed n = fn_executed m \<and>
      ask_step pr M E (Answered found) (Answered ()) (fn_finalizer m)
         = (Ok ((ln_finalizer n, Repairing k), es1) :: (unit, _) outcome)"
  proof cases
    case (repairing k' found E es1)
    with repairs(2) show ?thesis by (intro exI [of _ found] exI [of _ E] exI [of _ es1]) simp
  qed (use repairs(2) in simp_all)
  then obtain found E es1 where
    c: "ln_sent n = None" "begun pr A r m found (ln_syncer n)" "ln_executed n = fn_executed m"
      "ask_step pr M E (Answered found) (Answered ()) (fn_finalizer m)
         = (Ok ((ln_finalizer n, Repairing k), es1) :: (unit, _) outcome)"
    by blast
  from repairs(5) have f: "f = ln_finalizer n" "phase = (if repaired then Asking else Parked)"
    by (auto simp: repair_step_def)
  show ?thesis
  proof (cases repaired)
    case True
    with finish_idle [OF c(2,4) repairs(3,4), of "ln_finalizer n"]
    have "node_step pr M A m \<lparr>fn_finalizer = ln_finalizer n, fn_syncer = w, fn_executed = ln_executed n\<rparr>"
      by (simp add: c(3))
    moreover have "behind pr M A r \<lparr>fn_finalizer = ln_finalizer n, fn_syncer = w, fn_executed = ln_executed n\<rparr> n'"
      using True c(1) f by (intro behind.at_top) (simp_all add: repairs(1))
    ultimately show ?thesis unfolding node_run_def by blast
  next
    case False
    with c f repairs(3,4) have "behind pr M A r m n'"
      by (intro behind.waiting [where k = k and found = found and ?w2.0 = "ln_syncer n" and E = E and es = es1
            and ?es2.0 = es and ?w3.0 = w]) (simp_all add: repairs(1) other_steps_def)
    then show ?thesis unfolding node_run_def by blast
  qed
next
  case (wakes f fes)
  then have "wait_step NewBlock (ln_finalizer n) = (Ok (f, fes) :: (unit, _) outcome)" by simp
  from waiting_ends [OF assms(1) wakes(2) this] show ?thesis by (simp add: wakes(1))
next
  case (takes_request h c f fes)
  have "n\<lparr>ln_finalizer := f, ln_phase := Asking\<rparr>
      = n\<lparr>ln_finalizer := f, ln_phase := Asking, ln_tokens := ln_tokens n\<rparr>" by simp
  with waiting_ends [OF assms(1) takes_request(2,3), where c = "ln_tokens n"] show ?thesis
    unfolding takes_request(1) by metis
qed

lemma loop_behind:
  assumes "loop_run pr M A cap r (loop_new f s) n"
  shows "\<exists>m. node_run pr M A (node_new f s) m \<and> behind pr M A r m n"
  using assms unfolding loop_run_def
proof (induction rule: rtranclp_induct)
  case base
  have "behind pr M A r (node_new f s) (loop_new f s)"
    by (rule behind.at_top) (simp_all add: loop_new_def node_new_def)
  then show ?case unfolding node_run_def by blast
next
  case (step n n')
  then obtain m where m: "node_run pr M A (node_new f s) m" "behind pr M A r m n" by blast
  from loop_step_behind [OF m(2) step.hyps(2)] m(1) show ?case
    unfolding node_run_def by (meson rtranclp_trans)
qed

lemma loop_at_top:
  assumes "loop_run pr M A cap r (loop_new f s) n" and "ln_phase n = Asking" and "ln_sent n = None"
  shows "node_run pr M A (node_new f s)
           \<lparr>fn_finalizer = ln_finalizer n, fn_syncer = ln_syncer n, fn_executed = ln_executed n\<rparr>"
proof -
  from loop_behind [OF assms(1)] obtain m where m: "node_run pr M A (node_new f s) m" "behind pr M A r m n"
    by blast
  from m(2) assms(2,3) have "m = \<lparr>fn_finalizer = ln_finalizer n, fn_syncer = ln_syncer n, fn_executed = ln_executed n\<rparr>"
    by (cases rule: behind.cases) simp_all
  with m(1) show ?thesis by simp
qed

end
