(* ===== verification/Wakeups.thy ===== *)
theory Wakeups
  imports Finalizer_Loop
begin

text \<open>
  What the finalizer sleeps through: it waits with its next block stored only when a wake-up is on its
  way, or when the execution client did not find that block valid.
\<close>

section \<open>Who stores blocks\<close>

text \<open>Every message that changes the finalized blocks wakes the finalizer, except its own repair.\<close>

lemma stores_notify:
  assumes "handle_event pr A env ev s = (Ok (s', es) :: ('e, 'h, 'r) sync_result)" and "\<not> from_finalizer ev"
  shows "sy_blocks s' = sy_blocks s \<or> NotifyFinalizer \<in> set es"
proof (cases ev)
  case (FromMailbox m)
  with assms obtain msg where m: "handle_message A env msg s = (Ok (s', es) :: ('e, 'h, 'r) sync_result)"
    by (auto simp: outcome_simps)
  show ?thesis
  proof (cases msg)
    case (Finalize c)
    with m have "handle_finalize A env c s = (Ok (s', es) :: ('e, 'h, 'r) sync_result)" by simp
    then show ?thesis by (rule handle_finalize_cases) auto
  next
    case (Get view payload x)
    with m have "s' = s" by (simp add: handle_get_state)
    then show ?thesis by simp
  qed (use m in \<open>auto simp: handle_broadcast_def handle_store_verified_def handle_notarize_def Let_def outcome_simps
      split: option.splits\<close>)
next
  case (FromHandler m)
  with assms obtain msg where m: "handle_resolver A env msg s = (Ok (s', es) :: ('e, 'h, 'r) sync_result)"
    by (auto simp: outcome_simps)
  show ?thesis
  proof (cases msg)
    case (Deliver key bs x)
    with m have "handle_deliver A key bs x s = (Ok (s', es) :: ('e, 'h, 'r) sync_result)" by simp
    then show ?thesis
    proof (cases rule: handle_deliver_cases)
      case (n view)
      then show ?thesis by (rule deliver_notarized_cases) auto
    next
      case (f height)
      then show ?thesis by (rule deliver_finalized_cases) auto
    next
      case (d d)
      then show ?thesis by (rule deliver_digest_cases) auto
    qed
  next
    case (Produce key x)
    with m have "s' = s" by (simp add: handle_produce_state)
    then show ?thesis by simp
  qed
qed (use assms in simp)

lemma cancel_stale_blocks [simp]: "sy_blocks (fst (cancel_stale s)) = sy_blocks s"
  by (simp add: cancel_stale_def)

lemma watched_stores_notify:
  assumes "watched_step pr A ev es w w'" and "\<not> from_finalizer ev"
  shows "sy_blocks (w_node w') = sy_blocks (w_node w) \<or> NotifyFinalizer \<in> set es"
  using assms(1)
proof (rule watched_stepE)
  fix env :: "nat sync_env" and s'
  assume w': "w' = watch A ev s' es w"
    and "sync_step pr A env ev (w_node w) = (Ok (s', es) :: (unit, _, nat) sync_result)"
  then obtain es2 where "handle_event pr A env ev (fst (cancel_stale (w_node w) :: _ \<times> nat sync_effect list))
      = (Ok (s', es2) :: (unit, _, nat) sync_result)" "es = snd (cancel_stale (w_node w)) @ es2"
    by (auto simp: sync_step_Ok)
  with stores_notify [OF this(1) assms(2)] w' show ?thesis by (auto simp: watch_def)
qed

text \<open>What the finalizer is told: a missing block is missing, and a repair it is refused stored nothing.\<close>

lemma get_keeps_blocks:
  assumes "watched_step pr A (FromOrchestrator (Some (OrchestrationGet next r))) es w w'"
  shows "sy_blocks (w_node w') = sy_blocks (w_node w)"
  using assms
  by (rule watched_stepE) (auto simp: sync_step_Ok watch_def dest: orchestrator_get_state)

lemma get_answers_held:
  assumes "sync_laws A" and "watched_step pr A (FromOrchestrator (Some (OrchestrationGet next r))) es w w'"
    and "SendMaybeBlock r found \<in> set es"
  shows "found = map_option snd (held (sy_blocks (w_node w)) next)"
  using assms(2)
proof (rule watched_stepE)
  fix env :: "nat sync_env" and s'
  assume "sync_step pr A env (FromOrchestrator (Some (OrchestrationGet next r))) (w_node w)
      = (Ok (s', es) :: (unit, _, nat) sync_result)"
  with assms(3) have "ar_get_index (blocks_ar A) (sy_blocks (w_node w)) next = Some found"
    by (auto simp: sync_step_Ok cancel_stale_def orchestrator_get_def send_expect_def outcome_simps
        split: if_splits)
  from get_index_held [OF sync_lawsD(4) [OF assms(1)] this] show ?thesis .
qed

lemma missing_is_missing:
  assumes "sync_laws A" and "watched_step pr A (FromOrchestrator (Some (OrchestrationGet next r))) es w w'"
    and "SendMaybeBlock r None \<in> set es"
  shows "held (sy_blocks (w_node w')) next = None"
  using get_answers_held [OF assms] get_keeps_blocks [OF assms(2)] by simp

lemma processed_keeps_blocks:
  assumes "watched_step pr A (FromOrchestrator (Some (OrchestrationProcessed next d))) es w w'"
  shows "sy_blocks (w_node w') = sy_blocks (w_node w)"
  using assms
  by (rule watched_stepE) (auto simp: sync_step_Ok watch_def orchestrator_processed_def outcome_simps)

lemma request_heights_fetches:
  "request_heights gap requested = (requested', es) \<Longrightarrow> SendBool r b \<notin> set es"
  by (induction gap arbitrary: requested requested' es) (auto split: if_splits prod.splits)

lemma refused_repair_keeps_blocks:
  assumes "watched_step pr A (FromOrchestrator (Some (OrchestrationRepair next r))) es w w'"
    and "SendBool r False \<in> set es"
  shows "sy_blocks (w_node w') = sy_blocks (w_node w)"
  using assms(1)
proof (rule watched_stepE)
  fix env :: "nat sync_env" and s'
  let ?s = "fst (cancel_stale (w_node w) :: _ \<times> nat sync_effect list)"
  assume w': "w' = watch A (FromOrchestrator (Some (OrchestrationRepair next r))) s' es w"
    and "sync_step pr A env (FromOrchestrator (Some (OrchestrationRepair next r))) (w_node w)
      = (Ok (s', es) :: (unit, _, nat) sync_result)"
  then obtain es2 where
    rep: "orchestrator_repair pr A env next r ?s = (Ok (s', es2) :: (unit, _, nat) sync_result)" and
    es: "es = snd (cancel_stale (w_node w)) @ es2"
    by (auto simp: sync_step_Ok)
  have no: "SendBool r False \<in> set es2" using assms(2) es by (auto simp: cancel_stale_def)
  have "sy_blocks s' = sy_blocks ?s"
    using rep
  proof (cases rule: orchestrator_repair_cases)
    case (copied start g b)
    with no show ?thesis by (auto simp: repair_with_Ok)
  next
    case (asked start g es')
    from asked(6) show ?thesis by (rule request_gap_Ok) simp
  next
    case (at_genesis start)
    from at_genesis(3) show ?thesis by (rule request_gap_Ok) simp
  qed simp
  with w' show ?thesis by (simp add: watch_def)
qed

section \<open>No wake-up is lost\<close>

definition awake :: "nat \<Rightarrow> ('c, 'm, 'h) loop_node \<Rightarrow> bool" where
  "awake cap n \<longleftrightarrow>
     (ln_phase n \<noteq> Asking \<and> \<not> ln_refused n \<and>
      held (sy_blocks (w_node (ln_syncer n))) (fz_last_indexed (ln_finalizer n) + 1) \<noteq> None \<longrightarrow>
      0 < ln_tokens n) \<and>
     (ln_sent n \<noteq> None \<longrightarrow> ln_phase n = Asking)"

lemma loop_step_awake:
  assumes "sync_laws A" and "0 < cap" and "awake cap n" and "loop_step pr M A cap r n n'"
  shows "awake cap n'"
  using assms(4)
proof (cases rule: loop_step_cases)
  case (syncer_event ev es w)
  show ?thesis
  proof (cases "NotifyFinalizer \<in> set es")
    case True
    with assms(2,3) syncer_event show ?thesis by (auto simp: awake_def notify_positive)
  next
    case False
    with watched_stores_notify [OF syncer_event(2,3)]
    have "sy_blocks (w_node w) = sy_blocks (w_node (ln_syncer n))" by simp
    with assms(3) syncer_event notify_mono [of "ln_tokens n" cap es] show ?thesis
      by (auto simp: awake_def intro: less_le_trans)
  qed
next
  case (asks es w found E f phase fes)
  have "unat (fz_last_indexed (ln_finalizer n)) < 2 ^ 64 - 1" using asks(4) by simp
  from asks(7) this show ?thesis
  proof (cases rule: ask_step_cases)
    case missing
    with asks(6) missing_is_missing [OF assms(1) asks(5)] show ?thesis by (simp add: asks(1) awake_def)
  next
    case (refused b)
    then show ?thesis by (simp add: asks(1) awake_def)
  next
    case (commit b es')
    then show ?thesis by (simp add: asks(1) awake_def)
  qed
next
  case (handles_processed k d es w)
  with assms(3) processed_keeps_blocks [OF handles_processed(3)] notify_mono [of "ln_tokens n" cap es]
  show ?thesis by (auto simp: awake_def)
next
  case (repairs k es w repaired f phase fes)
  have sent: "ln_sent n = None" using assms(3) repairs(2) by (cases "ln_sent n") (simp_all add: awake_def)
  from repairs(5) have f: "f = ln_finalizer n" "phase = (if repaired then Asking else Parked)"
    by (auto simp: repair_step_def)
  show ?thesis
  proof (cases repaired)
    case True
    with f sent show ?thesis by (simp add: repairs(1) awake_def)
  next
    case False
    with refused_repair_keeps_blocks [OF repairs(3)] repairs(4)
    have "sy_blocks (w_node w) = sy_blocks (w_node (ln_syncer n))" by simp
    with assms(3) f sent repairs(2) notify_mono [of "ln_tokens n" cap es] show ?thesis
      by (auto simp: repairs(1) awake_def intro: less_le_trans)
  qed
qed (simp_all add: awake_def)

lemma loop_run_awake:
  assumes "sync_laws A" and "0 < cap" and "loop_run pr M A cap r (loop_new f s) n"
  shows "awake cap n"
  using assms(3) unfolding loop_run_def
proof (induction rule: rtranclp_induct)
  case base
  show ?case by (simp add: awake_def loop_new_def)
next
  case (step n n')
  with loop_step_awake [OF assms(1,2)] show ?case by blast
qed

section \<open>A concrete run\<close>

text \<open>
  The finalizer finds nothing and waits; then the syncer finalizes the sample block. And the other way
  round: the syncer finalizes it first, the finalizer commits it and the syncer hears of it.
\<close>

abbreviation "fresh_loop \<equiv> loop_new fresh_finalizer fresh_node"

definition waiting_loop :: "(nat, two_copies, u64) loop_node" where
  "waiting_loop = fresh_loop\<lparr>ln_phase := Parked, ln_syncer := watched_sample, ln_tokens := 1\<rparr>"

definition committed_loop :: "(nat, two_copies, u64) loop_node" where
  "committed_loop = fresh_loop\<lparr>ln_finalizer := committed_finalizer, ln_syncer := watched_committed,
     ln_tokens := 1, ln_executed := [sample_block]\<rparr>"

lemma fresh_last [simp]: "fz_last_indexed fresh_finalizer = 0"
  by (simp add: finalizer_new_def two_copy_store_def new_store_def)

lemma own_asks:
  assumes "ask_step pr M E (Answered found) (Answered ()) (ln_finalizer n) = (Ok ((f, phase), fes) :: (unit, _) outcome)"
    and "watched_step pr A (FromOrchestrator (Some (OrchestrationGet (fz_last_indexed (ln_finalizer n) + 1) r)))
           es (ln_syncer n) w" and "SendMaybeBlock r found \<in> set es"
    and "ln_phase n = Asking" and "ln_sent n = None" and "unat (fz_last_indexed (ln_finalizer n)) < 2 ^ 64 - 2"
    and "n' = n\<lparr>ln_finalizer := f, ln_phase := phase, ln_refused := phase \<noteq> Asking \<and> found \<noteq> None,
       ln_sent := (if phase = Asking then Some (fz_last_indexed (ln_finalizer n) + 1, b_digest (the found)) else None),
       ln_syncer := w, ln_tokens := notify cap es (ln_tokens n),
       ln_executed := ln_executed n @ (if phase = Asking then [the found] else [])\<rparr>"
  shows "own_step pr M A E cap r n n'"
  unfolding assms(7) by (rule own_step.asks [OF assms(4,5,6,2,3,1)])

lemma own_repairs:
  assumes "ln_phase n = Repairing k"
    and "watched_step pr A (FromOrchestrator (Some (OrchestrationRepair k r))) es u w" and "ln_syncer n = u"
    and "SendBool r repaired \<in> set es"
    and "repair_step (Answered repaired) k (ln_finalizer n) = (Ok ((f, phase), fes) :: (unit, _) outcome)"
    and "n' = n\<lparr>ln_finalizer := f, ln_phase := phase, ln_syncer := w, ln_tokens := notify cap es (ln_tokens n)\<rparr>"
  shows "own_step pr M A E cap r n n'"
  unfolding assms(6) by (rule own_step.repairs [OF assms(1) _ assms(4,5)]) (simp add: assms(2,3))

lemma own_wakes:
  assumes "ln_phase n = Parked" and "0 < ln_tokens n"
  shows "own_step pr M A E cap r n (n\<lparr>ln_phase := Asking, ln_tokens := ln_tokens n - 1\<rparr>)"
proof -
  have "wait_step NewBlock (ln_finalizer n) = (Ok (ln_finalizer n, []) :: (unit, _) outcome)"
    by (simp add: wait_step_def)
  from own_step.wakes [OF assms this] show ?thesis by simp
qed

lemma loop_event:
  assumes "watched_step pr A ev es u w" and "\<not> from_finalizer ev" and "ln_syncer n = u"
    and "n' = n\<lparr>ln_syncer := w, ln_tokens := notify cap es (ln_tokens n)\<rparr>"
  shows "loop_step pr M A cap r n n'"
  unfolding assms(4) by (rule loop_step.syncer_event [OF _ assms(2)]) (simp add: assms(1,3))

lemma own_processed:
  assumes "ln_sent n = Some (k, d)"
    and "watched_step pr A (FromOrchestrator (Some (OrchestrationProcessed k d))) es u w" and "ln_syncer n = u"
    and "n' = n\<lparr>ln_sent := None, ln_syncer := w, ln_tokens := notify cap es (ln_tokens n)\<rparr>"
  shows "own_step pr M A E cap r n n'"
  unfolding assms(4) by (rule own_step.handles_processed [OF assms(1)]) (simp add: assms(2,3))

lemma fresh_get_step:
  "watched_step Debug sample_api (FromOrchestrator (Some (OrchestrationGet 1 7)))
     [SendMaybeBlock 7 None] (watched_new fresh_node) (watched_new fresh_node)"
  by (rule watched_quietI [where s' = fresh_node])
    (simp_all add: sync_step_def orchestrator_get_def send_expect_def node_simps cancel_stale_def
      watched_new_def watch_def)

lemma fresh_repair_step:
  "watched_step Debug sample_api (FromOrchestrator (Some (OrchestrationRepair 1 7)))
     [SendBool 7 False] (watched_new fresh_node) (watched_new fresh_node)"
  by (rule watched_quietI [where s' = fresh_node])
    (simp_all add: sync_step_def orchestrator_repair_def send_expect_def node_simps cancel_stale_def
      list_archive_gap_def watched_new_def watch_def)

lemma waiting_loop_run: "loop_run Debug two_copy_store sample_api 1 7 fresh_loop waiting_loop"
proof -
  let ?n1 = "fresh_loop\<lparr>ln_phase := Repairing 1\<rparr>" and ?n2 = "fresh_loop\<lparr>ln_phase := Parked\<rparr>"
  have "ask_step Debug two_copy_store accepting_engine (Answered None) (Answered ()) (ln_finalizer fresh_loop)
      = (Ok ((fresh_finalizer, Repairing 1), [AskBlock 1]) :: (unit, _) outcome)"
    by (simp add: ask_step_def add_one_evals loop_new_def)
  then have "loop_step Debug two_copy_store sample_api 1 7 fresh_loop ?n1"
    by (rule loop_step.own [OF own_asks [where w = "watched_new fresh_node" and es = "[SendMaybeBlock 7 None]"]])
      (use fresh_get_step in \<open>simp_all add: loop_new_def notify_def\<close>)
  moreover have "loop_step Debug two_copy_store sample_api 1 7 ?n1 ?n2"
    by (rule loop_step.own [OF own_repairs [OF _ fresh_repair_step, where repaired = False and f = fresh_finalizer and phase = Parked]])
      (simp_all add: loop_new_def notify_def repair_step_def)
  moreover have "loop_step Debug two_copy_store sample_api 1 7 ?n2 waiting_loop"
    by (rule loop_event [OF watched_sample_step])
      (simp_all add: loop_new_def notify_def waiting_loop_def)
  ultimately show ?thesis
    unfolding loop_run_def by (meson converse_rtranclp_into_rtranclp r_into_rtranclp)
qed

lemma committed_loop_run: "loop_run Debug two_copy_store sample_api 1 7 fresh_loop committed_loop"
proof -
  let ?n1 = "fresh_loop\<lparr>ln_syncer := watched_sample, ln_tokens := 1\<rparr>"
  let ?n2 = "?n1\<lparr>ln_finalizer := committed_finalizer, ln_sent := Some (1, b_digest sample_block),
    ln_executed := [sample_block]\<rparr>"
  let ?es = "[AskBlock 1, CheckPayload sample_block, CommitHash (forkchoice_at (eth_block_hash sample_block)),
    SyncMetadata, Processed 1 (b_digest sample_block)]"
  have "loop_step Debug two_copy_store sample_api 1 7 fresh_loop ?n1"
    by (rule loop_event [OF watched_sample_step]) (simp_all add: loop_new_def notify_def)
  moreover have "ask_step Debug two_copy_store accepting_engine (Answered (Some sample_block)) (Answered ())
      (ln_finalizer ?n1) = (Ok ((committed_finalizer, Asking), ?es) :: (unit, _) outcome)"
    by (simp add: ask_step_def finalizer_evals add_one_evals committed_finalizer_def fun_eq_iff loop_new_def)
  then have "loop_step Debug two_copy_store sample_api 1 7 ?n1 ?n2"
    by (rule loop_step.own [OF own_asks [where w = watched_sample and es = "[SendMaybeBlock 7 (Some sample_block)]"]])
      (use sample_get_step in \<open>simp_all add: loop_new_def notify_def\<close>)
  moreover have "loop_step Debug two_copy_store sample_api 1 7 ?n2 committed_loop"
    by (rule loop_step.own [OF own_processed [OF _ sample_processed_step]])
      (simp_all add: loop_new_def notify_def committed_loop_def)
  ultimately show ?thesis
    unfolding loop_run_def by (meson converse_rtranclp_into_rtranclp r_into_rtranclp)
qed


text \<open>
  A block the execution client does not find valid is not offered to it again of itself: the finalizer
  uses up its wake-up on a second refusal and waits, with the block stored and nothing to wake it.
\<close>

definition refusing_engine :: engine_api where
  "refusing_engine = accepting_engine\<lparr>new_payload_v4 := (\<lambda>_ _ _ _. Some False)\<rparr>"

definition refused_loop :: "(nat, two_copies, u64) loop_node" where
  "refused_loop = fresh_loop\<lparr>ln_phase := Parked, ln_refused := True, ln_syncer := watched_sample\<rparr>"

lemma sample_repair_step:
  "watched_step Debug sample_api (FromOrchestrator (Some (OrchestrationRepair 1 7)))
     [SendBool 7 False] watched_sample watched_sample"
  by (rule watched_quietI [where s' = node_after_finalize])
    (simp_all add: sync_step_def orchestrator_repair_def send_expect_def node_simps node_after_finalize_def
      cancel_stale_def list_archive_gap_def watched_sample_def watch_def)

text \<open>From the top of the loop, with the block stored and some wake-ups, to the \<open>select!\<close>.\<close>

lemma refused_round:
  assumes "n = fresh_loop\<lparr>ln_refused := b, ln_syncer := watched_sample, ln_tokens := c\<rparr>"
  shows "loop_run Debug two_copy_store sample_api 1 7 n (n\<lparr>ln_phase := Parked, ln_refused := True\<rparr>)"
proof -
  let ?n1 = "n\<lparr>ln_phase := Repairing 1, ln_refused := True\<rparr>"
  have "ask_step Debug two_copy_store refusing_engine (Answered (Some sample_block)) (Answered ())
      (ln_finalizer n) = (Ok ((fresh_finalizer, Repairing 1), [AskBlock 1, CheckPayload sample_block]) :: (unit, _) outcome)"
    by (simp add: ask_step_def add_one_evals loop_new_def assms check_payload_def refusing_engine_def)
  then have "loop_step Debug two_copy_store sample_api 1 7 n ?n1"
    by (rule loop_step.own [OF own_asks [where w = watched_sample and es = "[SendMaybeBlock 7 (Some sample_block)]"]])
      (use sample_get_step in \<open>simp_all add: loop_new_def notify_def assms\<close>)
  moreover have "loop_step Debug two_copy_store sample_api 1 7 ?n1 (n\<lparr>ln_phase := Parked, ln_refused := True\<rparr>)"
    by (rule loop_step.own [OF own_repairs [OF _ sample_repair_step, where repaired = False and f = fresh_finalizer and phase = Parked]])
      (simp_all add: loop_new_def notify_def repair_step_def assms)
  ultimately show ?thesis
    unfolding loop_run_def by (meson converse_rtranclp_into_rtranclp r_into_rtranclp)
qed

lemma refused_block_waits:
  "loop_run Debug two_copy_store sample_api 1 7 fresh_loop refused_loop"
  "held (sy_blocks (w_node (ln_syncer refused_loop))) (fz_last_indexed (ln_finalizer refused_loop) + 1) \<noteq> None"
  "ln_phase refused_loop = Parked" "ln_tokens refused_loop = 0"
proof -
  let ?n1 = "fresh_loop\<lparr>ln_refused := False, ln_syncer := watched_sample, ln_tokens := 1\<rparr>"
  let ?n3 = "fresh_loop\<lparr>ln_refused := True, ln_syncer := watched_sample, ln_tokens := 0\<rparr>"
  have 1: "loop_step Debug two_copy_store sample_api 1 7 fresh_loop ?n1"
    by (rule loop_event [OF watched_sample_step]) (simp_all add: loop_new_def notify_def)
  note 2 = refused_round [OF refl, where b = False and c = 1]
  have 3: "loop_step Debug two_copy_store sample_api 1 7 (?n1\<lparr>ln_phase := Parked, ln_refused := True\<rparr>) ?n3"
    using loop_step.own [OF own_wakes [of "?n1\<lparr>ln_phase := Parked, ln_refused := True\<rparr>" Debug two_copy_store sample_api
        accepting_engine 1 7]]
    by (simp add: loop_new_def)
  note 4 = refused_round [OF refl, where b = True and c = 0]
  have "?n3\<lparr>ln_phase := Parked, ln_refused := True\<rparr> = refused_loop"
    by (simp add: refused_loop_def loop_new_def)
  with loop_run_trans [OF loop_run_trans [OF loop_run_trans [OF loop_run_step [OF 1] 2] loop_run_step [OF 3]] 4]
  show "loop_run Debug two_copy_store sample_api 1 7 fresh_loop refused_loop" by simp
  show "held (sy_blocks (w_node (ln_syncer refused_loop))) (fz_last_indexed (ln_finalizer refused_loop) + 1) \<noteq> None"
    "ln_phase refused_loop = Parked" "ln_tokens refused_loop = 0"
    by (simp_all add: refused_loop_def loop_new_def watched_sample_def node_after_finalize_def held_def)
qed

section \<open>The properties\<close>

text \<open>
  C7. No wake-up is lost: whenever the finalizer waits although its next block is stored, and the
  execution client did not refuse it, a message is in its channel and it can go on to ask for the block.
\<close>

theorem no_lost_wakeup:
  assumes "sync_laws A" and "0 < cap" and "loop_run pr M A cap r (loop_new f s) n"
    and "ln_phase n = Parked" and "\<not> ln_refused n"
    and "held (sy_blocks (w_node (ln_syncer n))) (fz_last_indexed (ln_finalizer n) + 1) \<noteq> None"
  shows "0 < ln_tokens n \<and>
         (\<exists>n'. loop_step pr M A cap r n n' \<and> ln_phase n' = Asking \<and>
               ln_finalizer n' = ln_finalizer n \<and> ln_syncer n' = ln_syncer n)"
proof -
  have pos: "0 < ln_tokens n"
    using loop_run_awake [OF assms(1-3)] assms(4-6) by (simp add: awake_def)
  from loop_step.own [OF own_wakes [OF assms(4) pos, of pr M A accepting_engine cap r]] pos show ?thesis by fastforce
qed

theorem no_lost_wakeup_witness: "0 < ln_tokens waiting_loop"
proof -
  have "ln_phase waiting_loop = Parked" "\<not> ln_refused waiting_loop"
    "held (sy_blocks (w_node (ln_syncer waiting_loop))) (fz_last_indexed (ln_finalizer waiting_loop) + 1) \<noteq> None"
    by (simp_all add: waiting_loop_def loop_new_def watched_sample_def node_after_finalize_def held_def)
  from no_lost_wakeup [OF sample_api_laws _ waiting_loop_run this] show ?thesis by simp
qed

end
