(* ===== verification/Wakeup_Progress.thy ===== *)
theory Wakeup_Progress
  imports Wakeups
begin

text \<open>
  A finalizer that waits with its next block stored executes it: it takes the wake-up that is in its
  channel, asks for the block, gets it, and hands it to the execution client.
\<close>

section \<open>Calls the syncer answers\<close>

definition calm :: "nat sync_env" where
  "calm = \<lparr>buffered = (\<lambda>_. []), listening = (\<lambda>_. True)\<rparr>"

lemma calm_ok [simp]: "env_ok A calm"
  by (simp add: env_ok_def calm_def)

lemma get_answered:
  assumes "sync_laws A" and "no_storage_error (blocks_ar A)" and "held (sy_blocks (w_node w)) h = Some (d, b)"
  obtains w' es where "watched_step pr A (FromOrchestrator (Some (OrchestrationGet h r))) es w w'"
    and "SendMaybeBlock r (Some b) \<in> set es"
proof -
  let ?s = "fst (cancel_stale (w_node w) :: _ \<times> nat sync_effect list)"
  let ?es = "snd (cancel_stale (w_node w)) @ [SendMaybeBlock r (Some b)]"
  obtain x where x: "ar_get_index (blocks_ar A) (sy_blocks (w_node w)) h = Some x"
    using no_storage_errorD(1) [OF assms(2)] by blast
  with get_index_held [OF sync_lawsD(4) [OF assms(1)] x] assms(3)
  have "ar_get_index (blocks_ar A) (sy_blocks ?s) h = Some (Some b)" by simp
  then have "sync_step pr A calm (FromOrchestrator (Some (OrchestrationGet h r))) (w_node w)
      = (Ok (?s, ?es) :: (unit, _, nat) sync_result)"
    by (auto simp: sync_step_Ok orchestrator_get_def send_expect_def calm_def)
  from watched_step [where env = calm, OF _ _ _ this] show thesis
    by (intro that) auto
qed

lemma processed_handled:
  assumes "no_storage_error (finalized_ar A)"
  obtains w' es where "watched_step pr A (FromOrchestrator (Some (OrchestrationProcessed h d))) es w w'"
proof -
  let ?s = "fst (cancel_stale (w_node w) :: _ \<times> nat sync_effect list)"
  obtain x where "ar_get_index (finalized_ar A) (sy_finalized ?s) h = Some x"
    using no_storage_errorD(1) [OF assms] by blast
  then obtain s' es where "sync_step pr A calm (FromOrchestrator (Some (OrchestrationProcessed h d))) (w_node w)
      = (Ok (s', es) :: (unit, _, nat) sync_result)"
    by (auto simp: sync_step_Ok orchestrator_processed_def)
  from watched_step [where env = calm, OF _ _ _ this] show thesis
    by (intro that) auto
qed

text \<open>An execution client that finds the block valid and answers, and a disk that syncs.\<close>

definition commits_block :: "engine_api \<Rightarrow> block \<Rightarrow> bool" where
  "commits_block E b \<longleftrightarrow> new_payload_v4 E (b_payload b) [] ones32 (b_requests b) = Some True \<and>
     fork_choice_updated_v3 E (forkchoice_at (eth_block_hash b)) None \<noteq> None"

lemma ask_commits:
  assumes "\<And>m. md_sync M m \<noteq> None" and "unat (fz_last_indexed f) < 2 ^ 64 - 2" and "commits_block E b"
  obtains f' es where "ask_step pr M E (Answered (Some b)) (Answered ()) f
      = (Ok ((f', Asking), es) :: (unit, _) outcome)" and "fz_last_indexed f' = fz_last_indexed f + 1"
    and "fz_forkchoice f' = forkchoice_at (eth_block_hash b)"
proof -
  let ?h = "fz_last_indexed f + 1"
  have h: "unat ?h < 2 ^ 64 - 1" using unat_Suc_u64 [of "fz_last_indexed f"] assms(2) by simp
  obtain m where m: "md_sync M (md_put M LATEST_KEY ?h (fz_metadata f)) = Some m" using assms(1) by blast
  have add: "add_ovf pr (fz_last_indexed f) 1 = (Ok ?h :: (unit, u64) outcome)"
    using add_ovf_Suc_u64 [of "fz_last_indexed f"] assms(2) by simp
  obtain x where x: "fork_choice_updated_v3 E (forkchoice_at (eth_block_hash b)) None = Some x"
    using assms(3) by (auto simp: commits_block_def)
  obtain f' es where "commit_block pr M E ?h b f = (Ok (f', es) :: (unit, _) outcome)"
    and "fz_last_indexed f' = ?h" "fz_forkchoice f' = forkchoice_at (eth_block_hash b)"
    using m x by (simp add: commit_block_def Let_def commit_hash_def notify_up_to_small [OF h])
  with add assms(3) show thesis
    by (intro that [of f']) (auto simp: ask_step_def check_payload_def commits_block_def)
qed

section \<open>The block is executed\<close>

text \<open>The finalizer has handed the block to the execution client and told the syncer.\<close>

definition executed_next :: "('c, 'm, 'h) loop_node \<Rightarrow> block \<Rightarrow> ('c, 'm, 'h) loop_node \<Rightarrow> bool" where
  "executed_next n b n' \<longleftrightarrow>
     ln_phase n' = Asking \<and> ln_executed n' = ln_executed n @ [b] \<and>
     fz_last_indexed (ln_finalizer n') = fz_last_indexed (ln_finalizer n) + 1 \<and>
     fz_forkchoice (ln_finalizer n') = forkchoice_at (eth_block_hash b)"

lemma asking_executes:
  assumes "sync_laws A" and "no_storage_error (blocks_ar A)"
    and "\<And>m. md_sync M m \<noteq> None" and "unat (fz_last_indexed (ln_finalizer n)) < 2 ^ 64 - 2"
    and "ln_phase n = Asking" and "ln_sent n = None" and "commits_block E b"
    and "held (sy_blocks (w_node (ln_syncer n))) (fz_last_indexed (ln_finalizer n) + 1) = Some (d, b)"
  shows "\<exists>n'. own_step pr M A E cap r n n' \<and> executed_next n b n' \<and>
     ln_sent n' = Some (fz_last_indexed (ln_finalizer n) + 1, b_digest b)"
proof -
  let ?h = "fz_last_indexed (ln_finalizer n) + 1"
  obtain w es where get: "watched_step pr A (FromOrchestrator (Some (OrchestrationGet ?h r))) es (ln_syncer n) w"
    "SendMaybeBlock r (Some b) \<in> set es"
    using get_answered [OF assms(1,2,8)] by blast
  obtain f fes where ask: "ask_step pr M E (Answered (Some b)) (Answered ()) (ln_finalizer n)
      = (Ok ((f, Asking), fes) :: (unit, _) outcome)" "fz_last_indexed f = ?h"
      "fz_forkchoice f = forkchoice_at (eth_block_hash b)"
    using ask_commits [OF assms(3,4,7)] by blast
  let ?n1 = "n\<lparr>ln_finalizer := f, ln_phase := Asking, ln_refused := Asking \<noteq> Asking \<and> Some b \<noteq> None,
       ln_sent := Some (?h, b_digest b), ln_syncer := w, ln_tokens := notify cap es (ln_tokens n),
       ln_executed := ln_executed n @ [b]\<rparr>"
  have "own_step pr M A E cap r n ?n1"
    by (rule own_asks [OF ask(1) get assms(5,6,4)]) simp
  then show ?thesis using ask(2,3) by (intro exI [of _ ?n1]) (simp add: executed_next_def)
qed

text \<open>And it is the only thing the finalizer does next.\<close>

lemma asking_must_execute:
  assumes "sync_laws A" and "\<And>m. md_sync M m \<noteq> None" and "ln_phase n = Asking" and "ln_sent n = None"
    and "commits_block E b"
    and "held (sy_blocks (w_node (ln_syncer n))) (fz_last_indexed (ln_finalizer n) + 1) = Some (d, b)"
    and "own_step pr M A E cap r n n'"
  shows "executed_next n b n'"
  using assms(7)
proof (cases rule: own_step.cases)
  case (asks f phase found w es fes)
  have found: "found = Some b" using get_answers_held [OF assms(1) asks(5,6)] assms(6) by simp
  obtain f' es' where "ask_step pr M E (Answered (Some b)) (Answered ()) (ln_finalizer n)
      = (Ok ((f', Asking), es') :: (unit, _) outcome)" "fz_last_indexed f' = fz_last_indexed (ln_finalizer n) + 1"
      "fz_forkchoice f' = forkchoice_at (eth_block_hash b)"
    using ask_commits [OF assms(2) asks(4) assms(5)] by blast
  with asks(7) found show ?thesis by (simp add: asks(1) executed_next_def)
qed (use assms(3,4) in simp_all)

lemma waking_asks:
  assumes "ln_phase n = Parked" and "ln_sent n = None" and "own_step pr M A E cap r n n'"
  shows "n' = n\<lparr>ln_phase := Asking, ln_tokens := ln_tokens n - 1\<rparr> \<and> 0 < ln_tokens n"
  using assms(3)
proof (cases rule: own_step.cases)
  case (wakes f fes)
  then show ?thesis by (simp add: wait_step_def)
qed (use assms(1,2) in simp_all)

text \<open>
  C8. A stored block is executed: wherever the finalizer waits although its next block is stored and was
  not refused, its own three next steps are to take the wake-up that is in its channel, to get the
  block and commit it, and to tell the syncer, provided the execution client finds the block valid.
  Nothing from outside is needed for them, and any two steps of its own take a wake-up and commit that
  block. Storage reads and syncs are assumed to work.
\<close>

theorem stored_block_executes:
  assumes "sync_laws A" and "no_storage_error (blocks_ar A)" and "no_storage_error (finalized_ar A)"
    and "\<And>m. md_sync M m \<noteq> None" and "0 < cap"
    and "loop_run pr M A cap r (loop_new f s) n" and "ln_phase n = Parked" and "\<not> ln_refused n"
    and "held (sy_blocks (w_node (ln_syncer n))) (fz_last_indexed (ln_finalizer n) + 1) = Some (d, b)"
    and "unat (fz_last_indexed (ln_finalizer n)) < 2 ^ 64 - 2" and "commits_block E b"
  shows "(\<exists>n1 n2 n3. own_step pr M A E cap r n n1 \<and> own_step pr M A E cap r n1 n2 \<and>
            own_step pr M A E cap r n2 n3 \<and> executed_next n b n3 \<and> ln_sent n3 = None) \<and>
         (\<forall>n1 n2. own_step pr M A E cap r n n1 \<and> own_step pr M A E cap r n1 n2 \<longrightarrow>
            ln_tokens n = Suc (ln_tokens n1) \<and> executed_next n b n2)"
proof -
  have awake: "0 < ln_tokens n" "ln_sent n = None"
    using loop_run_awake [OF assms(1,5,6)] assms(7-9) by (cases "ln_sent n"; simp add: awake_def)+
  let ?n1 = "n\<lparr>ln_phase := Asking, ln_tokens := ln_tokens n - 1\<rparr>"
  have same: "executed_next ?n1 b n' = executed_next n b n'" for n'
    by (simp add: executed_next_def)
  have 1: "own_step pr M A E cap r n ?n1" by (rule own_wakes [OF assms(7) awake(1)])
  have "\<exists>n2. own_step pr M A E cap r ?n1 n2 \<and> executed_next ?n1 b n2 \<and>
     ln_sent n2 = Some (fz_last_indexed (ln_finalizer ?n1) + 1, b_digest b)"
    by (rule asking_executes [OF assms(1,2,4)]) (use assms(9-11) awake(2) in simp_all)
  then obtain n2 where 2: "own_step pr M A E cap r ?n1 n2" "executed_next n b n2"
    "ln_sent n2 = Some (fz_last_indexed (ln_finalizer n) + 1, b_digest b)"
    unfolding same by auto
  obtain w es where p: "watched_step pr A (FromOrchestrator (Some
      (OrchestrationProcessed (fz_last_indexed (ln_finalizer n) + 1) (b_digest b)))) es (ln_syncer n2) w"
    using processed_handled [OF assms(3)] by blast
  have 3: "own_step pr M A E cap r n2 (n2\<lparr>ln_sent := None, ln_syncer := w, ln_tokens := notify cap es (ln_tokens n2)\<rparr>)"
    by (rule own_step.handles_processed [OF 2(3) p])
  have only: "executed_next n b n2'" if "own_step pr M A E cap r ?n1 n2'" for n2'
    using asking_must_execute [OF assms(1,4) _ _ assms(11) _ that] assms(9) awake(2) same by simp
  show ?thesis
  proof (intro conjI allI impI)
    let ?n3 = "n2\<lparr>ln_sent := None, ln_syncer := w, ln_tokens := notify cap es (ln_tokens n2)\<rparr>"
    have "executed_next n b ?n3" "ln_sent ?n3 = None" using 2(2) by (simp_all add: executed_next_def)
    with 1 2(1) 3 show "\<exists>n1 n2 n3. own_step pr M A E cap r n n1 \<and> own_step pr M A E cap r n1 n2 \<and>
        own_step pr M A E cap r n2 n3 \<and> executed_next n b n3 \<and> ln_sent n3 = None" by blast
  next
    fix n1 n2'
    assume s: "own_step pr M A E cap r n n1 \<and> own_step pr M A E cap r n1 n2'"
    then have n1: "n1 = ?n1" using waking_asks [OF assms(7) awake(2)] by blast
    then show "ln_tokens n = Suc (ln_tokens n1)" using awake(1) by simp
    from s show "executed_next n b n2'" unfolding n1 by (blast intro: only)
  qed
qed

theorem stored_block_executes_witness:
  "\<exists>n1 n2. own_step Debug two_copy_store sample_api accepting_engine 1 7 waiting_loop n1 \<and>
     own_step Debug two_copy_store sample_api accepting_engine 1 7 n1 n2 \<and> ln_executed n2 = [sample_block]"
proof -
  have "ln_phase waiting_loop = Parked" "\<not> ln_refused waiting_loop"
    "held (sy_blocks (w_node (ln_syncer waiting_loop))) (fz_last_indexed (ln_finalizer waiting_loop) + 1)
       = Some (b_digest sample_block, sample_block)"
    "unat (fz_last_indexed (ln_finalizer waiting_loop)) < 2 ^ 64 - 2" "commits_block accepting_engine sample_block"
    by (simp_all add: waiting_loop_def loop_new_def watched_sample_def node_after_finalize_def held_def
        commits_block_def accepting_engine_def)
  note w = this
  have "no_storage_error (blocks_ar sample_api)" "no_storage_error (finalized_ar sample_api)"
    by (simp_all add: no_storage_error_def node_simps)
  note p = stored_block_executes [OF sample_api_laws this _ _ waiting_loop_run w]
  have sync: "md_sync two_copy_store m \<noteq> None" for m by (simp add: two_copy_store_def)
  from p [OF sync] have "\<exists>n1 n2. own_step Debug two_copy_store sample_api accepting_engine 1 7 waiting_loop n1 \<and>
      own_step Debug two_copy_store sample_api accepting_engine 1 7 n1 n2 \<and> executed_next waiting_loop sample_block n2"
    by (simp; blast)
  then show ?thesis by (auto simp: executed_next_def waiting_loop_def loop_new_def)
qed

end
