(* ===== verification/Finalizer_Metrics.thy ===== *)
theory Finalizer_Metrics
  imports Finalizer_Properties
begin

text \<open>
  The finalizer's metrics (the feature \<open>prom\<close> in \<open>application/src/finalizer.rs\<close>): two counters and a
  histogram, fed when a block is about to be committed. They are kept beside the pass, which they do
  not influence; what was counted before a panic is lost with the panic here.
\<close>

section \<open>Counting\<close>

datatype metric_event = CounterIncrement string u64 | HistogramRecord string nat

text \<open>
  Instants are milliseconds: the first is when \<open>elapsed\<close> is called on the last commit's, the second is
  the new \<open>Instant::now\<close>.
\<close>

definition commit_metrics :: "nat \<times> nat \<Rightarrow> block \<Rightarrow> nat option \<Rightarrow> nat option \<times> metric_event list" where
  "commit_metrics clock b last_committed_timestamp =
     (let num_tx = length (pl_transactions (b_payload b)) in
      (Some (snd clock),
       [CounterIncrement ''tx_committed_total'' (word_of_nat num_tx),
        CounterIncrement ''blocks_committed_total'' 1] @
       (case last_committed_timestamp of
          Some last_committed \<Rightarrow> [HistogramRecord ''block_time_millis'' (fst clock - last_committed)]
        | None \<Rightarrow> [])))"

definition metered_pass ::
  "bool \<Rightarrow> profile \<Rightarrow> 'm metadata_api \<Rightarrow> 'c fin_input \<times> nat \<times> nat \<Rightarrow> ('c, 'm) finalizer \<times> nat option
    \<Rightarrow> ('e, (('c, 'm) finalizer \<times> nat option) \<times> 'c fin_effect list \<times> metric_event list) outcome" where
  "metered_pass prom pr M x st =
     (case (x, st) of ((i, clock), (s, prev)) \<Rightarrow>
        and_then (finalizer_pass pr M i s) (\<lambda>(s', es).
          let fed = (if prom \<and> commits i then commit_metrics clock (the (fi_block i)) prev else (prev, []))
          in Ok ((s', fst fed), es, snd fed)))"

fun metered_run ::
  "bool \<Rightarrow> profile \<Rightarrow> 'm metadata_api \<Rightarrow> ('c fin_input \<times> nat \<times> nat) list \<Rightarrow> ('c, 'm) finalizer \<times> nat option
    \<Rightarrow> ('e, (('c, 'm) finalizer \<times> nat option) \<times> 'c fin_effect list \<times> metric_event list) outcome" where
  "metered_run prom pr M [] st = Ok (st, [], [])"
| "metered_run prom pr M (x # xs) st =
     and_then (metered_pass prom pr M x st) (\<lambda>(st1, es1, ms1).
     and_then (metered_run prom pr M xs st1) (\<lambda>(st2, es2, ms2). Ok (st2, es1 @ es2, ms1 @ ms2)))"

text \<open>What the recorder shows: a counter is a 64-bit sum, a histogram the values it was given.\<close>

fun counter_total :: "string \<Rightarrow> metric_event list \<Rightarrow> u64" where
  "counter_total name [] = 0"
| "counter_total name (CounterIncrement n v # ms) = (if n = name then v else 0) + counter_total name ms"
| "counter_total name (HistogramRecord n v # ms) = counter_total name ms"

fun histogram_values :: "string \<Rightarrow> metric_event list \<Rightarrow> nat list" where
  "histogram_values name [] = []"
| "histogram_values name (CounterIncrement n v # ms) = histogram_values name ms"
| "histogram_values name (HistogramRecord n v # ms) = (if n = name then [v] else []) @ histogram_values name ms"

lemma counter_total_append [simp]: "counter_total name (ms @ ms') = counter_total name ms + counter_total name ms'"
  by (induction name ms rule: counter_total.induct) (simp_all add: add.assoc)

lemma histogram_values_append [simp]:
  "histogram_values name (ms @ ms') = histogram_values name ms @ histogram_values name ms'"
  by (induction name ms rule: histogram_values.induct) simp_all

section \<open>The metrics follow the run\<close>

lemma metered_pass_Ok [outcome_simps]:
  "metered_pass prom pr M (i, clock) (s, prev) = (Ok ((s', prev'), es, ms) :: ('e, _) outcome) \<longleftrightarrow>
     finalizer_pass pr M i s = (Ok (s', es) :: ('e, _) outcome) \<and>
     (prev', ms) = (if prom \<and> commits i then commit_metrics clock (the (fi_block i)) prev else (prev, []))"
  by (auto simp: metered_pass_def Let_def outcome_simps prod_eq_iff)

text \<open>Without its metrics a run is the run of the passes, and every run of the passes can be metered.\<close>

lemma metered_run_exists:
  "finalizer_run pr M (map fst xs) s = (Ok (s', es) :: ('e, _) outcome) \<Longrightarrow>
     \<exists>prev' ms. metered_run prom pr M xs (s, prev) = (Ok ((s', prev'), es, ms) :: ('e, _) outcome)"
proof (induction xs arbitrary: s prev es)
  case (Cons x xs)
  obtain i clock where x: "x = (i, clock)" by (cases x)
  from Cons.prems obtain s1 es1 es2 where
    1: "finalizer_pass pr M i s = (Ok (s1, es1) :: ('e, _) outcome)" and
    2: "finalizer_run pr M (map fst xs) s1 = (Ok (s', es2) :: ('e, _) outcome)" and es: "es = es1 @ es2"
    by (auto simp: x outcome_simps)
  obtain prev1 ms1 where
    "metered_pass prom pr M (i, clock) (s, prev) = (Ok ((s1, prev1), es1, ms1) :: ('e, _) outcome)"
    using 1 by (simp add: metered_pass_def Let_def)
  moreover obtain prev' ms2 where
    "metered_run prom pr M xs (s1, prev1) = (Ok ((s', prev'), es2, ms2) :: ('e, _) outcome)"
    using Cons.IH [OF 2] by blast
  ultimately show ?case by (simp add: x es)
qed simp

lemma metered_run_forgets:
  "metered_run prom pr M xs (s, prev) = (Ok ((s', prev'), es, ms) :: ('e, _) outcome) \<Longrightarrow>
     finalizer_run pr M (map fst xs) s = (Ok (s', es) :: ('e, _) outcome)"
proof (induction xs arbitrary: s prev es ms)
  case (Cons x xs)
  obtain i clock where x: "x = (i, clock)" by (cases x)
  from Cons.prems obtain s1 prev1 es1 ms1 es2 ms2 where
    1: "metered_pass prom pr M (i, clock) (s, prev) = (Ok ((s1, prev1), es1, ms1) :: ('e, _) outcome)" and
    2: "metered_run prom pr M xs (s1, prev1) = (Ok ((s', prev'), es2, ms2) :: ('e, _) outcome)" and
    es: "es = es1 @ es2"
    by (auto simp: x outcome_simps simp del: metered_pass_Ok)
  from Cons.IH [OF 2] 1 es show ?case by (simp add: x metered_pass_Ok)
qed simp

definition transactions :: "block \<Rightarrow> u64" where
  "transactions b = word_of_nat (length (pl_transactions (b_payload b)))"

lemma metered_run_counts:
  assumes "metered_run True pr M xs (s, prev) = (Ok ((s', prev'), es, ms) :: ('e, _) outcome)"
  shows "counter_total ''blocks_committed_total'' ms = word_of_nat (length (concat (map (committed \<circ> fst) xs))) \<and>
         counter_total ''tx_committed_total'' ms
           = sum_list (map transactions (concat (map (committed \<circ> fst) xs))) \<and>
         length (histogram_values ''block_time_millis'' ms)
           = length (concat (map (committed \<circ> fst) xs)) - (if prev = None then 1 else 0)"
  using assms
proof (induction xs arbitrary: s prev es ms)
  case Nil
  then show ?case by simp
next
  case (Cons x xs)
  obtain i clock where x: "x = (i, clock)" by (cases x)
  from Cons.prems obtain s1 prev1 es1 ms1 es2 ms2 where
    1: "metered_pass True pr M (i, clock) (s, prev) = (Ok ((s1, prev1), es1, ms1) :: ('e, _) outcome)" and
    2: "metered_run True pr M xs (s1, prev1) = (Ok ((s', prev'), es2, ms2) :: ('e, _) outcome)" and
    ms: "ms = ms1 @ ms2"
    by (auto simp: x outcome_simps simp del: metered_pass_Ok)
  note IH = Cons.IH [OF 2]
  show ?case
  proof (cases "commits i")
    case True
    with 1 have m: "prev1 = Some (snd clock)" "ms1 = snd (commit_metrics clock (the (fi_block i)) prev)"
      by (auto simp: metered_pass_Ok commit_metrics_def Let_def)
    from True have "committed i = [the (fi_block i)]" by (simp add: committed_def)
    with IH m show ?thesis
      by (auto simp: ms x commit_metrics_def Let_def transactions_def split: option.splits)
  next
    case False
    with 1 have "prev1 = prev" "ms1 = []" by (simp_all add: metered_pass_Ok)
    with False IH show ?thesis by (simp add: ms x committed_def)
  qed
qed

text \<open>
  C38. The counters tell the truth: over a run that started without an earlier commit, the counter of
  committed blocks is the number of heights the finalizer advanced, the counter of transactions is the
  number of transactions in the committed blocks, and the histogram of block times has one value for
  every committed block but the first.
\<close>

theorem counters_follow_commits:
  assumes "metadata_laws M" and "finalizer_inv M s"
    and "unat (fz_last_indexed s) + length xs < 2 ^ 64 - 1"
    and "metered_run True pr M xs (s, None) = Ok ((s', prev'), es, ms)"
  shows "counter_total ''blocks_committed_total'' ms = fz_last_indexed s' - fz_last_indexed s \<and>
         counter_total ''tx_committed_total'' ms
           = sum_list (map transactions (concat (map (committed \<circ> fst) xs))) \<and>
         length (histogram_values ''block_time_millis'' ms) = unat (fz_last_indexed s' - fz_last_indexed s) - 1"
proof -
  have len: "length (concat (map (committed \<circ> fst) xs)) = length (filter commits (map fst xs))"
    by (induction xs) (simp_all add: committed_def)
  from finalizer_run_effect [OF assms(1,2) _ metered_run_forgets [OF assms(4)]] assms(3)
  have up: "unat (fz_last_indexed s') = unat (fz_last_indexed s) + length (concat (map (committed \<circ> fst) xs))"
    by (simp add: len)
  then have w: "word_of_nat (length (concat (map (committed \<circ> fst) xs))) = fz_last_indexed s' - fz_last_indexed s"
  proof -
    have "fz_last_indexed s' = word_of_nat (unat (fz_last_indexed s'))" by simp
    also have "\<dots> = fz_last_indexed s + word_of_nat (length (concat (map (committed \<circ> fst) xs)))"
      unfolding up by simp
    finally show ?thesis by simp
  qed
  have "unat (fz_last_indexed s' - fz_last_indexed s) = length (concat (map (committed \<circ> fst) xs))"
    using up by (simp add: unat_sub word_le_nat_alt)
  with metered_run_counts [OF assms(4)] w show ?thesis by simp
qed

theorem counters_follow_commits_witness:
  "\<exists>s' prev' es ms. metered_run True Debug two_copy_store [(request_input 1 5, 0, 0), (commit_input, 3, 4)]
       (fresh_finalizer, None) = (Ok ((s', prev'), es, ms) :: (unit, _) outcome) \<and>
     counter_total ''blocks_committed_total'' ms = fz_last_indexed s' - 0 \<and>
     histogram_values ''block_time_millis'' ms = []"
proof -
  obtain s' es where "finalizer_run Debug two_copy_store
      (map fst [(request_input 1 5, 0 :: nat, 0 :: nat), (commit_input, 3, 4)]) fresh_finalizer
      = (Ok (s', es) :: (unit, _) outcome)"
    by (simp add: finalizer_evals add_one_evals)
  from metered_run_exists [OF this] obtain prev' ms where run: "metered_run True Debug two_copy_store
      [(request_input 1 5, 0, 0), (commit_input, 3, 4)] (fresh_finalizer, None)
      = (Ok ((s', prev'), es, ms) :: (unit, _) outcome)" by blast
  have z: "fz_last_indexed fresh_finalizer = 0"
    by (simp add: finalizer_new_def two_copy_store_def new_store_def)
  have "unat (fz_last_indexed fresh_finalizer)
      + length [(request_input 1 5, 0 :: nat, 0 :: nat), (commit_input, 3, 4)] < 2 ^ 64 - 1"
    by (simp add: z)
  note p = counters_follow_commits [OF two_copy_laws finalizer_inv_new [OF two_copy_laws] this run]
  have one: "unat (fz_last_indexed s') = 1"
    using finalizer_run_effect [OF two_copy_laws finalizer_inv_new [OF two_copy_laws] _ metered_run_forgets [OF run]]
    by (simp add: z commits_def commit_input_def request_input_def accepting_engine_def)
  from p one have "histogram_values ''block_time_millis'' ms = []" by (simp add: z)
  with p run show ?thesis by (auto simp: z)
qed

end
