(* ===== verification/Node_Start.thy ===== *)
theory Node_Start
  imports Wakeups Testnet Application Committee_Properties
begin

text \<open>
  From the parts of an engine to the running node: \<open>Actor::new\<close> of the syncer and of the application
  open the stores, \<open>Actor::run\<close> of the application hands the finalizer over to its task. The storage is
  a parameter; what a node finds in it the first time is \<open>fresh_storage\<close>.
\<close>

section \<open>The actors\<close>

text \<open>What \<open>init\<close> of the stores finds under their configurations; \<open>None\<close> where it fails.\<close>

record ('m, 'h) storage_api =
  init_metadata :: "string \<Rightarrow> 'm option"
  init_block_store :: "prunable_config \<Rightarrow> (block, 'h) archive option"
  init_notarized_store :: "prunable_config \<Rightarrow> (notarized, 'h) archive option"
  init_certificate_store :: "immutable_config \<Rightarrow> (finalization, 'h) archive option"
  init_chain_store :: "immutable_config \<Rightarrow> (block, 'h) archive option"

definition as_bytes :: "string \<Rightarrow> bytes" where
  "as_bytes s = map (word_of_nat \<circ> of_char) s"

record ('k, 'i, 'sh, 'h) syncer_actor =
  sa_mailbox_capacity :: u64
  sa_orchestrator_capacity :: u64
  sa_public_key :: 'k
  sa_registry :: "('k, 'i, 'sh) registry"
  sa_mailbox_size :: u64
  sa_backfill_quota :: u32
  sa_state :: "'h syncer"

text \<open>All four stores fail with the same message.\<close>

definition syncer_actor_new ::
  "('m, 'h) storage_api \<Rightarrow> ('i \<Rightarrow> bytes) \<Rightarrow> ('k, 'i, 'sh) syncer_config
    \<Rightarrow> ('e, ('k, 'i, 'sh, 'h) syncer_actor) outcome" where
  "syncer_actor_new St identity_bytes config =
     (let prefix = sc_partition_prefix config in
      and_then (expect_some ''failed to init verified archive'' (init_block_store St (verified_archive_config prefix))) (\<lambda>verified.
      and_then (expect_some ''failed to init verified archive'' (init_notarized_store St (notarized_archive_config prefix))) (\<lambda>notarized.
      and_then (expect_some ''failed to init verified archive'' (init_certificate_store St (finalized_archive_config prefix))) (\<lambda>finalized.
      and_then (expect_some ''failed to init verified archive'' (init_chain_store St (block_archive_config prefix))) (\<lambda>blocks.
        Ok \<lparr>sa_mailbox_capacity = sc_mailbox_size config, sa_orchestrator_capacity = 2,
            sa_public_key = sc_public_key config, sa_registry = sc_registry config,
            sa_mailbox_size = sc_mailbox_size config, sa_backfill_quota = sc_backfill_quota config,
            sa_state = syncer_new verified notarized finalized blocks (sc_activity_timeout config)
                         (as_bytes (sc_namespace config)) (identity_bytes (sc_identity config))\<rparr>)))))"

record 'm application_actor =
  aa_mailbox_capacity :: u64
  aa_height_capacity :: u64
  aa_client :: engine_client
  aa_application :: "nat application"
  aa_finalizer :: "(nat, 'm) finalizer option"

definition application_actor_new ::
  "client_api \<Rightarrow> 'm metadata_api \<Rightarrow> ('m, 'h) storage_api \<Rightarrow> application_config
    \<Rightarrow> ('e, 'm application_actor) outcome" where
  "application_actor_new C M St cfg =
     (let genesis_hash = ac_genesis_hash cfg; forkchoice = initial_forkchoice genesis_hash in
      and_then (engine_client_new C (ac_engine_url cfg) (ac_engine_jwt cfg)) (\<lambda>client.
      and_then (expect_some ''Failed to initialize finalizer metadata''
                  (init_metadata St (finalizer_partition (ac_partition_prefix cfg)))) (\<lambda>metadata.
        Ok \<lparr>aa_mailbox_capacity = ac_mailbox_size cfg, aa_height_capacity = 1000, aa_client = client,
            aa_application = application_new genesis_hash,
            aa_finalizer = Some (finalizer_new M metadata forkchoice)\<rparr>)))"

text \<open>The start of \<open>Actor::run\<close>: the finalizer is taken out and started.\<close>

definition application_start ::
  "'m application_actor \<Rightarrow> ('e, 'm application_actor \<times> (nat, 'm) finalizer) outcome" where
  "application_start a =
     and_then (expect_some ''no finalizer'' (aa_finalizer a)) (\<lambda>f. Ok (a\<lparr>aa_finalizer := None\<rparr>, f))"

text \<open>
  \<open>Engine::new\<close> makes the parts (\<open>engine_new\<close> is their configuration) and the two actors, the application
  before the syncer; \<open>Engine::run\<close> starts the application with its finalizer and the syncer. What runs
  then is the finalizer's loop beside the syncer.
\<close>

definition engine_start ::
  "client_api \<Rightarrow> ('s, 'k) private_api \<Rightarrow> ('po, 'i) poly_api \<Rightarrow> 'm metadata_api \<Rightarrow> ('m, 'h) storage_api
    \<Rightarrow> ('i \<Rightarrow> bytes) \<Rightarrow> ('k, 's, 'po, 'sh) engine_config
    \<Rightarrow> ('e, ('k, 's, 'i, 'sh) engine_parts \<times> 'm application_actor \<times> ('k, 'i, 'sh, 'h) syncer_actor
             \<times> (nat, 'm, 'h) loop_node) outcome" where
  "engine_start C K Po M St identity_bytes cfg =
     and_then (engine_new C K Po cfg) (\<lambda>en.
     and_then (application_actor_new C M St (en_application en)) (\<lambda>aa.
     and_then (syncer_actor_new St identity_bytes (en_syncer en)) (\<lambda>sa.
     and_then (application_start aa) (\<lambda>(aa', f). Ok (en, aa', sa, loop_new f (sa_state sa))))))"

section \<open>The first start\<close>

text \<open>Empty archives, and metadata that was closed with the given height in it.\<close>

definition fresh_storage :: "'m metadata_api \<Rightarrow> ('m, 'h) storage_api \<Rightarrow> u64 \<Rightarrow> bool" where
  "fresh_storage M St h \<longleftrightarrow>
     (\<forall>p. \<exists>m. init_metadata St p = Some (md_reopen M m) \<and> stored_height M (md_reopen M m) = h) \<and>
     (\<forall>c. \<exists>a. init_block_store St c = Some a \<and> held a = Map.empty) \<and>
     (\<forall>c. \<exists>a. init_notarized_store St c = Some a \<and> held a = Map.empty) \<and>
     (\<forall>c. \<exists>a. init_certificate_store St c = Some a \<and> held a = Map.empty) \<and>
     (\<forall>c. \<exists>a. init_chain_store St c = Some a \<and> held a = Map.empty)"

lemma application_starts_once:
  "application_start a = (Ok (a', f) :: ('e, _) outcome) \<Longrightarrow>
     application_start a' = (Panic (ExpectFailed ''no finalizer'') :: ('e, _) outcome)"
  by (auto simp: application_start_def outcome_simps)

lemma fresh_start:
  assumes "engine_start C K Po M St idb cfg = (Ok (en, aa, sa, n0) :: ('e, _) outcome)" and "fresh_storage M St h"
    and "metadata_laws M"
  obtains f s where "n0 = loop_new f s" "finalizer_inv M f" "fz_last_indexed f = h"
    "fz_forkchoice f = forkchoice_at (ec_genesis_hash cfg)"
    "sync_inv A s" "held (sy_blocks s) = Map.empty"
proof -
  obtain m where m: "init_metadata St (finalizer_partition (ec_partition_prefix cfg)) = Some (md_reopen M m)"
    "stored_height M (md_reopen M m) = h"
    using assms(2) unfolding fresh_storage_def by blast
  let ?f = "finalizer_new M (md_reopen M m) (initial_forkchoice (ec_genesis_hash cfg)) :: (nat, _) finalizer"
  let ?p = "ec_partition_prefix cfg"
  obtain a1 a2 a3 a4 where a: "init_block_store St (verified_archive_config ?p) = Some a1" "held a1 = Map.empty"
    "init_notarized_store St (notarized_archive_config ?p) = Some a2" "held a2 = Map.empty"
    "init_certificate_store St (finalized_archive_config ?p) = Some a3" "held a3 = Map.empty"
    "init_chain_store St (block_archive_config ?p) = Some a4" "held a4 = Map.empty"
    using assms(2) unfolding fresh_storage_def by metis
  let ?s = "syncer_new a1 a2 a3 a4 (ec_activity_timeout cfg)
    (as_bytes (ec_namespace cfg)) (idb (poly_public Po (ec_polynomial cfg)))"
  have "n0 = loop_new ?f ?s"
    using assms(1) m(1) a
    by (auto simp: engine_start_def engine_new_def application_actor_new_def syncer_actor_new_def application_start_def
        Let_def outcome_simps)
  moreover have "finalizer_inv M ?f" by (rule finalizer_inv_new [OF assms(3)])
  moreover have "fz_last_indexed ?f = h" using m(2) by (simp add: finalizer_new_def stored_height_def)
  moreover have "fz_forkchoice ?f = forkchoice_at (ec_genesis_hash cfg)"
    by (simp add: finalizer_new_def initial_forkchoice_def)
  moreover have "sync_inv A ?s" using a by (simp add: sync_inv_def syncer_new_def all_held_def)
  moreover have "held (sy_blocks ?s) = Map.empty" using a by (simp add: syncer_new_def)
  ultimately show thesis by (rule that)
qed

section \<open>What the started node does\<close>

text \<open>
  C6. The node the engine starts over fresh storage executes the finalized chain, whatever its peers,
  its consensus and the interleaving of its tasks do: at the top of the finalizer's loop it has executed
  one block for each height from the stored one to the last indexed, each of them held at its height and
  vouched for by a certificate through its ancestry; its fork choice is the last of them, or the genesis
  block of its configuration before the first.
\<close>

theorem started_node_executes:
  assumes "engine_start C K Po M St idb cfg = (Ok (en, aa, sa, n0) :: ('e, _) outcome)" and "fresh_storage M St h"
    and "metadata_laws M" and "sync_laws A"
    and "loop_run pr M A cap r n0 n" and "ln_phase n = Asking" and "ln_sent n = None"
  shows "map (unat \<circ> b_height) (ln_executed n) = [Suc (unat h) ..< Suc (unat (fz_last_indexed (ln_finalizer n)))] \<and>
         (\<forall>b \<in> set (ln_executed n).
            held (sy_blocks (w_node (ln_syncer n))) (b_height b) = Some (b_digest b, b) \<and>
            vouched (w_certificates (ln_syncer n)) (sy_blocks (w_node (ln_syncer n))) (b_digest b)) \<and>
         fz_forkchoice (ln_finalizer n) =
           forkchoice_at (if ln_executed n = [] then ec_genesis_hash cfg
                          else eth_block_hash (last (ln_executed n)))"
proof -
  from fresh_start [OF assms(1-3)] obtain f s where start: "n0 = loop_new f s" "finalizer_inv M f"
    "fz_last_indexed f = h" "fz_forkchoice f = forkchoice_at (ec_genesis_hash cfg)"
    "sync_inv A s" "held (sy_blocks s) = Map.empty" by blast
  let ?m = "\<lparr>fn_finalizer = ln_finalizer n, fn_syncer = ln_syncer n, fn_executed = ln_executed n\<rparr>"
  have run: "node_run pr M A (node_new f s) ?m"
    using assms(5-7) unfolding start(1) by (rule loop_at_top)
  have inv: "node_inv M A h ?m"
    using node_run_fresh [OF assms(3,4) start(2,5,6) run] by (simp add: start(3))
  have "fz_forkchoice (ln_finalizer n) = forkchoice_at (ec_genesis_hash cfg)"
    if "ln_executed n = []"
    using run_keeps_forkchoice [OF assms(3) node_new_inv [OF start(2) assms(4) start(5,6)] run] that start(4)
    by (simp add: node_new_def)
  then show ?thesis
    using inv executed_vouched [OF inv] by (simp add: node_inv_def syncer_source.chain_def)
qed

text \<open>A node whose stores are new and whose configuration is the smallest there is.\<close>

definition new_storage :: "(two_copies, u64) storage_api" where
  "new_storage =
     \<lparr>init_metadata = (\<lambda>_. Some (md_reopen two_copy_store new_store)),
      init_block_store = (\<lambda>_. Some empty_archive), init_notarized_store = (\<lambda>_. Some empty_archive),
      init_certificate_store = (\<lambda>_. Some empty_archive), init_chain_store = (\<lambda>_. Some empty_archive)\<rparr>"

lemma new_storage_fresh: "fresh_storage two_copy_store new_storage 0"
  by (auto simp: fresh_storage_def new_storage_def stored_height_def two_copy_store_def new_store_def fun_eq_iff)

definition willing_client :: client_api where
  "willing_client = \<lparr>jwt_from_hex = (\<lambda>_. Some []), parse_url = Some\<rparr>"

definition small_config :: "(u64, u64, unit, unit) engine_config" where
  "small_config =
     \<lparr>ec_partition_prefix = ''a'', ec_signer = 1, ec_participants = [1], ec_mailbox_size = MAILBOX_SIZE,
      ec_backfill_quota = BACKFILL_QUOTA, ec_deque_size = DEQUE_SIZE, ec_leader_timeout = 1000,
      ec_notarization_timeout = 2000, ec_nullify_retry = 10000, ec_fetch_timeout = FETCH_TIMEOUT,
      ec_activity_timeout = 10, ec_skip_timeout = 32, ec_max_fetch_count = MAX_FETCH_COUNT,
      ec_max_fetch_size = MAX_FETCH_SIZE, ec_fetch_concurrent = FETCH_CONCURRENT,
      ec_fetch_rate_per_peer = FETCH_RATE_P2P, ec_engine_url = ''url'', ec_engine_jwt = [],
      ec_namespace = [], ec_genesis_hash = 7, ec_share = (), ec_polynomial = ()\<rparr>"

lemma small_config_starts:
  "\<exists>en aa sa. engine_start willing_client plain_keys unit_poly two_copy_store new_storage (\<lambda>_. []) small_config
     = (Ok (en, aa, sa, fresh_loop) :: (unit, _) outcome)"
  by (simp add: engine_start_def engine_new_def application_actor_new_def syncer_actor_new_def
      application_start_def engine_client_new_def willing_client_def new_storage_def small_config_def Let_def
      outcome_simps as_bytes_def fresh_node_def initial_forkchoice_def)

theorem started_node_executes_witness:
  "map (unat \<circ> b_height) (ln_executed committed_loop) = [1] \<and>
   vouched (w_certificates (ln_syncer committed_loop)) (sy_blocks (w_node (ln_syncer committed_loop)))
     (b_digest sample_block)"
proof -
  obtain en aa sa where "engine_start willing_client plain_keys unit_poly two_copy_store new_storage (\<lambda>_. []) small_config
      = (Ok (en, aa, sa, fresh_loop) :: (unit, _) outcome)" using small_config_starts by blast
  from started_node_executes [OF this new_storage_fresh two_copy_laws sample_api_laws committed_loop_run]
  show ?thesis by (simp add: committed_loop_def loop_new_def committed_finalizer_def)
qed

end
