(* ===== verification/Prom_Launch.thy ===== *)
theory Prom_Launch
  imports Metrics_Properties Launch_Properties
begin

text \<open>
  \<open>Command::run_node\<close> as it is built with the feature \<open>prom\<close>: the metrics endpoint is started after the
  telemetry and before the network. What comes up is the node of \<open>run_node\<close> and the endpoint of
  \<open>start_prometheus\<close>, on ports of their own.
\<close>

definition run_node_prom ::
  "build \<Rightarrow> ('g, 'h, 'f) metrics_api \<Rightarrow> (string \<Rightarrow> 'b option) \<Rightarrow> ('b \<Rightarrow> bool) \<Rightarrow> 'g endpoint_event list
    \<Rightarrow> ('g, 'h) metric_process \<Rightarrow> profile \<Rightarrow> ('k :: linorder, 's, 'a :: linorder, 'po, 'sh, 'i) launch_api
    \<Rightarrow> host \<Rightarrow> flags
    \<Rightarrow> ('e, (('g, 'h) endpoint \<times> ('g, 'h) metric_process) \<times> runtime_config \<times> ('k, 's, 'a, 'i, 'sh) node_launch) outcome"
  where
  "run_node_prom b A parse_addr binds early p pr L h fl =
     and_then (load_node L h fl) (\<lambda>(g, committee_list, config, our_ip).
     and_then (expect_result ''Invalid store path'' (get_expanded_path (h_home h) (fl_store_path fl))) (\<lambda>store_path.
     if \<not> la_known_level L (fl_log_level fl) then Panic (ExpectFailed ''Invalid log level'')
     else
       and_then (add_ovf pr (fl_prom_port fl) 1) (\<lambda>telemetry_port.
       and_then (start_prometheus b A parse_addr binds (fl_prom_port fl) early p) (\<lambda>(c, rs).
       and_then (engine_new (la_client L) (la_private L) (la_poly L) config) (\<lambda>engine.
         Ok (c, \<lparr>rt_store_path = store_path, rt_worker_threads = fl_worker_threads fl,
                 rt_telemetry_port = telemetry_port\<rparr>,
             \<lparr>nl_network = network_of (la_private L) fl g committee_list config our_ip,
              nl_engine = engine\<rparr>))))))"

text \<open>The feature adds the endpoint and a way to fail, and changes nothing else.\<close>

lemma prom_adds_endpoint:
  "run_node_prom b A parse_addr binds early p pr L h fl = (Ok (c, rt, l) :: ('e, _) outcome) \<longleftrightarrow>
     run_node pr L h fl = (Ok (rt, l) :: ('e, _) outcome) \<and>
     (\<exists>rs. start_prometheus b A parse_addr binds (fl_prom_port fl) early p = (Ok (c, rs) :: ('e, _) outcome))"
  by (cases c) (auto simp: run_node_prom_def run_node_def outcome_simps split: if_splits)

lemma telemetry_port_distinct:
  assumes "run_node pr L h fl = (Ok (rt, l) :: ('e, _) outcome)"
  shows "rt_telemetry_port rt = fl_prom_port fl + 1" and "rt_telemetry_port rt \<noteq> fl_prom_port fl"
proof -
  show 1: "rt_telemetry_port rt = fl_prom_port fl + 1"
    using assms by (auto simp: run_node_def outcome_simps add_ovf_def split: if_splits)
  show "rt_telemetry_port rt \<noteq> fl_prom_port fl" by (simp add: 1)
qed

text \<open>
  A build that checks for overflow does not come up with the metrics on the last port; one that does not
  puts the telemetry on port zero.
\<close>

lemma last_prom_port:
  assumes "run_node pr L h fl = (Ok (rt, l) :: ('e, _) outcome)" and "fl_prom_port fl = 65535"
  shows "pr = Release" and "rt_telemetry_port rt = 0"
proof -
  show "rt_telemetry_port rt = 0" using telemetry_port_distinct(1) [OF assms(1)] assms(2) by simp
  have "add_ovf Debug (65535 :: u16) 1 = (Panic ArithmeticOverflow :: ('e, _) outcome)"
    by (simp add: add_ovf_def)
  with assms show "pr = Release"
    by (cases pr) (auto simp: run_node_def outcome_simps split: if_splits)
qed

end
