(* ===== verification/Spec2Isabelle.thy ===== *)
theory Spec2Isabelle
  imports Multi_Index Block_Properties Committee_Properties Finalizer_Properties
    Syncer_Properties Syncer_Network Syncer_Repair Syncer_Total Syncer_Ingress
    Application_Properties Node_Properties Repair_Loop Voted_Blocks Testnet_Main Engine_Run Metrics_Properties
    Wakeup_Progress Finalizer_Metrics Node_Start Prom_Launch
begin

text \<open>
  A verification development for Summit, a consensus client that drives an EVM execution client.

  \<^bold>\<open>The program.\<close> A node runs four tasks: the simplex consensus engine and the broadcast buffer, which
  are libraries, and the two actors of the repository. The application (\<open>application/src\<close>) proposes
  blocks and checks proposals for consensus; it owns the finalizer, a task that hands finalized blocks
  to the execution client in height order. The syncer (\<open>syncer/src\<close>) stores blocks and certificates in
  four archives, finds blocks for the application, repairs gaps in the finalized chain for the
  finalizer and answers other nodes. Consensus reports certificates to the syncer; the syncer wakes the
  finalizer; the finalizer asks the syncer for blocks (\<open>get\<close>), tells it what was executed
  (\<open>processed\<close>) and asks it to close gaps (\<open>repair\<close>). \<open>types/src\<close> holds the blocks and their wire formats,
  \<open>node/src\<close> the command line, the configuration, the start of all parts, two test programs and a
  metrics endpoint.

  \<^bold>\<open>How the code is modelled.\<close> A struct is a record, an enum a datatype, an integer a word of its width,
  a digest a word of 256 bits. A computation ends in \<open>Ok\<close>, \<open>Err\<close> or \<open>Panic\<close> (\<open>Summit_Prelude\<close>), so that every
  \<open>expect\<close>, \<open>unwrap\<close>, \<open>unreachable!\<close> and index is a branch; arithmetic that can overflow takes the build
  profile, and panics or wraps. A handler takes the state and what it awaits and returns the new state
  and the list of its effects in the order of the calls; an actor's loop is a step of such handlers, and
  its runs are inductive relations or lists of steps. Third-party code is a record of functions that
  the definitions take as an argument, and its documentation a predicate on the record
  (\<open>archive_laws\<close>, \<open>block_laws\<close>, \<open>cert_laws\<close>, \<open>buf_laws\<close>, \<open>sync_laws\<close>, \<open>metadata_laws\<close>, \<open>text_laws\<close>,
  \<open>metrics_laws\<close>); each is met by a concrete instance, on which the witnesses run.

  \<^bold>\<open>The theories.\<close>

  \<^item> \<open>Summit_Prelude\<close>: machine types, outcomes, checked and saturating arithmetic, big-endian bytes, the
    ordered containers \<open>BTreeMap\<close> and \<open>BTreeSet\<close>, decimal numbers. \<open>Wire_Codec\<close>: the contract of the codec traits
    as the locales \<open>wire_codec\<close> and \<open>sized_codec\<close>, interpreted for keys, blocks and certified blocks; and
    the byte buffers. \<open>Channels\<close>: the mailboxes between actors.

  \<^item> \<open>Multi_Index\<close> (\<open>syncer/src/key.rs\<close>): the 33-byte keys by which data is asked for, \<open>multi_index_new\<close>,
    \<open>to_value\<close>, \<open>index_read\<close>, \<open>index_write\<close>, the derived order as an instance of \<open>linorder\<close>, the printed text.

  \<^item> \<open>Block_Types\<close> (\<open>types/src/block.rs\<close>): blocks, their digest (\<open>compute_digest\<close>), the SSZ encoding
    (\<open>block_as_ssz\<close>, \<open>block_from_ssz\<close>, \<open>ssz_bytes_len\<close>), the wire codec (\<open>block_read\<close>, \<open>block_write\<close>) and the
    certified pairs. \<open>Block_Codec\<close> proves what the readers and writers do, \<open>Inline_Api\<close> is an instance of
    the encoders, \<open>Block_Properties\<close> states round trips, authenticity, sizes, and what a digest commits to.

  \<^item> \<open>Committee\<close> (\<open>application/src/supervisor.rs\<close>) and \<open>Validator_Registry\<close> (\<open>syncer/src/registry.rs\<close>): the two
    providers of the locale \<open>committee\<close>, the contract consensus relies on; the registry's
    append-only discipline. \<open>Committee_Properties\<close>: what adding and removing a key does on every branch,
    and that leaders are members.

  \<^item> \<open>Engine_Client\<close> (\<open>application/src/engine_client.rs\<close>), \<open>Height_Notifier\<close> and \<open>Finalizer\<close>
    (\<open>application/src/finalizer.rs\<close>): the finalizer's loop has three places where it awaits the syncer
    (\<open>fin_phase\<close>), and one definition for what it does from each to the next: \<open>ask_step\<close>, with \<open>commit_block\<close>
    for a validated block, \<open>repair_step\<close> and \<open>wait_step\<close>; one pass of the loop is their composition
    \<open>finalizer_pass\<close>. Waiters are the locale \<open>waiter_queue\<close>. \<open>Finalizer_Properties\<close>: consecutive commits,
    durability over a restart, waiters. \<open>Finalizer_Metrics\<close>: the counters kept beside the passes.

  \<^item> \<open>Archive\<close>: the four archives as an interface with its laws. \<open>Syncer\<close> (\<open>syncer/src/actor.rs\<close>): one
    definition per message of the mailbox (\<open>handle_get\<close>, \<open>handle_store_verified\<close>, \<open>handle_finalize\<close>,
    \<open>handle_notarize\<close>), of the finalizer (\<open>orchestrator_get\<close>, \<open>orchestrator_processed\<close>,
    \<open>orchestrator_repair\<close>) and of the resolver (\<open>handle_deliver\<close>, \<open>handle_produce\<close>), and \<open>sync_step\<close> for one turn
    of the loop. \<open>Syncer_Invariant\<close> and \<open>Syncer_Steps\<close> prove that every step keeps the archives consistent;
    \<open>Syncer_Properties\<close>, \<open>Syncer_Network\<close>, \<open>Syncer_Repair\<close>, \<open>Syncer_Total\<close> and \<open>Syncer_Ancestry\<close> state what that means for
    consensus, for other nodes, for gaps, for the actor's survival, and for where blocks come from.
    \<open>Syncer_Ingress\<close> (\<open>ingress.rs\<close>, \<open>handler.rs\<close>, \<open>coordinator.rs\<close>): the other ends of its mailboxes.
    \<open>Sample_Node\<close>: a concrete node.

  \<^item> \<open>Application\<close> (\<open>application/src/actor.rs\<close>, \<open>ingress.rs\<close>): proposals (\<open>handle_proposal\<close>), verdicts
    (\<open>handle_verify\<close>, \<open>run_verify\<close> for the spawned task) and broadcasts. \<open>Application_Properties\<close>: accepted chains,
    own proposals, votes and broadcasts.

  \<^item> Parts together. \<open>Block_Source\<close> is what the finalizer relies on of the syncer, a locale; \<open>Node_Run\<close>
    interprets it on the syncer and runs both, each call of a finalizer pass being a step of the
    syncer with any other steps in between. The end-to-end theorem is there, that the execution client
    is given exactly the stored blocks of consecutive heights, each certified or an ancestor of a
    certified block. \<open>Node_Properties\<close>: two nodes agree; a restart. \<open>Repair_Loop\<close>: the finalizer's
    loop over \<open>get\<close> and \<open>repair\<close> ends with the block. \<open>Voted_Blocks\<close>: a block voted for is there when its
    finalization comes. \<open>Finalizer_Loop\<close> is the finer system in which the finalizer moves from phase to
    phase while the syncer handles event after event and wakes it over a bounded channel; behind each of
    its states is one that passes reach (\<open>behind\<close>). The finalizer's own steps are \<open>own_step\<close>,
    told apart from what reaches it from outside. \<open>Wakeups\<close>: no wake-up is lost; \<open>Wakeup_Progress\<close>: a stored
    block the finalizer waits beside is what its own next steps execute. \<open>Node_Start\<close>: \<open>Actor::new\<close> of the
    syncer and of the application over the stores, \<open>engine_start\<close>, and what a started node executes.

  \<^item> \<open>Genesis_File\<close> (\<open>types/src/genesis.rs\<close>), \<open>Key_Files\<close> (\<open>node/src/utils.rs\<close>, \<open>keys.rs\<close>), \<open>Node_Launch\<close>
    (\<open>config.rs\<close>, \<open>engine.rs\<close>, \<open>args.rs\<close>): from files and flags to the configuration of every part, with
    every way the start fails. \<open>Engine_Run\<close>: which task gets which channel and who waits for whom.
    \<open>Testnet\<close>, \<open>Testnet_Main\<close> and \<open>Dkg_Setup\<close>: the stores of a node and the two test programs. \<open>Launch_Properties\<close>: what
    holds of a node that comes up. \<open>Metrics\<close> and \<open>Metrics_Properties\<close>: \<open>node/src/prom\<close>; \<open>Prom_Launch\<close>: the
    launch of a node in the build that has it.

  \<^bold>\<open>Bounds and fuel.\<close> Heights are 64-bit numbers; theorems about runs ask that they stay below the last two,
  where adding one to a height would panic or wrap (\<open>node_step\<close>, \<open>loop_step\<close>, \<open>finalizer_commits_consecutive\<close>).
  The wake-up channel takes any positive number of messages (\<open>no_lost_wakeup\<close>). A repair
  adds twenty to a height (\<open>repair_closes_gap\<close>, \<open>event_safe\<close>). \<open>repair_rounds\<close> counts the rounds of the repair
  loop as fuel: more rounds than heights are missing (\<open>gap_size\<close>) always end it. Ports of the test
  network fit 16 bits up to 3893 nodes. Every other definition is total.

  \<^bold>\<open>Not modelled.\<close> The libraries: the consensus engine, the broadcast buffer, the resolver and the network,
  the archives' storage, SSZ, hashing and signatures, the HTTP transports, the runtime. Of the
  repository's own code: logging; the polling future behind a dropped receiver (a proposal or
  verification that is aborted is an argument of the handler); the reads of a test client's output; the
  \<open>Debug\<close> texts of the hooks; labels of tasks; module lists, re-exports and \<open>main.rs\<close>; the tests. Operations
  behind a lock are atomic steps, and the effects a handler had before it panics are not kept: a panic is
  the whole result. Hash collisions are not excluded: where a theorem says that two blocks are the same it says so
  by digest.
\<close>

end
